(* ===== verification/Prelude.thy ===== *)
theory Prelude
  imports Main "HOL-Library.AList" "HOL-Library.Char_ord" "HOL-Library.List_Lexorder"
    "HOL-Library.Sublist" "HOL-Library.Word"
begin

text \<open>
  Shared vocabulary of the development: Go strings as byte strings, the few functions of
  \<^verbatim>\<open>fmt\<close> and \<^verbatim>\<open>strings\<close> that the program calls (decimal and hexadecimal verbs, zero
  padding, \<^verbatim>\<open>TrimRight\<close>, splitting and joining at a separator), Go maps as association
  lists, and the collections of facts the component theories feed to the simplifier.
\<close>

section \<open>Collections\<close>

named_theorems path_simps \<open>how the path functions act on parsed paths\<close>
named_theorems ok_elims \<open>inversion of a run that returned a nil error\<close>
named_theorems ok_iffs \<open>a run that returned a nil error, as the runs of its parts\<close>
named_theorems effect_intros \<open>an operation stays within an effect relation\<close>

section \<open>Strings\<close>

text \<open>A Go string is a sequence of bytes; \<^typ>\<open>string\<close> is a list of 8-bit characters.\<close>

type_synonym bytes = "8 word list"

definition string_to_bytes :: "string \<Rightarrow> bytes" where
  "string_to_bytes s = map (\<lambda>c. word_of_nat (of_char c)) s"

subsection \<open>Splitting and joining at a separator\<close>

fun split_on :: "char \<Rightarrow> string \<Rightarrow> string list" where
  "split_on c [] = [[]]"
| "split_on c (x # xs) =
     (if x = c then [] # split_on c xs
      else (case split_on c xs of [] \<Rightarrow> [[x]] | y # ys \<Rightarrow> (x # y) # ys))"

fun join_with :: "char \<Rightarrow> string list \<Rightarrow> string" where
  "join_with c [] = []"
| "join_with c [x] = x"
| "join_with c (x # y # ys) = x @ c # join_with c (y # ys)"

lemma split_on_nonempty [simp]: "split_on c s \<noteq> []"
  by (induction s) (auto split: list.splits)

lemma split_on_append: "split_on c (a @ c # b) = split_on c a @ split_on c b"
  by (induction a) (auto split: list.splits)

lemma split_on_free: "c \<notin> set s \<Longrightarrow> split_on c s = [s]"
  by (induction s) auto

lemma split_on_no_sep: "x \<in> set (split_on c s) \<Longrightarrow> c \<notin> set x"
  by (induction s arbitrary: x) (auto split: list.splits if_splits)

lemma join_with_Cons: "xs \<noteq> [] \<Longrightarrow> join_with c (x # xs) = x @ c # join_with c xs"
  by (cases xs) auto

lemma join_with_append:
  "xs \<noteq> [] \<Longrightarrow> ys \<noteq> [] \<Longrightarrow> join_with c (xs @ ys) = join_with c xs @ c # join_with c ys"
proof (induction xs rule: list_nonempty_induct)
  case (single x)
  then show ?case by (simp add: join_with_Cons)
next
  case (cons x xs)
  then show ?case by (simp add: join_with_Cons)
qed

lemma split_join:
  "xs \<noteq> [] \<Longrightarrow> (\<And>x. x \<in> set xs \<Longrightarrow> c \<notin> set x) \<Longrightarrow> split_on c (join_with c xs) = xs"
proof (induction xs rule: list_nonempty_induct)
  case (single x)
  then show ?case by (simp add: split_on_free)
next
  case (cons x xs)
  then show ?case by (simp add: join_with_Cons split_on_append split_on_free)
qed

lemma join_split [simp]: "join_with c (split_on c s) = s"
proof (induction s)
  case Nil
  show ?case by simp
next
  case (Cons x xs)
  obtain y ys where s: "split_on c xs = y # ys" by (cases "split_on c xs") auto
  with Cons show ?case by (cases ys) (auto simp: join_with_Cons)
qed

lemma join_with_sep: "d \<in> set (join_with c xs) \<Longrightarrow> d = c \<or> (\<exists>x\<in>set xs. d \<in> set x)"
  by (induction xs rule: join_with.induct) auto

subsection \<open>Decimal and hexadecimal verbs\<close>

text \<open>\<^verbatim>\<open>%d\<close> of a non-negative int, most significant digit first.\<close>

definition digit_char :: "nat \<Rightarrow> char" where
  "digit_char d = char_of (48 + d)"

fun show_nat :: "nat \<Rightarrow> string" where
  "show_nat n = (if n < 10 then [digit_char n] else show_nat (n div 10) @ [digit_char (n mod 10)])"

declare show_nat.simps [simp del]

definition show_int :: "int \<Rightarrow> string" where
  "show_int i = (if i < 0 then CHR ''-'' # show_nat (nat (- i)) else show_nat (nat i))"

text \<open>\<^verbatim>\<open>%0wd\<close>: the decimal number, padded on the left with zeros to width \<open>w\<close> and
  never truncated.\<close>

definition pad_zero :: "nat \<Rightarrow> string \<Rightarrow> string" where
  "pad_zero w s = replicate (w - length s) (CHR ''0'') @ s"

fun parse_dec :: "nat \<Rightarrow> string \<Rightarrow> nat" where
  "parse_dec acc [] = acc"
| "parse_dec acc (c # cs) = parse_dec (10 * acc + (of_char c - 48)) cs"

lemma parse_dec_append: "parse_dec a (s @ t) = parse_dec (parse_dec a s) t"
  by (induction s arbitrary: a) auto

lemma of_digit_char [simp]: "d < 10 \<Longrightarrow> (of_char (digit_char d) :: nat) = 48 + d"
  by (simp add: digit_char_def)

lemma parse_show_nat: "parse_dec 0 (show_nat n) = n"
proof (induction n rule: show_nat.induct)
  case (1 n)
  then show ?case
    by (cases "n < 10") (simp_all add: show_nat.simps [of n] parse_dec_append)
qed

lemma parse_dec_zeros: "parse_dec 0 (replicate k (CHR ''0'') @ s) = parse_dec 0 s"
  by (induction k) auto

lemma parse_pad_zero: "parse_dec 0 (pad_zero w (show_nat n)) = n"
  by (simp add: pad_zero_def parse_dec_zeros parse_show_nat)

lemma show_nat_nonempty [simp]: "show_nat n \<noteq> []"
  by (subst show_nat.simps) simp

lemma show_nat_digits: "c \<in> set (show_nat n) \<Longrightarrow> (48::nat) \<le> of_char c \<and> of_char c < (58::nat)"
proof (induction n rule: show_nat.induct)
  case (1 n)
  then show ?case
    by (cases "n < 10") (auto simp: show_nat.simps [of n])
qed

lemma length_show_nat: "0 < k \<Longrightarrow> n < 10 ^ k \<Longrightarrow> length (show_nat n) \<le> k"
proof (induction n arbitrary: k rule: show_nat.induct)
  case (1 n)
  show ?case
  proof (cases "n < 10")
    case True
    with 1 show ?thesis by (simp add: show_nat.simps [of n])
  next
    case False
    obtain k' where k: "k = Suc k'" using 1(2) by (cases k) auto
    with False 1(3) have "0 < k'" by (cases k') auto
    note k = k this
    from 1(3) k have "n div 10 < 10 ^ k'" by (simp add: less_mult_imp_div_less mult.commute)
    with 1(1)[OF False k(2)] False k show ?thesis by (simp add: show_nat.simps [of n])
  qed
qed

definition digits :: "string \<Rightarrow> bool" where
  "digits s \<longleftrightarrow> (\<forall>c \<in> set s. (48::nat) \<le> of_char c \<and> of_char c < (58::nat))"

lemma parse_dec_acc: "parse_dec a s = a * 10 ^ length s + parse_dec 0 s"
proof (induction s arbitrary: a)
  case (Cons c s)
  show ?case
    using Cons [of "10 * a + (of_char c - 48)"] Cons [of "of_char c - 48"]
    by (simp add: algebra_simps)
qed simp

lemma parse_dec_bound: "digits s \<Longrightarrow> parse_dec 0 s < 10 ^ length s"
proof (induction s)
  case (Cons c s)
  have "digits s" and c: "of_char c - 48 \<le> (9::nat)" using Cons.prems by (auto simp: digits_def)
  with Cons.IH have "parse_dec 0 s < 10 ^ length s" by simp
  moreover have "(of_char c - 48) * 10 ^ length s \<le> 9 * (10 ^ length s :: nat)"
    using c by (rule mult_le_mono1)
  ultimately have "(of_char c - 48) * 10 ^ length s + parse_dec 0 s < 10 * (10 ^ length s :: nat)"
    by linarith
  then show ?case using parse_dec_acc [of "of_char c - 48" s] by simp
qed simp

text \<open>For digit strings of one length, the numeric order is the lexicographic one.\<close>

lemma digits_less:
  "digits s \<Longrightarrow> digits t \<Longrightarrow> length s = length t \<Longrightarrow> parse_dec 0 s < parse_dec 0 t \<Longrightarrow> s < t"
proof (induction s arbitrary: t)
  case (Cons c s)
  then obtain d t' where t: "t = d # t'" by (cases t) auto
  have *: "digits s" "digits t'" "length s = length t'" and d: "(48::nat) \<le> of_char d" "(48::nat) \<le> of_char c"
    using Cons.prems t by (auto simp: digits_def)
  note b = parse_dec_bound [OF *(1)] parse_dec_bound [OF *(2)]
  have less: "(of_char c - 48) * 10 ^ length s + parse_dec 0 s < (of_char d - 48) * 10 ^ length s + parse_dec 0 t'"
    using Cons.prems(4) *(3) unfolding t
    by (simp add: parse_dec_acc [of "of_char c - 48"] parse_dec_acc [of "of_char d - 48"])
  consider "c = d" | "c < d" | "d < c" by fastforce
  then show ?case
  proof cases
    case 1
    with less * Cons.IH show ?thesis by (simp add: t)
  next
    case 2
    then show ?thesis by (simp add: t)
  next
    case 3
    then have "of_char d - 48 + 1 \<le> (of_char c - 48 :: nat)"
      using d by (simp add: less_char_def)
    then have "(of_char d - 48 + 1) * 10 ^ length s \<le> (of_char c - 48) * (10 ^ length s :: nat)"
      by (rule mult_le_mono1)
    then have "(of_char d - 48) * 10 ^ length s + 10 ^ length s \<le> (of_char c - 48) * (10 ^ length s :: nat)"
      by simp
    with less b(2) show ?thesis unfolding *(3) by linarith

  qed
qed simp

text \<open>\<^verbatim>\<open>%x\<close> of a byte slice: two lower-case hexadecimal digits per byte.\<close>

definition hex_digit :: "nat \<Rightarrow> char" where
  "hex_digit d = (if d < 10 then char_of (48 + d) else char_of (87 + d))"

definition hex_byte :: "8 word \<Rightarrow> string" where
  "hex_byte b = [hex_digit (unat b div 16), hex_digit (unat b mod 16)]"

definition hex_string :: "bytes \<Rightarrow> string" where
  "hex_string bs = concat (map hex_byte bs)"

lemma length_hex_string [simp]: "length (hex_string bs) = 2 * length bs"
  by (induction bs) (auto simp: hex_string_def hex_byte_def)

lemma of_hex_digit:
  "d < 16 \<Longrightarrow> (of_char (hex_digit d) :: nat) = (if d < 10 then 48 + d else 87 + d)"
  by (simp add: hex_digit_def)

lemma hex_string_chars:
  assumes "c \<in> set (hex_string bs)"
  shows "(48 \<le> (of_char c :: nat) \<and> (of_char c :: nat) < 58) \<or>
         (97 \<le> (of_char c :: nat) \<and> (of_char c :: nat) < 103)"
proof -
  have "unat b < 16 * 16" for b :: "8 word"
    using unsigned_less [of b] by simp
  then have "unat b div 16 < 16" for b :: "8 word"
    by (simp add: less_mult_imp_div_less)
  with assms obtain d where "c = hex_digit d" "d < 16"
    by (auto simp: hex_string_def hex_byte_def)
  then show ?thesis by (auto simp: of_hex_digit)
qed

lemma unat_byte_div: "unat b div 16 < 16" for b :: "8 word"
proof -
  have "unat b < 16 * 16" using unsigned_less [of b] by simp
  then show ?thesis by (simp add: less_mult_imp_div_less)
qed

lemma hex_digit_inject: "a < 16 \<Longrightarrow> b < 16 \<Longrightarrow> hex_digit a = hex_digit b \<Longrightarrow> a = b"
proof -
  assume a: "a < 16" and b: "b < 16" and "hex_digit a = hex_digit b"
  then have "(of_char (hex_digit a) :: nat) = of_char (hex_digit b)" by simp
  then show "a = b" unfolding of_hex_digit [OF a] of_hex_digit [OF b] by (simp split: if_splits)
qed

lemma hex_string_inject: "hex_string as = hex_string bs \<longleftrightarrow> as = bs"
proof
  show "hex_string as = hex_string bs \<Longrightarrow> as = bs"
  proof (induction as arbitrary: bs)
    case Nil
    then show ?case by (cases bs) (auto simp: hex_string_def hex_byte_def)
  next
    case (Cons a as)
    then obtain b bs' where bs: "bs = b # bs'" by (cases bs) (auto simp: hex_string_def hex_byte_def)
    have 16: "unat x div 16 < 16" for x :: "8 word"
      by (rule unat_byte_div)
    from Cons.prems bs have "hex_digit (unat a div 16) = hex_digit (unat b div 16)"
      "hex_digit (unat a mod 16) = hex_digit (unat b mod 16)" "hex_string as = hex_string bs'"
      by (auto simp: hex_string_def hex_byte_def)
    then have "unat a div 16 = unat b div 16" "unat a mod 16 = unat b mod 16" "as = bs'"
      using 16 Cons.IH by (auto intro: hex_digit_inject)
    then have "a = b" by (metis div_mult_mod_eq word_unat_eq_iff)
    with \<open>as = bs'\<close> bs show ?case by simp
  qed
qed simp

subsection \<open>\<^verbatim>\<open>strings.TrimRight\<close>\<close>

definition TrimRight :: "string \<Rightarrow> string \<Rightarrow> string" where
  "TrimRight s cutset = rev (dropWhile (\<lambda>c. c \<in> set cutset) (rev s))"

lemma TrimRight_last: "TrimRight s cs \<noteq> [] \<Longrightarrow> last (TrimRight s cs) \<notin> set cs"
proof -
  assume "TrimRight s cs \<noteq> []"
  then have "dropWhile (\<lambda>c. c \<in> set cs) (rev s) \<noteq> []" by (simp add: TrimRight_def)
  then have "hd (dropWhile (\<lambda>c. c \<in> set cs) (rev s)) \<notin> set cs" by (rule hd_dropWhile)
  with \<open>dropWhile _ _ \<noteq> []\<close> show ?thesis by (simp add: TrimRight_def last_rev del: dropWhile_eq_Nil_conv)
qed

section \<open>Go maps\<close>

text \<open>
  A Go \<^verbatim>\<open>map[string]string\<close> is \<open>None\<close> when nil and otherwise an association list
  with distinct keys. Reading a missing key gives the zero value.
\<close>

type_synonym string_map = "(string \<times> string) list option"

definition map_entries :: "string_map \<Rightarrow> (string \<times> string) list" where
  "map_entries m = (case m of None \<Rightarrow> [] | Some es \<Rightarrow> es)"

definition map_get :: "string_map \<Rightarrow> string \<Rightarrow> string" where
  "map_get m k = (case map_of (map_entries m) k of None \<Rightarrow> '''' | Some v \<Rightarrow> v)"

definition wf_map :: "string_map \<Rightarrow> bool" where
  "wf_map m \<longleftrightarrow> distinct (map fst (map_entries m))"

text \<open>\<^verbatim>\<open>for k, v := range src { dst[k] = v }\<close>; the iteration order does not matter for
  distinct keys.\<close>

definition map_assign_all :: "(string \<times> string) list \<Rightarrow> (string \<times> string) list \<Rightarrow> (string \<times> string) list" where
  "map_assign_all src dst = fold (\<lambda>(k, v) m. AList.update k v m) src dst"

lemma map_of_assign_all:
  "distinct (map fst src) \<Longrightarrow> map_of (map_assign_all src dst) = map_of dst ++ map_of src"
proof (induction src arbitrary: dst)
  case Nil
  then show ?case by (simp add: map_assign_all_def)
next
  case (Cons p src)
  obtain k v where p: "p = (k, v)" by (cases p)
  from Cons.prems have k: "map_of src k = None" by (auto simp: p map_of_eq_None_iff)
  have "map_of (map_assign_all (p # src) dst) = map_of (AList.update k v dst) ++ map_of src"
    using Cons by (simp add: map_assign_all_def p)
  also have "\<dots> = map_of dst ++ map_of (p # src)"
    using k by (simp add: p update_conv' fun_eq_iff map_add_def split: option.splits)
  finally show ?case .
qed

lemma distinct_assign_all:
  "distinct (map fst dst) \<Longrightarrow> distinct (map fst (map_assign_all src dst))"
  by (induction src arbitrary: dst) (auto simp: map_assign_all_def distinct_update)

end
