(* ===== verification/Json.thy ===== *)
theory Json
  imports Prelude
begin

text \<open>
  \<^verbatim>\<open>encoding/json\<close> as of Go 1.13, to the extent the program uses it: the printer of
  \<^verbatim>\<open>Marshal\<close> (compact, HTML-escaping, with the replacement of invalid UTF-8) and the
  scanner and literal decoder of \<^verbatim>\<open>Unmarshal\<close>. The scanner is the byte-driven pushdown
  automaton of the library, so parsing is total without fuel. The main lemma is the round
  trip: parsing what was printed gives the value back.
\<close>

section \<open>Values\<close>

datatype json =
    JNull
  | JBool bool
  | JNum string
  | JStr string
  | JArr "json list"
  | JObj "(string \<times> json) list"

section \<open>UTF-8\<close>

abbreviation ord :: "char \<Rightarrow> nat" where
  "ord c \<equiv> of_char c"

definition in_range :: "nat \<Rightarrow> nat \<Rightarrow> char \<Rightarrow> bool" where
  "in_range lo hi c \<longleftrightarrow> lo \<le> ord c \<and> ord c \<le> hi"

text \<open>The length of the UTF-8 sequence at the front of the input, 0 where
  \<^verbatim>\<open>utf8.DecodeRune\<close> reports an encoding error.\<close>

fun utf8_len :: "string \<Rightarrow> nat" where
  "utf8_len [] = 0"
| "utf8_len (c # cs) =
     (let b = ord c in
      if b < 128 then 1
      else if 194 \<le> b \<and> b \<le> 223 then
        (case cs of
           c1 # _ \<Rightarrow> if in_range 128 191 c1 then 2 else 0
         | _ \<Rightarrow> 0)
      else if 224 \<le> b \<and> b \<le> 239 then
        (case cs of
           c1 # c2 # _ \<Rightarrow>
             if in_range (if b = 224 then 160 else 128) (if b = 237 then 159 else 191) c1
               \<and> in_range 128 191 c2 then 3 else 0
         | _ \<Rightarrow> 0)
      else if 240 \<le> b \<and> b \<le> 244 then
        (case cs of
           c1 # c2 # c3 # _ \<Rightarrow>
             if in_range (if b = 240 then 144 else 128) (if b = 244 then 143 else 191) c1
               \<and> in_range 128 191 c2 \<and> in_range 128 191 c3 then 4 else 0
         | _ \<Rightarrow> 0)
      else 0)"

declare utf8_len.simps(2) [simp del]

function valid_utf8 :: "string \<Rightarrow> bool" where
  "valid_utf8 [] = True"
| "valid_utf8 (c # cs) =
     (utf8_len (c # cs) \<noteq> 0 \<and> valid_utf8 (drop (utf8_len (c # cs) - 1) cs))"
  by pat_completeness auto
termination by (relation "measure length") auto

definition encode_rune :: "nat \<Rightarrow> string" where
  "encode_rune r =
     (if r < 0x80 then [char_of r]
      else if r < 0x800 then [char_of (0xC0 + r div 64), char_of (0x80 + r mod 64)]
      else if r < 0x10000 then
        [char_of (0xE0 + r div 4096), char_of (0x80 + r div 64 mod 64), char_of (0x80 + r mod 64)]
      else
        [char_of (0xF0 + r div 262144), char_of (0x80 + r div 4096 mod 64),
         char_of (0x80 + r div 64 mod 64), char_of (0x80 + r mod 64)])"

definition rune_error :: string where
  "rune_error = encode_rune 0xFFFD"

section \<open>Printing\<close>

definition backslash :: char where "backslash = CHR 0x5C"
definition dquote :: char where "dquote = CHR 0x22"

text \<open>\<^verbatim>\<open>(*encodeState).string\<close> with \<^verbatim>\<open>escapeHTML\<close>.\<close>

definition escape_ascii :: "char \<Rightarrow> string" where
  "escape_ascii c =
     (if c = backslash \<or> c = dquote then [backslash, c]
      else if c = CHR 0x0A then [backslash, CHR ''n'']
      else if c = CHR 0x0D then [backslash, CHR ''r'']
      else if c = CHR 0x09 then [backslash, CHR ''t'']
      else if ord c < 32 \<or> c = CHR ''<'' \<or> c = CHR ''>'' \<or> c = CHR ''&'' then
        backslash # ''u00'' @ [hex_digit (ord c div 16), hex_digit (ord c mod 16)]
      else [c])"

definition escape_rune :: "string \<Rightarrow> string" where
  "escape_rune s =
     (let n = utf8_len s in
      if n = 0 then backslash # ''ufffd''
      else if n = 1 then escape_ascii (hd s)
      else if take n s = encode_rune 0x2028 then backslash # ''u2028''
      else if take n s = encode_rune 0x2029 then backslash # ''u2029''
      else take n s)"

function escape :: "string \<Rightarrow> string" where
  "escape [] = []"
| "escape (c # cs) = escape_rune (c # cs) @ escape (drop (utf8_len (c # cs) - 1) cs)"
  by pat_completeness auto
termination by (relation "measure length") auto

definition quote :: "string \<Rightarrow> string" where
  "quote s = dquote # escape s @ [dquote]"

fun print_json :: "json \<Rightarrow> string" where
  "print_json JNull = ''null''"
| "print_json (JBool b) = (if b then ''true'' else ''false'')"
| "print_json (JNum s) = s"
| "print_json (JStr s) = quote s"
| "print_json (JArr vs) = ''['' @ join_with (CHR '','') (map print_json vs) @ '']''"
| "print_json (JObj kvs) =
     ''{'' @ join_with (CHR '','') (map (\<lambda>(k, v). quote k @ '':'' @ print_json v) kvs) @ ''}''"

section \<open>Literals\<close>

definition hex_value :: "char \<Rightarrow> nat option" where
  "hex_value c =
     (if in_range 48 57 c then Some (ord c - 48)
      else if in_range 97 102 c then Some (ord c - 87)
      else if in_range 65 70 c then Some (ord c - 55)
      else None)"

text \<open>\<^verbatim>\<open>getu4\<close>: the code unit of a \<^verbatim>\<open>\uXXXX\<close> escape at the front.\<close>

fun getu4 :: "string \<Rightarrow> nat option" where
  "getu4 (b # u # c1 # c2 # c3 # c4 # rest) =
     (if b = backslash \<and> u = CHR ''u'' then
        (case (hex_value c1, hex_value c2, hex_value c3, hex_value c4) of
           (Some h1, Some h2, Some h3, Some h4) \<Rightarrow> Some (4096 * h1 + 256 * h2 + 16 * h3 + h4)
         | _ \<Rightarrow> None)
      else None)"
| "getu4 _ = None"

definition is_surrogate :: "nat \<Rightarrow> bool" where
  "is_surrogate r \<longleftrightarrow> 0xD800 \<le> r \<and> r < 0xE000"

text \<open>\<^verbatim>\<open>utf16.DecodeRune\<close>, \<open>None\<close> for an invalid pair.\<close>

definition decode_pair :: "nat \<Rightarrow> nat \<Rightarrow> nat option" where
  "decode_pair r1 r2 =
     (if 0xD800 \<le> r1 \<and> r1 < 0xDC00 \<and> 0xDC00 \<le> r2 \<and> r2 < 0xE000
      then Some ((r1 - 0xD800) * 1024 + (r2 - 0xDC00) + 0x10000)
      else None)"

definition simple_escape :: "char \<Rightarrow> char" where
  "simple_escape c =
     (if c = CHR ''b'' then CHR 0x08
      else if c = CHR ''f'' then CHR 0x0C
      else if c = CHR ''n'' then CHR 0x0A
      else if c = CHR ''r'' then CHR 0x0D
      else if c = CHR ''t'' then CHR 0x09
      else c)"

text \<open>\<^verbatim>\<open>unquoteBytes\<close>, for the text between the quotes of a scanned string. One step gives
  the bytes it produces and how many bytes it consumes.\<close>

definition unquote_step :: "string \<Rightarrow> string \<times> nat" where
  "unquote_step s =
     (case s of
        [] \<Rightarrow> ([], 1)
      | c # cs \<Rightarrow>
          if c = backslash then
            (case cs of
               [] \<Rightarrow> ([], 1)
             | e # _ \<Rightarrow>
                 if e \<noteq> CHR ''u'' then ([simple_escape e], 2)
                 else (case getu4 s of
                     None \<Rightarrow> ([], 2)
                   | Some r \<Rightarrow>
                       if is_surrogate r then
                         (case getu4 (drop 6 s) of
                            Some r2 \<Rightarrow>
                              (case decode_pair r r2 of
                                 Some d \<Rightarrow> (encode_rune d, 12)
                               | None \<Rightarrow> (rune_error, 6))
                          | None \<Rightarrow> (rune_error, 6))
                       else (encode_rune r, 6)))
          else (let n = utf8_len s in if n = 0 then (rune_error, 1) else (take n s, n)))"

function unquote :: "string \<Rightarrow> string" where
  "unquote [] = []"
| "unquote (c # cs) =
     (let (out, n) = unquote_step (c # cs) in out @ unquote (drop (n - 1) cs))"
  by pat_completeness auto
termination by (relation "measure length") auto

declare unquote.simps(2) [simp del]

section \<open>The scanner\<close>

datatype num_state = NNeg | NZero | NInt | NDot | NFrac | NExp | NSign | NExpDigits

datatype mode =
    MValue
  | MFirst
  | MKeyFirst
  | MKey
  | MColon
  | MStr bool string
  | MEsc bool string
  | MHex bool nat string
  | MLit string json
  | MNum num_state string
  | MAfter json
  | MError

text \<open>An open array holds its values so far, an open object its members so far and the key
  of the member being read; both latest first.\<close>

datatype frame = FArr "json list" | FObj "(string \<times> json) list" string

type_synonym config = "mode \<times> frame list"

definition is_space :: "char \<Rightarrow> bool" where
  "is_space c \<longleftrightarrow> c = CHR '' '' \<or> ord c = 9 \<or> ord c = 10 \<or> ord c = 13"

definition is_digit :: "char \<Rightarrow> bool" where
  "is_digit c \<longleftrightarrow> in_range 48 57 c"

definition begin_value :: "char \<Rightarrow> frame list \<Rightarrow> config" where
  "begin_value c stk =
     (if is_space c then (MValue, stk)
      else if c = CHR ''{'' then (MKeyFirst, FObj [] '''' # stk)
      else if c = CHR ''['' then (MFirst, FArr [] # stk)
      else if c = dquote then (MStr False [], stk)
      else if c = CHR ''-'' then (MNum NNeg [c], stk)
      else if c = CHR ''0'' then (MNum NZero [c], stk)
      else if is_digit c then (MNum NInt [c], stk)
      else if c = CHR ''t'' then (MLit ''rue'' (JBool True), stk)
      else if c = CHR ''f'' then (MLit ''alse'' (JBool False), stk)
      else if c = CHR ''n'' then (MLit ''ull'' JNull, stk)
      else (MError, stk))"

text \<open>\<^verbatim>\<open>stateEndValue\<close>: what may follow a complete value depends on the innermost frame.\<close>

fun end_value :: "json \<Rightarrow> char \<Rightarrow> frame list \<Rightarrow> config" where
  "end_value v c [] = (if is_space c then (MAfter v, []) else (MError, []))"
| "end_value v c (FArr vs # stk) =
     (if is_space c then (MAfter v, FArr vs # stk)
      else if c = CHR '','' then (MValue, FArr (v # vs) # stk)
      else if c = CHR '']'' then (MAfter (JArr (rev (v # vs))), stk)
      else (MError, FArr vs # stk))"
| "end_value v c (FObj kvs k # stk) =
     (if is_space c then (MAfter v, FObj kvs k # stk)
      else if c = CHR '','' then (MKey, FObj ((k, v) # kvs) '''' # stk)
      else if c = CHR ''}'' then (MAfter (JObj (rev ((k, v) # kvs))), stk)
      else (MError, FObj kvs k # stk))"

text \<open>The end of a string: a value, or the key of the innermost object.\<close>

fun end_string :: "bool \<Rightarrow> string \<Rightarrow> frame list \<Rightarrow> config" where
  "end_string False raw stk = (MAfter (JStr (unquote (rev raw))), stk)"
| "end_string True raw (FObj kvs k # stk) = (MColon, FObj kvs (unquote (rev raw)) # stk)"
| "end_string True raw stk = (MError, stk)"

definition num_accepts :: "num_state \<Rightarrow> bool" where
  "num_accepts n \<longleftrightarrow> n \<in> {NZero, NInt, NFrac, NExpDigits}"

definition num_step :: "num_state \<Rightarrow> char \<Rightarrow> num_state option" where
  "num_step n c =
     (let exp = (c = CHR ''e'' \<or> c = CHR ''E'') in
      case n of
        NNeg \<Rightarrow> (if c = CHR ''0'' then Some NZero else if is_digit c then Some NInt else None)
      | NZero \<Rightarrow> (if c = CHR ''.'' then Some NDot else if exp then Some NExp else None)
      | NInt \<Rightarrow> (if is_digit c then Some NInt else if c = CHR ''.'' then Some NDot
                else if exp then Some NExp else None)
      | NDot \<Rightarrow> (if is_digit c then Some NFrac else None)
      | NFrac \<Rightarrow> (if is_digit c then Some NFrac else if exp then Some NExp else None)
      | NExp \<Rightarrow> (if c = CHR ''+'' \<or> c = CHR ''-'' then Some NSign
                else if is_digit c then Some NExpDigits else None)
      | NSign \<Rightarrow> (if is_digit c then Some NExpDigits else None)
      | NExpDigits \<Rightarrow> (if is_digit c then Some NExpDigits else None))"

fun scan :: "config \<Rightarrow> char \<Rightarrow> config" where
  "scan (MValue, stk) c = begin_value c stk"
| "scan (MFirst, stk) c =
     (if is_space c then (MFirst, stk)
      else if c = CHR '']'' then
        (case stk of FArr vs # stk' \<Rightarrow> (MAfter (JArr (rev vs)), stk') | _ \<Rightarrow> (MError, stk))
      else begin_value c stk)"
| "scan (MKeyFirst, stk) c =
     (if is_space c then (MKeyFirst, stk)
      else if c = CHR ''}'' then
        (case stk of FObj kvs k # stk' \<Rightarrow> (MAfter (JObj (rev kvs)), stk') | _ \<Rightarrow> (MError, stk))
      else if c = dquote then (MStr True [], stk)
      else (MError, stk))"
| "scan (MKey, stk) c =
     (if is_space c then (MKey, stk)
      else if c = dquote then (MStr True [], stk)
      else (MError, stk))"
| "scan (MColon, stk) c =
     (if is_space c then (MColon, stk)
      else if c = CHR '':'' then (MValue, stk)
      else (MError, stk))"
| "scan (MStr key raw, stk) c =
     (if c = dquote then end_string key raw stk
      else if c = backslash then (MEsc key (c # raw), stk)
      else if ord c < 32 then (MError, stk)
      else (MStr key (c # raw), stk))"
| "scan (MEsc key raw, stk) c =
     (if c \<in> {CHR ''b'', CHR ''f'', CHR ''n'', CHR ''r'', CHR ''t'', backslash, CHR ''/'', dquote}
      then (MStr key (c # raw), stk)
      else if c = CHR ''u'' then (MHex key 4 (c # raw), stk)
      else (MError, stk))"
| "scan (MHex key n raw, stk) c =
     (if hex_value c = None then (MError, stk)
      else if n = 1 then (MStr key (c # raw), stk)
      else (MHex key (n - 1) (c # raw), stk))"
| "scan (MLit todo v, stk) c =
     (case todo of
        [] \<Rightarrow> (MError, stk)
      | x # xs \<Rightarrow>
          if x \<noteq> c then (MError, stk)
          else if xs = [] then (MAfter v, stk) else (MLit xs v, stk))"
| "scan (MNum n raw, stk) c =
     (case num_step n c of
        Some n' \<Rightarrow> (MNum n' (c # raw), stk)
      | None \<Rightarrow> if num_accepts n then end_value (JNum (rev raw)) c stk else (MError, stk))"
| "scan (MAfter v, stk) c = end_value v c stk"
| "scan (MError, stk) c = (MError, stk)"

definition scan_all :: "config \<Rightarrow> string \<Rightarrow> config" where
  "scan_all cfg s = foldl scan cfg s"

text \<open>\<^verbatim>\<open>checkValid\<close> and the decoding of the whole input: a value and nothing else.\<close>

definition parse_json :: "string \<Rightarrow> json option" where
  "parse_json s =
     (case scan_all (MValue, []) s of
        (MAfter v, []) \<Rightarrow> Some v
      | (MNum n raw, []) \<Rightarrow> if num_accepts n then Some (JNum (rev raw)) else None
      | _ \<Rightarrow> None)"

section \<open>Scanning what was printed\<close>

lemma scan_all_Nil [simp]: "scan_all cfg [] = cfg"
  and scan_all_Cons [simp]: "scan_all cfg (c # s) = scan_all (scan cfg c) s"
  and scan_all_append [simp]: "scan_all cfg (s @ t) = scan_all (scan_all cfg s) t"
  by (simp_all add: scan_all_def)

lemmas char_consts = dquote_def backslash_def

lemma utf8_len_1D: "utf8_len (c # cs) = Suc 0 \<Longrightarrow> ord c < 128"
  by (auto simp: utf8_len.simps(2) Let_def split: if_splits list.splits)

lemma utf8_len_ascii: "ord c < 128 \<Longrightarrow> utf8_len (c # cs) = 1"
  by (simp add: utf8_len.simps(2))

lemma valid_utf8_ascii [simp]: "ord c < 128 \<Longrightarrow> valid_utf8 (c # cs) = valid_utf8 cs"
  by (simp add: utf8_len_ascii)

declare valid_utf8.simps(2) [simp del]

text \<open>A multi-byte sequence: its bytes are not ASCII, and nothing after it matters.\<close>

lemma utf8_len_multi:
  assumes "utf8_len (c # cs) = n" and "2 \<le> n"
  shows "n \<le> Suc (length cs)" and "\<forall>d \<in> set (take n (c # cs)). 128 \<le> ord d"
    and "utf8_len (take n (c # cs) @ rest) = n"
  using assms
  by (auto simp: utf8_len.simps(2) Let_def in_range_def split: if_splits list.splits)

definition plain_char :: "char \<Rightarrow> bool" where
  "plain_char c \<longleftrightarrow> c \<noteq> dquote \<and> c \<noteq> backslash \<and> 32 \<le> ord c"

lemma scan_plain: "\<forall>c \<in> set s. plain_char c \<Longrightarrow> scan_all (MStr k raw, stk) s = (MStr k (rev s @ raw), stk)"
  by (induction s arbitrary: raw) (auto simp: plain_char_def)

lemma multi_plain: "128 \<le> ord c \<Longrightarrow> plain_char c"
  by (auto simp: plain_char_def char_consts)

lemma hex_value_digit [simp]: "d < 16 \<Longrightarrow> hex_value (hex_digit d) = Some d"
  by (simp add: hex_value_def in_range_def of_hex_digit)

lemma scan_escape_ascii:
  assumes "ord c < 128"
  shows "scan_all (MStr k raw, stk) (escape_ascii c) = (MStr k (rev (escape_ascii c) @ raw), stk)"
proof -
  have "ord c div 16 < 16" "ord c mod 16 < 16" using assms by auto
  then have "hex_value (hex_digit (ord c div 16)) = Some (ord c div 16)"
    "hex_value (hex_digit (ord c mod 16)) = Some (ord c mod 16)" by simp_all
  moreover have "hex_value (CHR ''0'') = Some 0" by (simp add: hex_value_def in_range_def)
  ultimately show ?thesis
    by (auto simp: escape_ascii_def char_consts)
qed

lemma scan_u_escape:
  "\<forall>c \<in> set s. hex_value c \<noteq> None \<Longrightarrow> length s = 4 \<Longrightarrow>
   scan_all (MStr k raw, stk) (backslash # CHR ''u'' # s) = (MStr k (rev s @ [CHR ''u'', backslash] @ raw), stk)"
  by (auto simp: char_consts length_Suc_conv numeral_eq_Suc)

lemma utf8_len_cases:
  obtains (bad) "utf8_len s = 0" | (ascii) "utf8_len s = 1" | (multi) "2 \<le> utf8_len s"
  by linarith

lemma scan_escape_rune:
  "scan_all (MStr k raw, stk) (escape_rune (c # cs)) = (MStr k (rev (escape_rune (c # cs)) @ raw), stk)"
proof -
  have u: "scan_all (MStr k raw, stk) (backslash # CHR ''u'' # s) =
      (MStr k (rev (backslash # CHR ''u'' # s) @ raw), stk)"
    if "s \<in> {''fffd'', ''2028'', ''2029''}" for s
    using that by (subst scan_u_escape) (auto simp: hex_value_def in_range_def)
  show ?thesis
  proof (cases "c # cs" rule: utf8_len_cases)
    case bad
    with u [of "''fffd''"] show ?thesis by (simp add: escape_rune_def del: scan_all_Cons)
  next
    case ascii
    then show ?thesis by (simp add: escape_rune_def scan_escape_ascii utf8_len_1D)
  next
    case multi
    have "scan_all (MStr k raw, stk) (take (utf8_len (c # cs)) (c # cs)) =
        (MStr k (rev (take (utf8_len (c # cs)) (c # cs)) @ raw), stk)"
      using utf8_len_multi(2)[OF refl multi] by (intro scan_plain) (auto intro: multi_plain)
    with u [of "''2028''"] u [of "''2029''"] multi show ?thesis
      by (simp add: escape_rune_def Let_def del: scan_all_Cons)
  qed
qed

lemma scan_escape: "scan_all (MStr k raw, stk) (escape s) = (MStr k (rev (escape s) @ raw), stk)"
  by (induction s arbitrary: raw rule: escape.induct) (simp_all add: scan_escape_rune)

text \<open>Decoding what was escaped.\<close>

lemma take_append_len: "length a = n \<Longrightarrow> take n (a @ b) = a"
  by simp

lemma unquote_by_step:
  assumes "unquote_step (p @ rest) = (out, length p)" and "p \<noteq> []"
  shows "unquote (p @ rest) = out @ unquote rest"
  using assms by (cases p) (simp_all add: unquote.simps(2))

lemma encode_rune_ascii: "ord c < 128 \<Longrightarrow> encode_rune (ord c) = [c]"
  by (simp add: encode_rune_def)

lemma unquote_escape_ascii:
  assumes "ord c < 128"
  shows "unquote (escape_ascii c @ rest) = c # unquote rest"
proof -
  have "hex_value (hex_digit (ord c div 16)) = Some (ord c div 16)"
    "hex_value (hex_digit (ord c mod 16)) = Some (ord c mod 16)"
    "hex_value (CHR ''0'') = Some 0"
    using assms hex_value_digit [of "ord c div 16"] hex_value_digit [of "ord c mod 16"]
    by (simp_all add: hex_value_def in_range_def)
  then have "unquote_step (escape_ascii c @ rest) = ([c], length (escape_ascii c))"
    using assms
    by (auto simp: escape_ascii_def unquote_step_def is_surrogate_def char_consts Let_def
        utf8_len_ascii encode_rune_ascii simple_escape_def)
  then show ?thesis
    by (subst unquote_by_step) (auto simp: escape_ascii_def)
qed

lemma unquote_escape_rune:
  assumes "utf8_len (c # cs) \<noteq> 0"
  shows "unquote (escape_rune (c # cs) @ rest) = take (utf8_len (c # cs)) (c # cs) @ unquote rest"
proof (cases "c # cs" rule: utf8_len_cases)
  case ascii
  then show ?thesis by (simp add: escape_rune_def unquote_escape_ascii utf8_len_1D)
next
  case multi
  let ?n = "utf8_len (c # cs)"
  let ?p = "take ?n (c # cs)"
  have len: "length ?p = ?n" using utf8_len_multi(1)[OF refl multi] by simp
  have "unquote_step (?p @ rest) = (?p, length ?p)"
  proof -
    have "c \<noteq> backslash" using utf8_len_multi(2)[OF refl multi] multi
      by (cases ?n) (auto simp: char_consts)
    moreover obtain q where q: "?p = c # q" using multi by (cases ?n) auto
    moreover have "utf8_len (c # q @ rest) = ?n"
      using utf8_len_multi(3)[OF refl multi, of rest] q by simp
    moreover have "take ?n (c # q @ rest) = c # q" using take_append_len [OF len, of rest] q by simp
    ultimately show ?thesis using len multi by (simp add: unquote_step_def Let_def)
  qed
  then have p: "unquote (?p @ rest) = ?p @ unquote rest"
    by (rule unquote_by_step) (use multi in auto)
  have u: "unquote ((backslash # CHR ''u'' # s) @ rest) = encode_rune r @ unquote rest"
    if "(s, r) \<in> {(''2028'', 0x2028), (''2029'', 0x2029)}" for s r
    using that by (intro unquote_by_step)
      (auto simp: unquote_step_def hex_value_def in_range_def is_surrogate_def char_consts)
  show ?thesis
    using multi p u [of "''2028''"] u [of "''2029''"] by (auto simp: escape_rune_def Let_def)
qed (use assms in simp)

theorem unquote_escape: "valid_utf8 s \<Longrightarrow> unquote (escape s) = s"
proof (induction s rule: escape.induct)
  case (2 c cs)
  let ?n = "utf8_len (c # cs)"
  from "2.prems" have n: "?n \<noteq> 0" and v: "valid_utf8 (drop (?n - 1) cs)"
    by (auto simp: valid_utf8.simps(2))
  have "unquote (escape (c # cs)) = take ?n (c # cs) @ unquote (escape (drop (?n - 1) cs))"
    using unquote_escape_rune [OF n] by simp
  also have "unquote (escape (drop (?n - 1) cs)) = drop ?n (c # cs)"
    using "2.IH" v n by (cases ?n) auto
  finally show ?case by simp
qed simp

section \<open>Round trip\<close>

text \<open>A number text is what the number states of the scanner accept.\<close>

definition num_start :: "char \<Rightarrow> num_state option" where
  "num_start c =
     (if c = CHR ''-'' then Some NNeg
      else if c = CHR ''0'' then Some NZero
      else if is_digit c then Some NInt
      else None)"

fun num_run :: "num_state \<Rightarrow> string \<Rightarrow> bool" where
  "num_run n [] = num_accepts n"
| "num_run n (c # cs) = (case num_step n c of Some n' \<Rightarrow> num_run n' cs | None \<Rightarrow> False)"

fun number_text :: "string \<Rightarrow> bool" where
  "number_text [] = False"
| "number_text (c # cs) = (case num_start c of Some n \<Rightarrow> num_run n cs | None \<Rightarrow> False)"

fun wf_json :: "json \<Rightarrow> bool" where
  "wf_json (JNum s) = number_text s"
| "wf_json (JStr s) = valid_utf8 s"
| "wf_json (JArr vs) = list_all wf_json vs"
| "wf_json (JObj kvs) = list_all (\<lambda>(k, v). valid_utf8 k \<and> wf_json v) kvs"
| "wf_json _ = True"

text \<open>The scanner has read exactly \<open>v\<close> when it is behind it, or in a number that may end.\<close>

fun has_read :: "json \<Rightarrow> frame list \<Rightarrow> config \<Rightarrow> bool" where
  "has_read v stk (MAfter u, stk') \<longleftrightarrow> u = v \<and> stk' = stk"
| "has_read v stk (MNum n raw, stk') \<longleftrightarrow> num_accepts n \<and> v = JNum (rev raw) \<and> stk' = stk"
| "has_read v stk _ \<longleftrightarrow> False"

lemma has_readE:
  assumes "has_read v stk cfg"
  obtains "cfg = (MAfter v, stk)"
  | n raw where "cfg = (MNum n raw, stk)" and "num_accepts n" and "v = JNum (rev raw)"
  using assms by (cases "(v, stk, cfg)" rule: has_read.cases) auto

definition closes :: "char \<Rightarrow> bool" where
  "closes c \<longleftrightarrow> c = CHR '','' \<or> c = CHR '']'' \<or> c = CHR ''}'' \<or> is_space c"

lemma not_space [simp]:
  "\<not> is_space (CHR '','')" "\<not> is_space (CHR '']'')" "\<not> is_space (CHR ''}'')"
  by (simp_all add: is_space_def)

lemma closesD:
  "closes c \<Longrightarrow> \<not> is_digit c \<and> c \<noteq> CHR ''.'' \<and> c \<noteq> CHR ''e'' \<and> c \<noteq> CHR ''E'' \<and>
     c \<noteq> CHR ''+'' \<and> c \<noteq> CHR ''-'' \<and> c \<noteq> CHR ''0''"
  by (auto simp: closes_def is_space_def is_digit_def in_range_def)

lemma num_step_closes: "closes c \<Longrightarrow> num_step n c = None"
  by (drule closesD) (simp add: num_step_def split: num_state.split)

lemma scan_has_read: "has_read v stk cfg \<Longrightarrow> closes c \<Longrightarrow> scan cfg c = end_value v c stk"
  by (erule has_readE) (auto simp: num_step_closes)

lemma scan_num_run: "num_run n s \<Longrightarrow> has_read (JNum (rev raw @ s)) stk (scan_all (MNum n raw, stk) s)"
proof (induction s arbitrary: n raw)
  case (Cons c s)
  then obtain n' where n': "num_step n c = Some n'" "num_run n' s" by (auto split: option.splits)
  with Cons.IH [OF n'(2), of "c # raw"] show ?case by simp
qed simp

lemma begin_number:
  assumes "num_start c = Some n"
  shows "begin_value c stk = (MNum n [c], stk)"
proof -
  from assms have "c = CHR ''-'' \<or> is_digit c"
    by (auto simp: num_start_def is_digit_def in_range_def split: if_splits)
  then have "\<not> is_space c" "c \<notin> {CHR ''{'', CHR ''['', dquote}"
    by (auto simp: is_space_def is_digit_def in_range_def dquote_def)
  with assms show ?thesis by (auto simp: begin_value_def num_start_def split: if_splits)
qed

lemma scan_number: "number_text s \<Longrightarrow> has_read (JNum s) stk (scan_all (MValue, stk) s)"
proof (cases s)
  case (Cons c cs)
  assume "number_text s"
  with Cons obtain n where n: "num_start c = Some n" "num_run n cs" by (auto split: option.splits)
  with scan_num_run [OF n(2), of "[c]"] Cons show ?thesis by (simp add: begin_number)
qed simp

text \<open>A printed value starts like a value: not with a space and not with a closing bracket.\<close>

definition starts_value :: "string \<Rightarrow> bool" where
  "starts_value s \<longleftrightarrow> s \<noteq> [] \<and> \<not> is_space (hd s) \<and> hd s \<noteq> CHR '']''"

lemma print_json_starts: "wf_json v \<Longrightarrow> starts_value (print_json v)"
proof (cases v)
  case (JNum s)
  assume "wf_json v"
  with JNum have "number_text s" by simp
  then obtain c cs where "s = c # cs" "num_start c \<noteq> None" by (cases s) (auto split: option.splits)
  with JNum show ?thesis
    by (auto simp: starts_value_def num_start_def is_space_def is_digit_def in_range_def split: if_splits)
qed (auto simp: starts_value_def is_space_def quote_def dquote_def)

lemma scan_first: "starts_value s \<Longrightarrow> scan_all (MFirst, stk) s = scan_all (MValue, stk) s"
  by (cases s) (auto simp: starts_value_def)

lemma begin_dquote: "begin_value dquote stk = (MStr False [], stk)"
  by (simp add: begin_value_def dquote_def is_space_def)

lemma scan_quote_value: "valid_utf8 s \<Longrightarrow> scan_all (MValue, stk) (quote s) = (MAfter (JStr s), stk)"
  by (simp add: quote_def begin_dquote scan_escape unquote_escape)

lemma scan_quote_key:
  "valid_utf8 s \<Longrightarrow> m = MKey \<or> m = MKeyFirst \<Longrightarrow>
   scan_all (m, FObj kvs k # stk) (quote s @ '':'') = (MValue, FObj kvs s # stk)"
  by (auto simp: quote_def begin_dquote scan_escape unquote_escape dquote_def is_space_def)

text \<open>The elements of an array and the members of an object, from the state in which the
  next one is expected; \<open>reads v\<close> is what the round trip claims of a value.\<close>

definition reads :: "json \<Rightarrow> bool" where
  "reads v \<longleftrightarrow> (\<forall>stk. has_read v stk (scan_all (MValue, stk) (print_json v)))"

lemma end_value_frames:
  "end_value v (CHR '','') (FArr vs # stk) = (MValue, FArr (v # vs) # stk)"
  "end_value v (CHR '']'') (FArr vs # stk) = (MAfter (JArr (rev vs @ [v])), stk)"
  "end_value v (CHR '','') (FObj kvs k # stk) = (MKey, FObj ((k, v) # kvs) '''' # stk)"
  "end_value v (CHR ''}'') (FObj kvs k # stk) = (MAfter (JObj (rev kvs @ [(k, v)])), stk)"
  by (simp_all add: is_space_def)

lemma scan_elements:
  assumes "\<forall>v \<in> set (v # vs). reads v"
  shows "scan_all (MValue, FArr acc # stk) (join_with (CHR '','') (map print_json (v # vs)) @ '']'') =
    (MAfter (JArr (rev acc @ v # vs)), stk)"
  using assms
proof (induction vs arbitrary: v acc)
  case Nil
  then have "has_read v (FArr acc # stk) (scan_all (MValue, FArr acc # stk) (print_json v))"
    by (simp add: reads_def)
  then show ?case by (simp add: scan_has_read closes_def)
next
  case (Cons u vs)
  then have "has_read v (FArr acc # stk) (scan_all (MValue, FArr acc # stk) (print_json v))"
    by (simp add: reads_def)
  then have "scan (scan_all (MValue, FArr acc # stk) (print_json v)) (CHR '','') = (MValue, FArr (v # acc) # stk)"
    by (simp add: scan_has_read closes_def end_value_frames)
  with Cons.IH [of u "v # acc"] Cons.prems show ?case by simp
qed

definition print_member :: "string \<times> json \<Rightarrow> string" where
  "print_member = (\<lambda>(k, v). quote k @ '':'' @ print_json v)"

lemma scan_member:
  assumes "valid_utf8 k" and "reads v" and "m = MKey \<or> m = MKeyFirst"
  shows "has_read v (FObj acc k # stk) (scan_all (m, FObj acc k' # stk) (print_member (k, v)))"
proof -
  have "scan_all (m, FObj acc k' # stk) (print_member (k, v)) =
      scan_all (scan_all (m, FObj acc k' # stk) (quote k @ '':'')) (print_json v)"
    by (simp add: print_member_def)
  also have "\<dots> = scan_all (MValue, FObj acc k # stk) (print_json v)"
    by (simp only: scan_quote_key [OF assms(1,3)])
  finally show ?thesis using assms(2) by (simp add: reads_def)
qed

lemma scan_members:
  assumes "\<forall>(k, v) \<in> set (kv # kvs). valid_utf8 k \<and> reads v" and "m = MKey \<or> m = MKeyFirst"
  shows "scan_all (m, FObj acc k' # stk) (join_with (CHR '','') (map print_member (kv # kvs)) @ ''}'') =
    (MAfter (JObj (rev acc @ kv # kvs)), stk)"
  using assms
proof (induction kvs arbitrary: kv acc m k')
  case Nil
  obtain k v where kv: "kv = (k, v)" by (cases kv)
  with Nil have "has_read v (FObj acc k # stk) (scan_all (m, FObj acc k' # stk) (print_member kv))"
    by (auto intro: scan_member)
  with kv show ?case by (simp add: scan_has_read closes_def)
next
  case (Cons kv' kvs)
  obtain k v where kv: "kv = (k, v)" by (cases kv)
  with Cons.prems have "has_read v (FObj acc k # stk) (scan_all (m, FObj acc k' # stk) (print_member kv))"
    by (auto intro: scan_member)
  then have "scan (scan_all (m, FObj acc k' # stk) (print_member kv)) (CHR '','') =
      (MKey, FObj ((k, v) # acc) '''' # stk)"
    by (simp add: scan_has_read closes_def end_value_frames)
  with Cons.IH [of kv' MKey "(k, v) # acc" "''''"] Cons.prems kv show ?case by simp
qed

lemma begin_brackets:
  "begin_value (CHR ''['') stk = (MFirst, FArr [] # stk)"
  "begin_value (CHR ''{'') stk = (MKeyFirst, FObj [] '''' # stk)"
  "begin_value (CHR ''t'') stk = (MLit ''rue'' (JBool True), stk)"
  "begin_value (CHR ''f'') stk = (MLit ''alse'' (JBool False), stk)"
  "begin_value (CHR ''n'') stk = (MLit ''ull'' JNull, stk)"
  by (simp_all add: begin_value_def is_space_def is_digit_def in_range_def dquote_def)

lemma reads_json: "wf_json v \<Longrightarrow> reads v"
proof (induction v rule: wf_json.induct)
  case (1 s)
  then show ?case by (simp add: reads_def scan_number)
next
  case (2 s)
  then show ?case by (simp add: reads_def scan_quote_value)
next
  case (3 vs)
  show ?case
  proof (cases vs)
    case Nil
    then show ?thesis by (simp add: reads_def begin_brackets is_space_def)
  next
    case (Cons u us)
    have s: "starts_value (join_with (CHR '','') (map print_json vs) @ '']'')"
      using print_json_starts [of u] 3 Cons
      by (cases us) (auto simp: starts_value_def)
    have "scan_all (MFirst, FArr [] # stk) (join_with (CHR '','') (map print_json vs) @ '']'') =
        (MAfter (JArr vs), stk)" for stk
      unfolding scan_first [OF s] using scan_elements [of u us "[]" stk] 3 Cons
      by (auto simp: list_all_iff)
    then show ?thesis by (simp add: reads_def begin_brackets del: scan_all_append)
  qed
next
  case (4 kvs)
  have eq: "map (\<lambda>(k, v). quote k @ '':'' @ print_json v) kvs = map print_member kvs"
    by (simp add: print_member_def)
  show ?case
  proof (cases kvs)
    case Nil
    then show ?thesis by (simp add: reads_def begin_brackets is_space_def)
  next
    case (Cons u us)
    have "scan_all (MKeyFirst, FObj [] '''' # stk) (join_with (CHR '','') (map print_member kvs) @ ''}'') =
        (MAfter (JObj kvs), stk)" for stk
      using scan_members [of u us MKeyFirst "[]" "''''" stk] 4 Cons
      by (fastforce simp: list_all_iff)
    then show ?thesis unfolding reads_def print_json.simps eq
      by (simp add: begin_brackets del: scan_all_append)
  qed
qed (simp_all add: reads_def begin_brackets)

theorem parse_print_json: "wf_json v \<Longrightarrow> parse_json (print_json v) = Some v"
  using reads_json [of v]
  by (auto simp: reads_def parse_json_def elim!: has_readE dest!: spec [of _ "[]"])

text \<open>The newline that \<^verbatim>\<open>(*json.Encoder).Encode\<close> appends is skipped.\<close>

theorem parse_print_json_newline: "wf_json v \<Longrightarrow> parse_json (print_json v @ [CHR 0x0A]) = Some v"
proof -
  assume "wf_json v"
  then have "has_read v [] (scan_all (MValue, []) (print_json v))"
    using reads_json by (simp add: reads_def)
  then have "scan_all (MValue, []) (print_json v @ [CHR 0x0A]) = (MAfter v, [])"
    by (simp add: scan_has_read closes_def is_space_def)
  then show ?thesis by (simp add: parse_json_def)
qed

end
