(* ===== verification/GoErrors.thy ===== *)
theory GoErrors
  imports Prelude
begin

text \<open>
  Go's \<^verbatim>\<open>error\<close> values as the program builds them, the text \<^verbatim>\<open>Error()\<close> gives for each,
  what \<^verbatim>\<open>errors.Is\<close> and \<^verbatim>\<open>errors.As\<close> see through, and the descriptive errors of
  \<^verbatim>\<open>builder/descriptive_error.go\<close> that carry the exit code of the staging process.
\<close>

section \<open>Error values\<close>

datatype errno = ENOENT | ENOTDIR | EEXIST | EISDIR | EINVAL | EOther string

fun errno_text :: "errno \<Rightarrow> string" where
  "errno_text ENOENT = ''no such file or directory''"
| "errno_text ENOTDIR = ''not a directory''"
| "errno_text EEXIST = ''file exists''"
| "errno_text EISDIR = ''is a directory''"
| "errno_text EINVAL = ''invalid argument''"
| "errno_text (EOther s) = s"

text \<open>
  \<^item> \<open>EOF\<close>: the value \<^verbatim>\<open>io.EOF\<close>;
  \<^item> \<open>PathError op path errno\<close>: an \<^verbatim>\<open>*os.PathError\<close>;
  \<^item> \<open>Errorf m\<close>: \<^verbatim>\<open>errors.New(m)\<close> or \<^verbatim>\<open>fmt.Errorf\<close> without \<^verbatim>\<open>%w\<close>;
  \<^item> \<open>ErrorfW m e\<close>: \<^verbatim>\<open>fmt.Errorf("m: %w", e)\<close>, which \<^verbatim>\<open>Unwrap\<close>s to \<open>e\<close>;
  \<^item> \<open>Wrap e m\<close>: \<^verbatim>\<open>errors.Wrap(e, m)\<close> of \<^verbatim>\<open>github.com/pkg/errors\<close> 0.8.1, which has
    \<^verbatim>\<open>Cause\<close> and no \<^verbatim>\<open>Unwrap\<close>;
  \<^item> \<open>DescriptiveError code inner message\<close> and \<open>NotZipFileError e\<close>: the program's own types;
  \<^item> \<open>External s\<close>: an error of code outside the repository, known by its text only.
\<close>

datatype go_error =
    EOF
  | PathError string string errno
  | Errorf string
  | ErrorfW string go_error
  | Wrap go_error string
  | DescriptiveError int "go_error option" string
  | NotZipFileError go_error
  | External string

text \<open>\<^verbatim>\<open>func (e DescriptiveError) Error() string\<close>, with the text of the inner error.\<close>

definition DescriptiveError_Error :: "int \<Rightarrow> string option \<Rightarrow> string \<Rightarrow> string" where
  "DescriptiveError_Error code inner msg =
     (case inner of
        None \<Rightarrow> msg @ '': exit status '' @ show_int code
      | Some t \<Rightarrow> msg @ '': exit status '' @ show_int code @ '' - internal error: '' @ t)"

fun Error :: "go_error \<Rightarrow> string" where
  "Error EOF = ''EOF''"
| "Error (PathError op path e) = op @ '' '' @ path @ '': '' @ errno_text e"
| "Error (Errorf m) = m"
| "Error (ErrorfW m e) = m @ '': '' @ Error e"
| "Error (Wrap e m) = m @ '': '' @ Error e"
| "Error (DescriptiveError code inner msg) =
     DescriptiveError_Error code (map_option Error inner) msg"
| "Error (NotZipFileError e) = Error e"
| "Error (External s) = s"

text \<open>\<^verbatim>\<open>errors.Is(err, io.EOF)\<close> follows \<^verbatim>\<open>Unwrap\<close>, which only \<open>ErrorfW\<close> has.\<close>

fun is_EOF :: "go_error \<Rightarrow> bool" where
  "is_EOF EOF = True"
| "is_EOF (ErrorfW m e) = is_EOF e"
| "is_EOF _ = False"

text \<open>\<^verbatim>\<open>errors.As(err, &target)\<close> for a target of type \<^verbatim>\<open>DescriptiveError\<close>: its exit code.\<close>

fun as_DescriptiveError :: "go_error \<Rightarrow> int option" where
  "as_DescriptiveError (DescriptiveError code inner msg) = Some code"
| "as_DescriptiveError (ErrorfW m e) = as_DescriptiveError e"
| "as_DescriptiveError _ = None"

text \<open>\<^verbatim>\<open>errors.As(err, &NotZipFileError{})\<close>.\<close>

fun as_NotZipFileError :: "go_error \<Rightarrow> bool" where
  "as_NotZipFileError (NotZipFileError e) = True"
| "as_NotZipFileError (ErrorfW m e) = as_NotZipFileError e"
| "as_NotZipFileError _ = False"

text \<open>\<^verbatim>\<open>os.IsNotExist\<close> looks at the value itself and does not unwrap.\<close>

fun IsNotExist :: "go_error \<Rightarrow> bool" where
  "IsNotExist (PathError op path ENOENT) = True"
| "IsNotExist _ = False"

fun IsExist :: "go_error \<Rightarrow> bool" where
  "IsExist (PathError op path EEXIST) = True"
| "IsExist _ = False"

section \<open>The descriptive errors of the builder\<close>

definition DetectFailMsg :: string where "DetectFailMsg = ''NoAppDetectedError''"
definition CompileFailMsg :: string where "CompileFailMsg = ''BuildpackCompileFailed''"
definition ReleaseFailMsg :: string where "ReleaseFailMsg = ''BuildpackReleaseFailed''"

definition FullDetectFailMsg :: string where
  "FullDetectFailMsg = ''None of the buildpacks detected a compatible application''"
definition SupplyFailMsg :: string where
  "SupplyFailMsg = ''Failed to run all supply scripts''"
definition NoSupplyScriptFailMsg :: string where
  "NoSupplyScriptFailMsg = ''Error: one of the buildpacks chosen to supply dependencies does not support multi-buildpack apps''"
definition MissingFinalizeWarnMsg :: string where
  "MissingFinalizeWarnMsg = ''Warning: the last buildpack is not compatible with multi-buildpack apps and cannot make use of any dependencies supplied by the buildpacks specified before it''"
definition FinalizeFailMsg :: string where
  "FinalizeFailMsg = ''Failed to run finalize script''"

definition SystemFailCode :: int where "SystemFailCode = 1"
definition DetectFailCode :: int where "DetectFailCode = 222"
definition CompileFailCode :: int where "CompileFailCode = 223"
definition ReleaseFailCode :: int where "ReleaseFailCode = 224"
definition SupplyFailCode :: int where "SupplyFailCode = 225"
definition FinalizeFailCode :: int where "FinalizeFailCode = 227"

lemmas fail_codes =
  SystemFailCode_def DetectFailCode_def CompileFailCode_def ReleaseFailCode_def
  SupplyFailCode_def FinalizeFailCode_def

definition NewCompileFailError :: "go_error \<Rightarrow> go_error" where
  "NewCompileFailError e = DescriptiveError CompileFailCode (Some e) CompileFailMsg"

definition NewReleaseFailError :: "go_error \<Rightarrow> go_error" where
  "NewReleaseFailError e = DescriptiveError ReleaseFailCode (Some e) ReleaseFailMsg"

definition NewSupplyFailError :: "go_error \<Rightarrow> go_error" where
  "NewSupplyFailError e = DescriptiveError SupplyFailCode (Some e) SupplyFailMsg"

definition NewFinalizeFailError :: "go_error \<Rightarrow> go_error" where
  "NewFinalizeFailError e = DescriptiveError FinalizeFailCode (Some e) FinalizeFailMsg"

text \<open>Its argument may be a nil error: the only caller passes one.\<close>

definition NewNoSupplyScriptFailError :: "go_error option \<Rightarrow> go_error" where
  "NewNoSupplyScriptFailError e = DescriptiveError SupplyFailCode e NoSupplyScriptFailMsg"

lemmas descriptive_error_defs =
  NewCompileFailError_def NewReleaseFailError_def NewSupplyFailError_def
  NewFinalizeFailError_def NewNoSupplyScriptFailError_def

lemma as_DescriptiveError_New [simp]:
  "as_DescriptiveError (NewCompileFailError e) = Some CompileFailCode"
  "as_DescriptiveError (NewReleaseFailError e) = Some ReleaseFailCode"
  "as_DescriptiveError (NewSupplyFailError e) = Some SupplyFailCode"
  "as_DescriptiveError (NewFinalizeFailError e) = Some FinalizeFailCode"
  "as_DescriptiveError (NewNoSupplyScriptFailError e') = Some SupplyFailCode"
  by (simp_all add: descriptive_error_defs)

text \<open>
  A failure keeps the descriptive text at the end of its message however often it is
  wrapped on the way to the responder.
\<close>

lemma suffix_Error_wrap: "suffix (Error e) (Error (Wrap e m)) \<and> suffix (Error e) (Error (ErrorfW m e))"
  by (simp add: suffix_def)

end
