(* ===== verification/JsonCodec.thy ===== *)
theory JsonCodec
  imports Json GoErrors "HOL-Library.Multiset"
begin

text \<open>
  The reflective part of \<^verbatim>\<open>encoding/json\<close>: decoding a parsed value into a Go value of a known
  type, and encoding it. A decoder takes the value that is there already, because \<^verbatim>\<open>null\<close>
  leaves it alone, a repeated key decodes into the same field again, and unknown keys are
  skipped. A struct is described by its list of named fields. The locale states what a
  codec promises; its lemmas are the round trips through text.
\<close>

section \<open>Decoding\<close>

type_synonym 'a decoder = "json \<Rightarrow> 'a \<Rightarrow> 'a option"

fun decode_string :: "string decoder" where
  "decode_string (JStr s) old = Some s"
| "decode_string JNull old = Some old"
| "decode_string _ old = None"

fun decode_bool :: "bool decoder" where
  "decode_bool (JBool b) old = Some b"
| "decode_bool JNull old = Some old"
| "decode_bool _ old = None"

text \<open>A slice: \<^verbatim>\<open>null\<close> makes it nil; an array is decoded over the elements that are there, and
  any further element over a zero value.\<close>

fun decode_elems :: "'a decoder \<Rightarrow> 'a \<Rightarrow> json list \<Rightarrow> 'a list \<Rightarrow> 'a list option" where
  "decode_elems dec zero [] old = Some []"
| "decode_elems dec zero (v # vs) old =
     (case dec v (case old of [] \<Rightarrow> zero | x # _ \<Rightarrow> x) of
        None \<Rightarrow> None
      | Some y \<Rightarrow> map_option ((#) y) (decode_elems dec zero vs (tl old)))"

fun decode_slice :: "'a decoder \<Rightarrow> 'a \<Rightarrow> 'a list option decoder" where
  "decode_slice dec zero (JArr vs) old =
     map_option Some (decode_elems dec zero vs (case old of None \<Rightarrow> [] | Some xs \<Rightarrow> xs))"
| "decode_slice dec zero JNull old = Some None"
| "decode_slice dec zero _ old = None"

text \<open>A \<^verbatim>\<open>map[string]string\<close>: entries are added to the map that is there; every value is
  decoded into a new string, so \<^verbatim>\<open>null\<close> gives the empty one.\<close>

fun decode_entries :: "(string \<times> json) list \<Rightarrow> (string \<times> string) list \<Rightarrow> (string \<times> string) list option" where
  "decode_entries [] m = Some m"
| "decode_entries ((k, v) # kvs) m =
     (case decode_string v '''' of
        None \<Rightarrow> None
      | Some s \<Rightarrow> decode_entries kvs (AList.update k s m))"

fun decode_map :: "string_map decoder" where
  "decode_map (JObj kvs) old = map_option Some (decode_entries kvs (map_entries old))"
| "decode_map JNull old = Some None"
| "decode_map _ old = None"

subsection \<open>Structs\<close>

definition lower_char :: "char \<Rightarrow> char" where
  "lower_char c = (if in_range 65 90 c then char_of (ord c + 32) else c)"

text \<open>The case folding of \<^verbatim>\<open>equalFoldRight\<close> for a lower-case field name: ASCII letters, the
  long s (U+017F) and the Kelvin sign (U+212A).\<close>

fun fold_match :: "string \<Rightarrow> string \<Rightarrow> bool" where
  "fold_match [] t = (t = [])"
| "fold_match (s # ss) t =
     (case t of
        [] \<Rightarrow> False
      | c # cs \<Rightarrow>
          if ord c < 128 then lower_char c = s \<and> fold_match ss cs
          else if s = CHR ''s'' then prefix (encode_rune 0x17F) t \<and> fold_match ss (drop 2 t)
          else if s = CHR ''k'' then prefix (encode_rune 0x212A) t \<and> fold_match ss (drop 3 t)
          else False)"

type_synonym 'a fields = "(string \<times> 'a decoder) list"

definition find_field :: "'a fields \<Rightarrow> string \<Rightarrow> 'a decoder option" where
  "find_field fields key =
     (case map_of fields key of
        Some dec \<Rightarrow> Some dec
      | None \<Rightarrow> map_option snd (List.find (\<lambda>(n, _). fold_match n key) fields))"

fun decode_members :: "'a fields \<Rightarrow> (string \<times> json) list \<Rightarrow> 'a \<Rightarrow> 'a option" where
  "decode_members fields [] x = Some x"
| "decode_members fields ((k, v) # kvs) x =
     (case find_field fields k of
        None \<Rightarrow> decode_members fields kvs x
      | Some dec \<Rightarrow>
          (case dec v x of None \<Rightarrow> None | Some y \<Rightarrow> decode_members fields kvs y))"

fun decode_struct :: "'a fields \<Rightarrow> 'a decoder" where
  "decode_struct fields (JObj kvs) x = decode_members fields kvs x"
| "decode_struct fields JNull x = Some x"
| "decode_struct fields _ x = None"

text \<open>A field of a record, given by its selector and its update function.\<close>

definition field :: "'f decoder \<Rightarrow> ('a \<Rightarrow> 'f) \<Rightarrow> (('f \<Rightarrow> 'f) \<Rightarrow> 'a \<Rightarrow> 'a) \<Rightarrow> 'a decoder" where
  "field dec get upd v x = map_option (\<lambda>y. upd (\<lambda>_. y) x) (dec v (get x))"

section \<open>Encoding\<close>

definition encode_slice :: "('a \<Rightarrow> json) \<Rightarrow> 'a list option \<Rightarrow> json" where
  "encode_slice enc xs = (case xs of None \<Rightarrow> JNull | Some ys \<Rightarrow> JArr (map enc ys))"

text \<open>Map keys are written in sorted order.\<close>

definition encode_map :: "string_map \<Rightarrow> json" where
  "encode_map m =
     (case m of
        None \<Rightarrow> JNull
      | Some es \<Rightarrow> JObj (map (\<lambda>(k, s). (k, JStr s)) (sort_key fst es)))"

text \<open>A member with \<^verbatim>\<open>omitempty\<close> disappears when it is empty.\<close>

definition omit_if :: "bool \<Rightarrow> (string \<times> json) list \<Rightarrow> (string \<times> json) list" where
  "omit_if b kvs = (if b then [] else kvs)"

section \<open>Marshal and Unmarshal\<close>

text \<open>\<^verbatim>\<open>json.Marshal\<close> cannot fail for the types of the program: strings, booleans, structs,
  slices and string maps.\<close>

definition Marshal :: "('a \<Rightarrow> json) \<Rightarrow> 'a \<Rightarrow> string" where
  "Marshal enc x = print_json (enc x)"

text \<open>\<^verbatim>\<open>(*json.Encoder).Encode\<close> appends a newline.\<close>

definition Encode :: "('a \<Rightarrow> json) \<Rightarrow> 'a \<Rightarrow> string" where
  "Encode enc x = print_json (enc x) @ [CHR 0x0A]"

text \<open>\<^verbatim>\<open>json.Unmarshal\<close>: a syntax error anywhere, or a value of the wrong type; \<open>None\<close> in both
  cases, since every caller drops the value and keeps the error.\<close>

definition Unmarshal :: "'a decoder \<Rightarrow> 'a \<Rightarrow> string \<Rightarrow> 'a option" where
  "Unmarshal dec zero s = (case parse_json s of None \<Rightarrow> None | Some v \<Rightarrow> dec v zero)"

section \<open>The contract of a codec\<close>

text \<open>\<open>norm\<close> is what a round trip may change: the order of map entries.\<close>

locale json_codec =
  fixes enc :: "'a \<Rightarrow> json" and dec :: "'a decoder" and zero :: 'a
    and wf :: "'a \<Rightarrow> bool" and norm :: "'a \<Rightarrow> 'a"
  assumes dec_enc: "wf x \<Longrightarrow> dec (enc x) zero = Some (norm x)"
    and wf_enc: "wf x \<Longrightarrow> wf_json (enc x)"
begin

lemma Unmarshal_Marshal: "wf x \<Longrightarrow> Unmarshal dec zero (Marshal enc x) = Some (norm x)"
  by (simp add: Unmarshal_def Marshal_def parse_print_json wf_enc dec_enc)

lemma Unmarshal_Encode: "wf x \<Longrightarrow> Unmarshal dec zero (Encode enc x) = Some (norm x)"
  by (simp add: Unmarshal_def Encode_def parse_print_json_newline wf_enc dec_enc)

lemma decode_elems_map:
  "list_all wf xs \<Longrightarrow> decode_elems dec zero (map enc xs) [] = Some (map norm xs)"
  by (induction xs) (simp_all add: dec_enc)

lemma slice_dec_enc:
  "pred_option (list_all wf) xs \<Longrightarrow>
   decode_slice dec zero (encode_slice enc xs) None = Some (map_option (map norm) xs)"
  by (cases xs) (simp_all add: encode_slice_def decode_elems_map)

lemma slice_wf_enc: "pred_option (list_all wf) xs \<Longrightarrow> wf_json (encode_slice enc xs)"
  by (cases xs) (auto simp: encode_slice_def wf_enc list_all_iff)

end

section \<open>String maps\<close>

definition wf_string_map :: "string_map \<Rightarrow> bool" where
  "wf_string_map m \<longleftrightarrow>
     wf_map m \<and> list_all (\<lambda>(k, s). valid_utf8 k \<and> valid_utf8 s) (map_entries m)"

definition norm_map :: "string_map \<Rightarrow> string_map" where
  "norm_map = map_option (sort_key fst)"

lemma decode_entries_strings:
  "distinct (map fst (m @ es)) \<Longrightarrow>
   decode_entries (map (\<lambda>(k, s). (k, JStr s)) es) m = Some (m @ es)"
proof (induction es arbitrary: m)
  case (Cons e es)
  obtain k s where e: "e = (k, s)" by (cases e)
  with Cons.prems have "k \<notin> fst ` set m" by auto
  then have "AList.update k s m = m @ [(k, s)]" by (induction m) auto
  with Cons.IH [of "m @ [(k, s)]"] Cons.prems e show ?case by simp
qed simp

lemma distinct_sort_fst: "distinct (map fst (sort_key fst es)) = distinct (map fst es)"
  by (rule mset_eq_imp_distinct_iff) simp

lemma norm_map_facts:
  "wf_map m \<Longrightarrow> wf_map (norm_map m)"
  "set (map_entries (norm_map m)) = set (map_entries m)"
  by (cases m; simp add: wf_map_def norm_map_def map_entries_def distinct_sort_fst)+

lemma map_get_norm [simp]:
  assumes "wf_map m"
  shows "map_get (norm_map m) k = map_get m k"
proof -
  have "map_of (map_entries (norm_map m)) = map_of (map_entries m)"
    using norm_map_facts [of m] assms by (intro map_of_inject_set [THEN iffD2]) (auto simp: wf_map_def)
  then show ?thesis by (simp add: map_get_def)
qed

interpretation string_map_codec:
  json_codec encode_map decode_map None wf_string_map norm_map
proof
  fix m assume m: "wf_string_map m"
  show "decode_map (encode_map m) None = Some (norm_map m)"
  proof (cases m)
    case (Some es)
    with m have "distinct (map fst (sort_key fst es))"
      by (simp add: wf_string_map_def wf_map_def map_entries_def distinct_sort_fst)
    with Some show ?thesis
      using decode_entries_strings [of "[]" "sort_key fst es"]
      by (simp add: encode_map_def norm_map_def map_entries_def)
  qed (simp add: encode_map_def norm_map_def)
  show "wf_json (encode_map m)"
    using m by (cases m) (auto simp: encode_map_def wf_string_map_def map_entries_def list_all_iff)
qed

end
