(* ===== verification/Models.thy ===== *)
theory Models
  imports JsonCodec
begin

text \<open>
  The data of \<^verbatim>\<open>builder/models.go\<close> and of the messages exchanged with the cloud controller,
  with their JSON forms as the struct tags give them, and the proof that each form is read
  back as it was written.
\<close>

section \<open>Buildpacks\<close>

record Buildpack =
  bp_Name :: string
  bp_Key :: string
  bp_URL :: string
  bp_SkipDetect :: bool

definition zero_Buildpack :: Buildpack where
  "zero_Buildpack = \<lparr>bp_Name = '''', bp_Key = '''', bp_URL = '''', bp_SkipDetect = False\<rparr>"

definition Buildpack_fields :: "Buildpack fields" where
  "Buildpack_fields =
     [(''name'', field decode_string bp_Name bp_Name_update),
      (''key'', field decode_string bp_Key bp_Key_update),
      (''url'', field decode_string bp_URL bp_URL_update),
      (''skip_detect'', field decode_bool bp_SkipDetect bp_SkipDetect_update)]"

definition encode_Buildpack :: "Buildpack \<Rightarrow> json" where
  "encode_Buildpack b = JObj
     ([(''name'', JStr (bp_Name b)), (''key'', JStr (bp_Key b)), (''url'', JStr (bp_URL b))] @
      omit_if (\<not> bp_SkipDetect b) [(''skip_detect'', JBool (bp_SkipDetect b))])"

definition decode_Buildpacks :: "Buildpack list option decoder" where
  "decode_Buildpacks = decode_slice (decode_struct Buildpack_fields) zero_Buildpack"

definition wf_Buildpack :: "Buildpack \<Rightarrow> bool" where
  "wf_Buildpack b \<longleftrightarrow> valid_utf8 (bp_Name b) \<and> valid_utf8 (bp_Key b) \<and> valid_utf8 (bp_URL b)"

text \<open>\<^verbatim>\<open>cc_messages.Buildpack\<close>, the form in which the cloud controller lists the provided
  buildpacks.\<close>

record CCBuildpack =
  cc_Name :: string
  cc_Key :: string
  cc_Url :: string
  cc_SkipDetect :: bool

definition zero_CCBuildpack :: CCBuildpack where
  "zero_CCBuildpack = \<lparr>cc_Name = '''', cc_Key = '''', cc_Url = '''', cc_SkipDetect = False\<rparr>"

definition CCBuildpack_fields :: "CCBuildpack fields" where
  "CCBuildpack_fields =
     [(''name'', field decode_string cc_Name cc_Name_update),
      (''key'', field decode_string cc_Key cc_Key_update),
      (''url'', field decode_string cc_Url cc_Url_update),
      (''skip_detect'', field decode_bool cc_SkipDetect cc_SkipDetect_update)]"

definition decode_CCBuildpacks :: "CCBuildpack list option decoder" where
  "decode_CCBuildpacks = decode_slice (decode_struct CCBuildpack_fields) zero_CCBuildpack"

section \<open>The staging result\<close>

type_synonym ProcessTypes = string_map

record Release =
  DefaultProcessTypes :: ProcessTypes

record StagingInfo =
  si_DetectedBuildpack :: string
  si_StartCommand :: string

record BuildpackMetadata =
  bm_Key :: string
  bm_Name :: string
  bm_Version :: string

record LifecycleMetadata =
  lm_BuildpackKey :: string
  lm_DetectedBuildpack :: string
  lm_Buildpacks :: "BuildpackMetadata list option"

record StagingResult =
  sr_LifecycleMetadata :: LifecycleMetadata
  sr_ProcessTypes :: ProcessTypes
  sr_ExecutionMetadata :: string
  sr_LifecycleType :: string

definition NewStagingResult :: "ProcessTypes \<Rightarrow> LifecycleMetadata \<Rightarrow> StagingResult" where
  "NewStagingResult procTypes lifeMeta =
     \<lparr>sr_LifecycleMetadata = lifeMeta, sr_ProcessTypes = procTypes,
      sr_ExecutionMetadata = '''', sr_LifecycleType = ''buildpack''\<rparr>"

definition encode_StagingInfo :: "StagingInfo \<Rightarrow> json" where
  "encode_StagingInfo i = JObj
     [(''detected_buildpack'', JStr (si_DetectedBuildpack i)),
      (''start_command'', JStr (si_StartCommand i))]"

definition encode_BuildpackMetadata :: "BuildpackMetadata \<Rightarrow> json" where
  "encode_BuildpackMetadata b = JObj
     ([(''key'', JStr (bm_Key b)), (''name'', JStr (bm_Name b))] @
      omit_if (bm_Version b = '''') [(''version'', JStr (bm_Version b))])"

definition encode_LifecycleMetadata :: "LifecycleMetadata \<Rightarrow> json" where
  "encode_LifecycleMetadata m = JObj
     (omit_if (lm_BuildpackKey m = '''') [(''buildpack_key'', JStr (lm_BuildpackKey m))] @
      [(''detected_buildpack'', JStr (lm_DetectedBuildpack m)),
       (''buildpacks'', encode_slice encode_BuildpackMetadata (lm_Buildpacks m))])"

definition encode_StagingResult :: "StagingResult \<Rightarrow> json" where
  "encode_StagingResult r = JObj
     [(''lifecycle_metadata'', encode_LifecycleMetadata (sr_LifecycleMetadata r)),
      (''process_types'', encode_map (sr_ProcessTypes r)),
      (''execution_metadata'', JStr (sr_ExecutionMetadata r)),
      (''lifecycle_type'', JStr (sr_LifecycleType r))]"

definition zero_BuildpackMetadata :: BuildpackMetadata where
  "zero_BuildpackMetadata = \<lparr>bm_Key = '''', bm_Name = '''', bm_Version = ''''\<rparr>"

definition zero_LifecycleMetadata :: LifecycleMetadata where
  "zero_LifecycleMetadata =
     \<lparr>lm_BuildpackKey = '''', lm_DetectedBuildpack = '''', lm_Buildpacks = None\<rparr>"

definition zero_StagingResult :: StagingResult where
  "zero_StagingResult =
     \<lparr>sr_LifecycleMetadata = zero_LifecycleMetadata, sr_ProcessTypes = None,
      sr_ExecutionMetadata = '''', sr_LifecycleType = ''''\<rparr>"

definition BuildpackMetadata_fields :: "BuildpackMetadata fields" where
  "BuildpackMetadata_fields =
     [(''key'', field decode_string bm_Key bm_Key_update),
      (''name'', field decode_string bm_Name bm_Name_update),
      (''version'', field decode_string bm_Version bm_Version_update)]"

definition LifecycleMetadata_fields :: "LifecycleMetadata fields" where
  "LifecycleMetadata_fields =
     [(''buildpack_key'', field decode_string lm_BuildpackKey lm_BuildpackKey_update),
      (''detected_buildpack'', field decode_string lm_DetectedBuildpack lm_DetectedBuildpack_update),
      (''buildpacks'',
        field (decode_slice (decode_struct BuildpackMetadata_fields) zero_BuildpackMetadata)
          lm_Buildpacks lm_Buildpacks_update)]"

definition StagingResult_fields :: "StagingResult fields" where
  "StagingResult_fields =
     [(''lifecycle_metadata'',
        field (decode_struct LifecycleMetadata_fields) sr_LifecycleMetadata sr_LifecycleMetadata_update),
      (''process_types'', field decode_map sr_ProcessTypes sr_ProcessTypes_update),
      (''execution_metadata'', field decode_string sr_ExecutionMetadata sr_ExecutionMetadata_update),
      (''lifecycle_type'', field decode_string sr_LifecycleType sr_LifecycleType_update)]"

section \<open>Callback messages\<close>

text \<open>\<^verbatim>\<open>cc_messages.StagingTaskAnnotation\<close> and \<^verbatim>\<open>models.TaskCallbackResponse\<close>; the program never
  sets the creation time, which is written as the number 0.\<close>

record StagingTaskAnnotation =
  an_Lifecycle :: string
  an_CompletionCallback :: string

definition encode_StagingTaskAnnotation :: "StagingTaskAnnotation \<Rightarrow> json" where
  "encode_StagingTaskAnnotation a = JObj
     [(''lifecycle'', JStr (an_Lifecycle a)),
      (''completion_callback'', JStr (an_CompletionCallback a))]"

record TaskCallbackResponse =
  TaskGuid :: string
  Failed :: bool
  FailureReason :: string
  tc_Result :: string
  Annotation :: string

definition encode_TaskCallbackResponse :: "TaskCallbackResponse \<Rightarrow> json" where
  "encode_TaskCallbackResponse r = JObj
     ([(''task_guid'', JStr (TaskGuid r)),
       (''failed'', JBool (Failed r)),
       (''failure_reason'', JStr (FailureReason r)),
       (''result'', JStr (tc_Result r))] @
      omit_if (Annotation r = '''') [(''annotation'', JStr (Annotation r))] @
      [(''created_at'', JNum ''0'')])"

section \<open>Codecs\<close>

lemmas decode_struct_simps = find_field_def field_def omit_if_def

lemma omit_if_simps [simp]: "omit_if True kvs = []" "omit_if False kvs = kvs"
  by (simp_all add: omit_if_def)


interpretation Buildpack_codec:
  json_codec encode_Buildpack "decode_struct Buildpack_fields" zero_Buildpack wf_Buildpack id
proof
  fix b assume b: "wf_Buildpack b"
  show "decode_struct Buildpack_fields (encode_Buildpack b) zero_Buildpack = Some (id b)"
    by (cases "bp_SkipDetect b")
      (simp_all add: encode_Buildpack_def Buildpack_fields_def find_field_def field_def zero_Buildpack_def)
  show "wf_json (encode_Buildpack b)"
    using b by (cases "bp_SkipDetect b")
      (simp_all add: encode_Buildpack_def wf_Buildpack_def)
qed

definition wf_BuildpackMetadata :: "BuildpackMetadata \<Rightarrow> bool" where
  "wf_BuildpackMetadata b \<longleftrightarrow>
     valid_utf8 (bm_Key b) \<and> valid_utf8 (bm_Name b) \<and> valid_utf8 (bm_Version b)"

interpretation BuildpackMetadata_codec:
  json_codec encode_BuildpackMetadata "decode_struct BuildpackMetadata_fields"
    zero_BuildpackMetadata wf_BuildpackMetadata id
proof
  fix b assume b: "wf_BuildpackMetadata b"
  show "decode_struct BuildpackMetadata_fields (encode_BuildpackMetadata b) zero_BuildpackMetadata = Some (id b)"
    by (cases "bm_Version b = ''''")
      (simp_all add: encode_BuildpackMetadata_def BuildpackMetadata_fields_def find_field_def
        field_def zero_BuildpackMetadata_def)
  show "wf_json (encode_BuildpackMetadata b)"
    using b by (cases "bm_Version b = ''''")
      (simp_all add: encode_BuildpackMetadata_def wf_BuildpackMetadata_def)
qed

definition wf_LifecycleMetadata :: "LifecycleMetadata \<Rightarrow> bool" where
  "wf_LifecycleMetadata m \<longleftrightarrow>
     valid_utf8 (lm_BuildpackKey m) \<and> valid_utf8 (lm_DetectedBuildpack m) \<and>
     pred_option (list_all wf_BuildpackMetadata) (lm_Buildpacks m)"

interpretation LifecycleMetadata_codec:
  json_codec encode_LifecycleMetadata "decode_struct LifecycleMetadata_fields"
    zero_LifecycleMetadata wf_LifecycleMetadata id
proof
  fix m assume m: "wf_LifecycleMetadata m"
  note slice = BuildpackMetadata_codec.slice_dec_enc [of "lm_Buildpacks m", unfolded list.map_id0 option.map_id]
    BuildpackMetadata_codec.slice_wf_enc [of "lm_Buildpacks m"]
  show "decode_struct LifecycleMetadata_fields (encode_LifecycleMetadata m) zero_LifecycleMetadata = Some (id m)"
    using m slice by (cases "lm_BuildpackKey m = ''''")
      (simp_all add: encode_LifecycleMetadata_def LifecycleMetadata_fields_def find_field_def
        field_def zero_LifecycleMetadata_def wf_LifecycleMetadata_def)
  show "wf_json (encode_LifecycleMetadata m)"
    using m slice by (cases "lm_BuildpackKey m = ''''")
      (simp_all add: encode_LifecycleMetadata_def wf_LifecycleMetadata_def)
qed

definition wf_StagingResult :: "StagingResult \<Rightarrow> bool" where
  "wf_StagingResult r \<longleftrightarrow>
     wf_LifecycleMetadata (sr_LifecycleMetadata r) \<and> wf_string_map (sr_ProcessTypes r) \<and>
     valid_utf8 (sr_ExecutionMetadata r) \<and> valid_utf8 (sr_LifecycleType r)"

definition norm_StagingResult :: "StagingResult \<Rightarrow> StagingResult" where
  "norm_StagingResult r = r\<lparr>sr_ProcessTypes := norm_map (sr_ProcessTypes r)\<rparr>"

interpretation StagingResult_codec:
  json_codec encode_StagingResult "decode_struct StagingResult_fields" zero_StagingResult
    wf_StagingResult norm_StagingResult
proof
  fix r assume r: "wf_StagingResult r"
  note parts = LifecycleMetadata_codec.dec_enc [of "sr_LifecycleMetadata r"]
    LifecycleMetadata_codec.wf_enc [of "sr_LifecycleMetadata r"]
    string_map_codec.dec_enc [of "sr_ProcessTypes r"] string_map_codec.wf_enc [of "sr_ProcessTypes r"]
  show "decode_struct StagingResult_fields (encode_StagingResult r) zero_StagingResult =
      Some (norm_StagingResult r)"
    using r parts
    by (simp add: encode_StagingResult_def StagingResult_fields_def find_field_def field_def
        zero_StagingResult_def wf_StagingResult_def norm_StagingResult_def)
  show "wf_json (encode_StagingResult r)"
    using r parts by (simp add: encode_StagingResult_def wf_StagingResult_def)
qed

interpretation Buildpacks_codec:
  json_codec "encode_slice encode_Buildpack" decode_Buildpacks None
    "pred_option (list_all wf_Buildpack)" id
proof
  fix bs assume bs: "pred_option (list_all wf_Buildpack) bs"
  show "decode_Buildpacks (encode_slice encode_Buildpack bs) None = Some (id bs)"
    using Buildpack_codec.slice_dec_enc [OF bs, unfolded list.map_id0 option.map_id]
    by (simp add: decode_Buildpacks_def)
  show "wf_json (encode_slice encode_Buildpack bs)"
    by (rule Buildpack_codec.slice_wf_enc [OF bs])
qed

lemma wf_encode_TaskCallbackResponse:
  "valid_utf8 (TaskGuid r) \<Longrightarrow> valid_utf8 (FailureReason r) \<Longrightarrow> valid_utf8 (tc_Result r) \<Longrightarrow>
   valid_utf8 (Annotation r) \<Longrightarrow> wf_json (encode_TaskCallbackResponse r)"
  by (cases "Annotation r = ''''")
    (simp_all add: encode_TaskCallbackResponse_def num_start_def num_accepts_def)

end
