(* ===== verification/FilePath.thy ===== *)
theory FilePath
  imports Prelude
begin

text \<open>
  The lexical path functions of Go's \<^verbatim>\<open>path/filepath\<close> on Unix: \<^verbatim>\<open>Clean\<close>, \<^verbatim>\<open>Join\<close> and
  \<^verbatim>\<open>Dir\<close>. A path is parsed into a rooted flag and its cleaned components; the lemmas say
  what the functions do to that pair, so that no later proof looks at slashes.
\<close>

section \<open>Clean\<close>

definition rooted :: "string \<Rightarrow> bool" where
  "rooted p \<longleftrightarrow> (case p of [] \<Rightarrow> False | c # _ \<Rightarrow> c = CHR ''/'')"

text \<open>
  One component at a time, on the stack of components written so far (innermost first):
  empty and \<^verbatim>\<open>.\<close> elements disappear, \<^verbatim>\<open>..\<close> drops the element before it, stays in front of
  a relative path, and is eliminated at the root.
\<close>

fun clean_step :: "bool \<Rightarrow> string \<Rightarrow> string list \<Rightarrow> string list" where
  "clean_step r c stk =
     (if c = '''' \<or> c = ''.'' then stk
      else if c = ''..'' then
        (case stk of
           [] \<Rightarrow> (if r then [] else [''..''])
         | x # xs \<Rightarrow> (if x = ''..'' then ''..'' # stk else xs))
      else c # stk)"

declare clean_step.simps [simp del]

definition clean_comps :: "bool \<Rightarrow> string list \<Rightarrow> string list \<Rightarrow> string list" where
  "clean_comps r base cs = rev (fold (clean_step r) cs (rev base))"

definition path_comps :: "string \<Rightarrow> string list" where
  "path_comps p = clean_comps (rooted p) [] (split_on (CHR ''/'') p)"

definition render_path :: "bool \<Rightarrow> string list \<Rightarrow> string" where
  "render_path r cs =
     (if r then CHR ''/'' # join_with (CHR ''/'') cs
      else if cs = [] then ''.'' else join_with (CHR ''/'') cs)"

definition Clean :: "string \<Rightarrow> string" where
  "Clean p = (if p = '''' then ''.'' else render_path (rooted p) (path_comps p))"

section \<open>Join and Dir\<close>

text \<open>Leading empty elements are skipped; if nothing is left the result is empty.\<close>

definition Join :: "string list \<Rightarrow> string" where
  "Join elems =
     (case dropWhile (\<lambda>e. e = '''') elems of
        [] \<Rightarrow> ''''
      | es \<Rightarrow> Clean (join_with (CHR ''/'') es))"

text \<open>Everything up to and including the last slash, cleaned.\<close>

definition Dir :: "string \<Rightarrow> string" where
  "Dir p = Clean (rev (dropWhile (\<lambda>c. c \<noteq> CHR ''/'') (rev p)))"

section \<open>Cleaned component lists\<close>

text \<open>A plain component is an ordinary file name.\<close>

definition plain :: "string \<Rightarrow> bool" where
  "plain c \<longleftrightarrow> c \<noteq> '''' \<and> c \<noteq> ''.'' \<and> c \<noteq> ''..'' \<and> CHR ''/'' \<notin> set c"

text \<open>A cleaned list holds plain components after at most a run of leading \<^verbatim>\<open>..\<close>
  elements, and no such run at the root.\<close>

definition normal :: "bool \<Rightarrow> string list \<Rightarrow> bool" where
  "normal r cs \<longleftrightarrow>
     (\<exists>n ds. cs = replicate n ''..'' @ ds \<and> list_all plain ds \<and> (r \<longrightarrow> n = 0))"

lemma plainI [intro]: "c \<noteq> '''' \<Longrightarrow> c \<noteq> ''.'' \<Longrightarrow> c \<noteq> ''..'' \<Longrightarrow> CHR ''/'' \<notin> set c \<Longrightarrow> plain c"
  by (simp add: plain_def)

lemma not_plain_dotdot [simp]: "\<not> plain ''..''" and not_plain_dot [simp]: "\<not> plain ''.''"
  and not_plain_nil [simp]: "\<not> plain ''''"
  by (simp_all add: plain_def)

lemma clean_step_plain [simp]: "plain c \<Longrightarrow> clean_step r c stk = c # stk"
  by (simp add: plain_def clean_step.simps)

lemma clean_step_skip [simp]: "clean_step r '''' stk = stk" "clean_step r ''.'' stk = stk"
  by (simp_all add: clean_step.simps)

lemma clean_comps_Nil [simp]: "clean_comps r base [] = base"
  by (simp add: clean_comps_def)

lemma clean_comps_append [path_simps]:
  "clean_comps r base (cs @ ds) = clean_comps r (clean_comps r base cs) ds"
  by (simp add: clean_comps_def)

lemma clean_comps_Cons:
  "clean_comps r base (c # cs) = clean_comps r (rev (clean_step r c (rev base))) cs"
  by (simp add: clean_comps_def)

lemma clean_comps_plain [path_simps]: "list_all plain cs \<Longrightarrow> clean_comps r base cs = base @ cs"
  by (induction cs arbitrary: base) (auto simp: clean_comps_Cons)

lemma clean_comps_skip [simp]: "clean_comps r base ('''' # cs) = clean_comps r base cs"
  by (simp add: clean_comps_Cons)

lemma normal_Nil [simp]: "normal r []"
  by (simp add: normal_def)

lemma normal_plain: "list_all plain cs \<Longrightarrow> normal r cs"
  by (auto simp: normal_def intro!: exI [of _ 0])

lemma normal_append_plain: "normal r base \<Longrightarrow> plain c \<Longrightarrow> normal r (base @ [c])"
proof -
  assume "normal r base" and c: "plain c"
  then obtain n ds where "base = replicate n ''..'' @ ds" "list_all plain ds" "r \<longrightarrow> n = 0"
    by (auto simp: normal_def)
  then have "base @ [c] = replicate n ''..'' @ (ds @ [c]) \<and> list_all plain (ds @ [c]) \<and> (r \<longrightarrow> n = 0)"
    using c by simp
  then show ?thesis unfolding normal_def by blast
qed

lemma normal_butlast: "normal r (base @ [x]) \<Longrightarrow> normal r base"
proof -
  assume "normal r (base @ [x])"
  then obtain n ds where *: "base @ [x] = replicate n ''..'' @ ds" "list_all plain ds" "r \<longrightarrow> n = 0"
    by (auto simp: normal_def)
  show ?thesis
  proof (cases ds rule: rev_cases)
    case Nil
    with * obtain m where "n = Suc m" by (cases n) auto
    with * Nil have "base = replicate m ''..''"
      by (metis append_Nil2 butlast_snoc replicate_append_same replicate_Suc)
    with * \<open>n = Suc m\<close> show ?thesis by (auto simp: normal_def intro!: exI [of _ m])
  next
    case (snoc es y)
    with * have "base = replicate n ''..'' @ es" by simp
    with * snoc show ?thesis by (auto simp: normal_def)
  qed
qed

lemma normal_dotdot: "normal False (base @ [''..'']) \<Longrightarrow> normal False (base @ [''..'', ''..''])"
proof -
  assume "normal False (base @ [''..''])"
  then obtain n ds where *: "base @ [''..''] = replicate n ''..'' @ ds" "list_all plain ds"
    by (auto simp: normal_def)
  then have "ds = []" by (cases ds rule: rev_cases) auto
  with * have "base @ [''..'', ''..''] = replicate (Suc n) ''..'' @ []"
    by (metis append.assoc append_Cons append_Nil append_Nil2 replicate_Suc replicate_append_same)
  then show ?thesis unfolding normal_def by (intro exI [of _ "Suc n"] exI [of _ "[]"]) simp
qed

lemma normal_clean_step:
  assumes "normal r (rev stk)" and "CHR ''/'' \<notin> set c"
  shows "normal r (rev (clean_step r c stk))"
proof (cases "c = ''..''")
  case True
  show ?thesis
  proof (cases stk)
    case Nil
    with True show ?thesis
      by (auto simp: clean_step.simps normal_def intro!: exI [of _ "Suc 0"])
  next
    case (Cons x xs)
    show ?thesis
    proof (cases "x = ''..''")
      case dots: True
      with assms(1) Cons have "\<not> r" by (auto simp: normal_def list_all_iff)
      with assms(1) Cons dots True show ?thesis
        using normal_dotdot [of "rev xs"] by (simp add: clean_step.simps)
    next
      case False
      with assms(1) Cons True show ?thesis
        using normal_butlast [of r "rev xs" x] by (simp add: clean_step.simps)
    qed
  qed
next
  case False
  show ?thesis
  proof (cases "c = '''' \<or> c = ''.''")
    case True
    with assms show ?thesis by auto
  next
    case no: False
    with False assms(2) have "plain c" by auto
    with assms(1) show ?thesis by (simp add: normal_append_plain)
  qed
qed

lemma normal_clean_comps:
  "normal r base \<Longrightarrow> (\<And>c. c \<in> set cs \<Longrightarrow> CHR ''/'' \<notin> set c) \<Longrightarrow> normal r (clean_comps r base cs)"
proof (induction cs arbitrary: base)
  case Nil
  then show ?case by simp
next
  case (Cons c cs)
  have "normal r (rev (clean_step r c (rev base)))"
    using normal_clean_step [of r "rev base" c] Cons.prems by simp
  with Cons show ?case by (simp add: clean_comps_Cons)
qed

lemma normal_path_comps [simp]: "normal (rooted p) (path_comps p)"
  by (auto simp: path_comps_def intro!: normal_clean_comps dest: split_on_no_sep)

lemma fold_dotdot:
  "fold (clean_step False) (replicate n ''..'') (replicate m ''..'') = replicate (n + m) ''..''"
proof (induction n arbitrary: m)
  case 0
  show ?case by simp
next
  case (Suc n)
  have "clean_step False ''..'' (replicate m ''..'') = replicate (Suc m) ''..''"
    by (cases m) (simp_all add: clean_step.simps)
  then show ?case using Suc [of "Suc m"] by simp
qed

lemma clean_comps_normal: "normal r cs \<Longrightarrow> clean_comps r [] cs = cs"
proof -
  assume "normal r cs"
  then obtain n ds where *: "cs = replicate n ''..'' @ ds" "list_all plain ds" "r \<longrightarrow> n = 0"
    by (auto simp: normal_def)
  have "clean_comps False [] (replicate n ''..'') = replicate n ''..''"
    using fold_dotdot [of n 0] by (simp add: clean_comps_def)
  with * show ?thesis
    by (cases r) (simp_all add: clean_comps_append clean_comps_plain)
qed

lemma normal_elem: "normal r cs \<Longrightarrow> c \<in> set cs \<Longrightarrow> c = ''..'' \<or> plain c"
proof -
  assume "normal r cs" and c: "c \<in> set cs"
  then obtain n ds where "cs = replicate n ''..'' @ ds" "list_all plain ds"
    by (auto simp: normal_def)
  with c have "c \<in> set (replicate n ''..'') \<or> c \<in> set ds" and "\<forall>d\<in>set ds. plain d"
    by (simp_all only: set_append Un_iff list_all_iff)
  moreover have "c \<in> set (replicate n ''..'') \<Longrightarrow> c = ''..''"
    by (simp only: in_set_replicate)
  ultimately show ?thesis by blast
qed

lemma normal_no_slash: "normal r cs \<Longrightarrow> c \<in> set cs \<Longrightarrow> CHR ''/'' \<notin> set c"
  using normal_elem [of r cs c] by (auto simp: plain_def)

lemma normal_no_empty: "normal r cs \<Longrightarrow> '''' \<notin> set cs"
  using normal_elem [of r cs "''''"] by (auto simp: plain_def)

lemma hd_join_with:
  assumes "cs \<noteq> []" and "'''' \<notin> set cs"
  shows "join_with d cs \<noteq> ''''" and "hd (join_with d cs) = hd (hd cs)"
proof -
  from assms obtain c cs' where "cs = c # cs'" "c \<noteq> ''''" by (cases cs) auto
  then show "join_with d cs \<noteq> ''''" and "hd (join_with d cs) = hd (hd cs)"
    by (cases cs'; cases c; simp)+
qed

lemma rooted_hd: "p \<noteq> '''' \<Longrightarrow> rooted p \<longleftrightarrow> hd p = CHR ''/''"
  by (cases p) (auto simp: rooted_def)

lemma rooted_rendered [simp]: "normal r cs \<Longrightarrow> rooted (render_path r cs) = r"
proof -
  assume n: "normal r cs"
  show ?thesis
  proof (cases "r \<or> cs = []")
    case True
    then show ?thesis by (auto simp: render_path_def rooted_def)
  next
    case False
    then have "hd cs \<in> set cs" by simp
    then have "hd cs \<noteq> ''''" and "CHR ''/'' \<notin> set (hd cs)"
      using normal_no_empty [OF n] normal_no_slash [OF n] by auto
    then have "hd (hd cs) \<noteq> CHR ''/''" by (cases "hd cs") auto
    with False hd_join_with [OF _ normal_no_empty [OF n]] show ?thesis
      by (simp add: render_path_def rooted_hd)
  qed
qed

lemma path_comps_slash: "path_comps (CHR ''/'' # p) = clean_comps True [] (split_on (CHR ''/'') p)"
  by (simp add: path_comps_def rooted_def)

lemma path_comps_rendered [simp]:
  assumes n: "normal r cs"
  shows "path_comps (render_path r cs) = cs"
proof (cases "cs = []")
  case True
  then show ?thesis
    by (simp add: path_comps_def render_path_def rooted_def clean_comps_Cons)
next
  case False
  then have s: "split_on (CHR ''/'') (join_with (CHR ''/'') cs) = cs"
    using normal_no_slash [OF n] by (intro split_join) auto
  show ?thesis
  proof (cases r)
    case True
    with n s show ?thesis by (simp add: render_path_def path_comps_slash clean_comps_normal)
  next
    case nr: False
    with n have "rooted (join_with (CHR ''/'') cs) = False"
      using rooted_rendered [OF n] False by (simp add: render_path_def)
    with n nr False s show ?thesis by (simp add: render_path_def path_comps_def clean_comps_normal)
  qed
qed

lemma Clean_render: "Clean p = render_path (rooted p) (path_comps p)"
  by (simp add: Clean_def) (simp add: path_comps_def rooted_def render_path_def)

lemma rooted_Clean [path_simps]: "rooted (Clean p) = rooted p"
  by (simp add: Clean_render)

lemma path_comps_Clean [path_simps]: "path_comps (Clean p) = path_comps p"
  by (simp add: Clean_render)

lemma Clean_idem [simp]: "Clean (Clean p) = Clean p"
  using Clean_render [of "Clean p"] by (simp only: rooted_Clean path_comps_Clean flip: Clean_render [of p])

lemma Clean_nonempty [simp]: "Clean p \<noteq> ''''"
  using hd_join_with(1) [OF _ normal_no_empty [OF normal_path_comps [of p]]]
  by (simp add: Clean_def render_path_def)

section \<open>How Join acts on components\<close>

lemma path_comps_join2:
  assumes "d \<noteq> ''''"
  shows "rooted (Join [d, x]) = rooted d"
    and "path_comps (Join [d, x]) = clean_comps (rooted d) (path_comps d) (split_on (CHR ''/'') x)"
proof -
  have r: "rooted (d @ CHR ''/'' # x) = rooted d"
    using assms by (cases d) (auto simp: rooted_def)
  have j: "Join [d, x] = Clean (d @ CHR ''/'' # x)"
    using assms by (simp add: Join_def)
  show "rooted (Join [d, x]) = rooted d"
    by (simp add: j r rooted_Clean)
  have "path_comps (Join [d, x]) = path_comps (d @ CHR ''/'' # x)"
    by (simp only: j path_comps_Clean)
  also have "\<dots> = clean_comps (rooted d) (path_comps d) (split_on (CHR ''/'') x)"
    by (simp add: path_comps_def r split_on_append clean_comps_append)
  finally show "path_comps (Join [d, x]) = clean_comps (rooted d) (path_comps d) (split_on (CHR ''/'') x)" .
qed

lemma plain_join:
  assumes "list_all plain cs" and "cs \<noteq> []"
  shows "rooted (join_with (CHR ''/'') cs) = False"
    and "path_comps (join_with (CHR ''/'') cs) = cs"
proof -
  have j: "join_with (CHR ''/'') cs = render_path False cs"
    using assms by (simp add: render_path_def)
  show "rooted (join_with (CHR ''/'') cs) = False"
    and "path_comps (join_with (CHR ''/'') cs) = cs"
    unfolding j using assms by (simp_all add: normal_plain)
qed

lemma Join_plain:
  assumes "list_all plain cs"
  shows rooted_Join_plain [path_simps]: "rooted (Join (d # cs)) = rooted d"
    and path_comps_Join_plain [path_simps]: "path_comps (Join (d # cs)) = path_comps d @ cs"
proof -
  have s: "split_on (CHR ''/'') (join_with (CHR ''/'') cs) = cs" if "cs \<noteq> []"
    using that assms by (intro split_join) (auto simp: list_all_iff plain_def)
  have "rooted (Join (d # cs)) = rooted d \<and> path_comps (Join (d # cs)) = path_comps d @ cs"
  proof (cases "d = ''''")
    case d: True
    have e: "dropWhile (\<lambda>e. e = '''') cs = cs"
      using assms by (cases cs) auto
    have "path_comps '''' = []" "rooted '''' = False"
      by (simp_all add: path_comps_def rooted_def)
    moreover have "Join (d # cs) = Clean (join_with (CHR ''/'') cs)" if "cs \<noteq> []"
      using d e that by (cases cs) (auto simp: Join_def)
    ultimately show ?thesis
      using d e assms by (cases "cs = []") (simp_all add: Join_def [of "[_]"] path_simps plain_join)
  next
    case d: False
    show ?thesis
    proof (cases "cs = []")
      case True
      with d show ?thesis by (simp add: Join_def path_simps)
    next
      case False
      with d have j: "Join (d # cs) = Join [d, join_with (CHR ''/'') cs]"
        by (simp add: Join_def join_with_Cons)
      with False d s assms show ?thesis
        by (simp add: path_comps_join2 clean_comps_plain)
    qed
  qed
  then show "rooted (Join (d # cs)) = rooted d" and "path_comps (Join (d # cs)) = path_comps d @ cs"
    by simp_all
qed

lemma Join_nonempty: "d \<noteq> '''' \<Longrightarrow> Join (d # cs) \<noteq> ''''"
  by (simp add: Join_def)

lemma Join_two_nonempty: "plain c \<Longrightarrow> Join [d, c] \<noteq> ''''"
  by (cases "d = ''''") (auto simp: Join_def)

end
