(* ===== verification/FileTree.thy ===== *)
theory FileTree
  imports FilePath GoErrors
begin

text \<open>
  The file system as a tree: a node is a file with its mode bits and content, or a folder
  with its mode bits and named entries. Paths are lists of components from the root. One
  update function carries every change; its lemmas say what a lookup finds at, below,
  above and beside the updated path.
\<close>

datatype node = File "32 word" string | Folder "32 word" "(string \<times> node) list"

fun is_folder :: "node \<Rightarrow> bool" where
  "is_folder (Folder m es) = True"
| "is_folder (File m s) = False"

text \<open>Path resolution with the kernel's errors: a missing entry, or a file where a
  folder is needed.\<close>

fun walk :: "node \<Rightarrow> string list \<Rightarrow> errno + node" where
  "walk n [] = Inr n"
| "walk (File m s) (x # xs) = Inl ENOTDIR"
| "walk (Folder m es) (x # xs) =
     (case map_of es x of None \<Rightarrow> Inl ENOENT | Some c \<Rightarrow> walk c xs)"

definition lookup :: "node \<Rightarrow> string list \<Rightarrow> node option" where
  "lookup n p = (case walk n p of Inl e \<Rightarrow> None | Inr c \<Rightarrow> Some c)"

text \<open>\<open>upd p f n\<close>: replace, add or remove the entry at \<open>p\<close>; nothing happens where the
  parent is not a folder. The root itself can be replaced and not removed.\<close>

fun upd :: "string list \<Rightarrow> (node option \<Rightarrow> node option) \<Rightarrow> node \<Rightarrow> node" where
  "upd [] f n = (case f (Some n) of None \<Rightarrow> n | Some n' \<Rightarrow> n')"
| "upd (x # xs) f (File m s) = File m s"
| "upd [x] f (Folder m es) =
     Folder m (case f (map_of es x) of
        None \<Rightarrow> AList.delete x es
      | Some v \<Rightarrow> AList.update x v es)"
| "upd (x # y # ys) f (Folder m es) =
     Folder m (case map_of es x of
        None \<Rightarrow> es
      | Some c \<Rightarrow> AList.update x (upd (y # ys) f c) es)"

definition put :: "string list \<Rightarrow> node \<Rightarrow> node \<Rightarrow> node" where
  "put p v n = upd p (\<lambda>_. Some v) n"

definition del :: "string list \<Rightarrow> node \<Rightarrow> node" where
  "del p n = upd p (\<lambda>_. None) n"

definition folder_at :: "node \<Rightarrow> string list \<Rightarrow> bool" where
  "folder_at n p = (case lookup n p of Some (Folder m es) \<Rightarrow> True | _ \<Rightarrow> False)"

definition file_at :: "node \<Rightarrow> string list \<Rightarrow> bool" where
  "file_at n p = (case lookup n p of Some (File m s) \<Rightarrow> True | _ \<Rightarrow> False)"

section \<open>Lookup\<close>

lemma folder_at_iff: "folder_at n p \<longleftrightarrow> (\<exists>m es. lookup n p = Some (Folder m es))"
  and file_at_iff: "file_at n p \<longleftrightarrow> (\<exists>m s. lookup n p = Some (File m s))"
  by (auto simp: folder_at_def file_at_def split: option.splits node.splits)

lemma lookup_Nil [simp]: "lookup n [] = Some n"
  by (simp add: lookup_def)

lemma lookup_File [simp]: "lookup (File m s) (x # xs) = None"
  by (simp add: lookup_def)

lemma lookup_Folder [simp]:
  "lookup (Folder m es) (x # xs) = (case map_of es x of None \<Rightarrow> None | Some c \<Rightarrow> lookup c xs)"
  by (auto simp: lookup_def split: option.splits)

lemma lookup_append:
  "lookup n (p @ q) = (case lookup n p of None \<Rightarrow> None | Some c \<Rightarrow> lookup c q)"
proof (induction p arbitrary: n)
  case Nil
  show ?case by simp
next
  case (Cons x p)
  then show ?case by (cases n) (auto split: option.splits)
qed

lemma walk_Inr: "walk n p = Inr c \<longleftrightarrow> lookup n p = Some c"
  by (auto simp: lookup_def split: sum.splits)

lemma walk_InlD: "walk n p = Inl e \<Longrightarrow> lookup n p = None"
  by (simp add: lookup_def)

lemma walk_snoc:
  "walk n (p @ [x]) =
     (case walk n p of
        Inl e \<Rightarrow> Inl e
      | Inr (File m s) \<Rightarrow> Inl ENOTDIR
      | Inr (Folder m es) \<Rightarrow> (case map_of es x of None \<Rightarrow> Inl ENOENT | Some c \<Rightarrow> Inr c))"
proof (induction p arbitrary: n)
  case Nil
  then show ?case by (cases n) (auto split: option.splits)
next
  case (Cons y p)
  then show ?case by (cases n) (auto split: option.splits)
qed

lemma lookup_above: "lookup n (p @ [x]) = Some c \<Longrightarrow> folder_at n p"
  unfolding folder_at_iff lookup_append
  by (cases "lookup n p"; cases "the (lookup n p)") auto

lemma folder_at_prefix: "lookup n (p @ q) = Some c \<Longrightarrow> q \<noteq> [] \<Longrightarrow> folder_at n p"
proof (induction q arbitrary: c rule: rev_induct)
  case (snoc x q)
  from snoc.prems(1) have f: "folder_at n (p @ q)"
    using lookup_above [of n "p @ q" x] by simp
  show ?case
  proof (cases "q = []")
    case True
    with f show ?thesis by simp
  next
    case False
    with f snoc.IH show ?thesis by (auto simp: folder_at_iff)
  qed
qed simp

section \<open>Updates\<close>

lemma lookup_upd_same:
  "folder_at n p \<Longrightarrow> lookup (upd (p @ [x]) f n) (p @ [x]) = f (lookup n (p @ [x]))"
proof (induction p arbitrary: n)
  case Nil
  then obtain m es where "n = Folder m es" by (auto simp: folder_at_iff)
  then show ?case
    by (auto simp: update_conv' delete_conv' split: option.splits)
next
  case (Cons y p)
  from Cons.prems obtain m es c where n: "n = Folder m es" and c: "map_of es y = Some c"
    and f: "folder_at c p"
    by (cases n) (auto simp: folder_at_iff split: option.splits)
  obtain z zs where z: "p @ [x] = z # zs" by (cases p) auto
  with Cons.IH [OF f] n c show ?case by (simp add: update_conv')
qed

lemma lookup_upd_below:
  assumes "folder_at n p"
  shows "lookup (upd (p @ [x]) f n) (p @ x # q) =
    (case f (lookup n (p @ [x])) of None \<Rightarrow> None | Some v \<Rightarrow> lookup v q)"
  using lookup_upd_same [OF assms, of x f] lookup_append [of "upd (p @ [x]) f n" "p @ [x]" q]
  by simp

lemma lookup_upd_parallel:
  "p \<parallel> q \<Longrightarrow> lookup (upd p f n) q = lookup n q"
proof (induction p arbitrary: q n)
  case Nil
  then show ?case by (simp add: parallel_def)
next
  case (Cons x p)
  from Cons.prems obtain y ys where q: "q = y # ys" by (cases q) (auto simp: parallel_def)
  show ?case
  proof (cases n)
    case (File m s)
    then show ?thesis by simp
  next
    case (Folder m es)
    show ?thesis
    proof (cases "x = y")
      case True
      with Cons.prems q have pq: "p \<parallel> ys" by (auto simp: parallel_def)
      then obtain z zs where p: "p = z # zs" by (cases p) (auto simp: parallel_def)
      show ?thesis
        using Cons.IH [OF pq] True
        by (auto simp: Folder q p update_conv' split: option.splits)
    next
      case False
      then show ?thesis
        by (cases p) (auto simp: Folder q update_conv' delete_conv' split: option.splits)
    qed
  qed
qed

lemma lookup_upd_above:
  assumes "strict_prefix q p"
  shows "(\<exists>s m. lookup (upd p f n) q = Some (File m s) \<and> lookup n q = Some (File m s)) \<or>
         (\<exists>m es es'. lookup (upd p f n) q = Some (Folder m es') \<and> lookup n q = Some (Folder m es)) \<or>
         lookup (upd p f n) q = None \<and> lookup n q = None"
  using assms
proof (induction p arbitrary: q n)
  case Nil
  then show ?case by simp
next
  case (Cons x p)
  show ?case
  proof (cases q)
    case Nil
    then show ?thesis by (cases n; cases p) (auto split: option.splits)
  next
    case (Cons y ys)
    with Cons.prems have y: "y = x" and s: "strict_prefix ys p" by auto
    then obtain z zs where p: "p = z # zs" by (cases p) auto
    show ?thesis
      using Cons.IH [OF s] Cons y
      by (cases n) (auto simp: p update_conv' split: option.splits)
  qed
qed

lemma folder_at_upd_above:
  "strict_prefix q p \<Longrightarrow> folder_at (upd p f n) q = folder_at n q"
  using lookup_upd_above [of q p f n] by (auto simp: folder_at_iff)

lemma file_at_upd_above:
  "strict_prefix q p \<Longrightarrow> file_at (upd p f n) q = file_at n q"
  using lookup_upd_above [of q p f n] by (auto simp: file_at_iff)

lemma folder_at_Nil: "folder_at n [] \<longleftrightarrow> is_folder n"
  by (cases n) (auto simp: folder_at_iff)

section \<open>Changes outside a subtree\<close>

text \<open>\<open>same_outside ds t t'\<close>: the two trees agree on every path that is not at, below or
  above one of the paths of \<open>ds\<close>.\<close>

definition same_outside :: "string list list \<Rightarrow> node \<Rightarrow> node \<Rightarrow> bool" where
  "same_outside ds t t' \<longleftrightarrow> (\<forall>q. (\<forall>d\<in>set ds. d \<parallel> q) \<longrightarrow> lookup t' q = lookup t q)"

lemma same_outside_refl [simp]: "same_outside ds t t"
  by (simp add: same_outside_def)

lemma same_outside_trans: "same_outside ds t1 t2 \<Longrightarrow> same_outside ds t2 t3 \<Longrightarrow> same_outside ds t1 t3"
  by (simp add: same_outside_def)

lemma parallel_extend: "d \<parallel> q \<Longrightarrow> prefix d p \<Longrightarrow> p \<parallel> q"
  by (meson parallel_def prefix_order.trans prefix_same_cases)

lemma same_outside_upd: "d \<in> set ds \<Longrightarrow> prefix d p \<Longrightarrow> same_outside ds t (upd p f t)"
  unfolding same_outside_def
  by (auto intro!: lookup_upd_parallel [symmetric] lookup_upd_parallel dest: parallel_extend)

end
