(* ===== verification/GoMonad.thy ===== *)
theory GoMonad
  imports GoErrors "HOL-Library.State_Monad"
begin

text \<open>
  Go functions as state transformers. A call ends with a value and a nil error (\<open>Ok\<close>),
  with an error (\<open>Err\<close>), with a panic, or never returns because the process exits. The
  combinators below are the ways the program sequences calls: the \<^verbatim>\<open>if err != nil\<close> after a
  call, \<^verbatim>\<open>defer\<close>, and the \<^verbatim>\<open>for\<close> loops that return at the first error.
\<close>

section \<open>Outcomes\<close>

datatype 'a result = Ok 'a | Err go_error | Panic string | Exit int

type_synonym ('w, 'a) go = "('w, 'a result) state"

fun is_Ok :: "'a result \<Rightarrow> bool" where
  "is_Ok (Ok x) = True"
| "is_Ok _ = False"

fun is_Panic :: "'a result \<Rightarrow> bool" where
  "is_Panic (Panic s) = True"
| "is_Panic _ = False"

definition ok :: "'a \<Rightarrow> ('w, 'a) go" where
  "ok x = State_Monad.return (Ok x)"

definition fail :: "go_error \<Rightarrow> ('w, 'a) go" where
  "fail e = State_Monad.return (Err e)"

definition go_panic :: "string \<Rightarrow> ('w, 'a) go" where
  "go_panic s = State_Monad.return (Panic s)"

definition go_exit :: "int \<Rightarrow> ('w, 'a) go" where
  "go_exit n = State_Monad.return (Exit n)"

section \<open>Sequencing\<close>

text \<open>\<open>on_err m h k\<close>: run \<open>m\<close>; with \<^verbatim>\<open>err != nil\<close> go on with \<open>h err\<close>, otherwise with \<open>k x\<close>.\<close>

definition on_err :: "('w, 'a) go \<Rightarrow> (go_error \<Rightarrow> ('w, 'b) go) \<Rightarrow> ('a \<Rightarrow> ('w, 'b) go) \<Rightarrow> ('w, 'b) go" where
  "on_err m h k = do {
     r \<leftarrow> m;
     case r of
       Ok x \<Rightarrow> k x
     | Err e \<Rightarrow> h e
     | Panic s \<Rightarrow> go_panic s
     | Exit n \<Rightarrow> go_exit n }"

text \<open>\<open>attempt m f k\<close>: \<^verbatim>\<open>if err != nil { return f(err) }\<close>, then \<open>k\<close>.\<close>

definition attempt :: "('w, 'a) go \<Rightarrow> (go_error \<Rightarrow> go_error) \<Rightarrow> ('a \<Rightarrow> ('w, 'b) go) \<Rightarrow> ('w, 'b) go" where
  "attempt m f k = on_err m (\<lambda>e. fail (f e)) k"

text \<open>\<open>effect\<close> turns an operation that cannot fail into a statement.\<close>

definition effect :: "('w, 'a) state \<Rightarrow> ('w, 'a) go" where
  "effect m = do { x \<leftarrow> m; ok x }"

text \<open>\<^verbatim>\<open>for _, x := range xs { if err := f(x); err != nil { return err } }\<close>\<close>

fun for_each :: "('a \<Rightarrow> ('w, unit) go) \<Rightarrow> 'a list \<Rightarrow> ('w, unit) go" where
  "for_each f [] = ok ()"
| "for_each f (x # xs) = attempt (f x) id (\<lambda>_. for_each f xs)"

text \<open>\<^verbatim>\<open>for i, x := range xs { ys[i] = f(x) }\<close>, for an \<open>f\<close> that may also stop the function.\<close>

fun map_each :: "('a \<Rightarrow> ('w, 'b) go) \<Rightarrow> 'a list \<Rightarrow> ('w, 'b list) go" where
  "map_each f [] = ok []"
| "map_each f (x # xs) = attempt (f x) id (\<lambda>y. attempt (map_each f xs) id (\<lambda>ys. ok (y # ys)))"

text \<open>Reading and assigning the fields of a receiver.\<close>

definition get :: "('w \<Rightarrow> 'a) \<Rightarrow> ('w, 'a) state" where
  "get f = State (\<lambda>w. (f w, w))"

definition assign :: "('w \<Rightarrow> 'w) \<Rightarrow> ('w, unit) state" where
  "assign f = State (\<lambda>w. ((), f w))"

text \<open>
  \<open>deferred fin m\<close>: the body \<open>m\<close> of a function that has registered \<^verbatim>\<open>defer fin()\<close>. The
  deferred call runs when the body returns or panics, and not when the process exits.
\<close>

definition deferred :: "('w, unit) state \<Rightarrow> ('w, 'a) go \<Rightarrow> ('w, 'a) go" where
  "deferred fin m = do {
     r \<leftarrow> m;
     case r of
       Exit n \<Rightarrow> go_exit n
     | _ \<Rightarrow> do { _ \<leftarrow> fin; State_Monad.return r } }"

text \<open>\<^verbatim>\<open>defer os.RemoveAll(d)\<close> and the like: a call whose error is dropped.\<close>

definition ignoring :: "('w, 'a) go \<Rightarrow> ('w, unit) state" where
  "ignoring m = do { _ \<leftarrow> m; State_Monad.return () }"

section \<open>Evaluation\<close>

lemma run_ok [simp]: "run_state (ok x) w = (Ok x, w)"
  by (simp add: ok_def)

lemma run_fail [simp]: "run_state (fail e) w = (Err e, w)"
  by (simp add: fail_def)

lemma run_go_panic [simp]: "run_state (go_panic s) w = (Panic s, w)"
  by (simp add: go_panic_def)

lemma run_go_exit [simp]: "run_state (go_exit n) w = (Exit n, w)"
  by (simp add: go_exit_def)

lemma run_on_err [simp]:
  "run_state (on_err m h k) w =
     (case run_state m w of (r, w') \<Rightarrow>
        (case r of
           Ok x \<Rightarrow> run_state (k x) w'
         | Err e \<Rightarrow> run_state (h e) w'
         | Panic s \<Rightarrow> (Panic s, w')
         | Exit n \<Rightarrow> (Exit n, w')))"
  by (simp add: on_err_def split: prod.split result.split)

lemma run_attempt [simp]:
  "run_state (attempt m f k) w =
     (case run_state m w of (r, w') \<Rightarrow>
        (case r of
           Ok x \<Rightarrow> run_state (k x) w'
         | Err e \<Rightarrow> (Err (f e), w')
         | Panic s \<Rightarrow> (Panic s, w')
         | Exit n \<Rightarrow> (Exit n, w')))"
  by (simp add: attempt_def split: prod.split result.split)

lemma run_effect [simp]:
  "run_state (effect m) w = (case run_state m w of (x, w') \<Rightarrow> (Ok x, w'))"
  by (simp add: effect_def split: prod.split)

lemma run_ignoring [simp]:
  "run_state (ignoring m) w = ((), snd (run_state m w))"
  by (simp add: ignoring_def split: prod.split)

lemma run_get [simp]: "run_state (get f) w = (f w, w)"
  by (simp add: get_def)

lemma run_assign [simp]: "run_state (assign f) w = ((), f w)"
  by (simp add: assign_def)

lemma run_deferred [simp]:
  "run_state (deferred fin m) w =
     (case run_state m w of (r, w') \<Rightarrow>
        (case r of Exit n \<Rightarrow> (Exit n, w') | _ \<Rightarrow> (r, snd (run_state fin w'))))"
  by (simp add: deferred_def split: prod.split result.split)

lemma run_fst: "fst r = x \<Longrightarrow> (\<And>w'. r = (x, w') \<Longrightarrow> thesis) \<Longrightarrow> thesis"
  by (cases r) simp

section \<open>Inversion\<close>

text \<open>What a successful run of a sequence says about its parts.\<close>

lemma attempt_OkE [ok_elims]:
  assumes "run_state (attempt m f k) w = (Ok y, w')"
  obtains x w1 where "run_state m w = (Ok x, w1)" and "run_state (k x) w1 = (Ok y, w')"
  using assms by (auto split: prod.splits result.splits)

lemma effect_OkE [ok_elims]:
  assumes "run_state (effect m) w = (Ok y, w')"
  shows "run_state m w = (y, w')"
  using assms by (auto split: prod.splits)

lemma attempt_Ok [ok_iffs]:
  "run_state (attempt m f k) w = (Ok y, w') \<longleftrightarrow>
     (\<exists>x w1. run_state m w = (Ok x, w1) \<and> run_state (k x) w1 = (Ok y, w'))"
  by (auto split: prod.splits result.splits)

lemma attempt_ok_Ok: "run_state (attempt m f ok) w = (Ok y, w') \<longleftrightarrow> run_state m w = (Ok y, w')"
  by (auto split: prod.splits result.splits)

lemma on_err_Ok [ok_iffs]:
  "run_state (on_err m h k) w = (Ok y, w') \<longleftrightarrow>
     (\<exists>x w1. run_state m w = (Ok x, w1) \<and> run_state (k x) w1 = (Ok y, w')) \<or>
     (\<exists>e w1. run_state m w = (Err e, w1) \<and> run_state (h e) w1 = (Ok y, w'))"
  by (auto split: prod.splits result.splits)

lemma ok_Ok [ok_iffs]: "run_state (ok x) w = (Ok y, w') \<longleftrightarrow> y = x \<and> w' = w"
  and fail_Ok [ok_iffs]: "run_state (fail e) w = (Ok y, w') \<longleftrightarrow> False"
  and go_panic_Ok [ok_iffs]: "run_state (go_panic s) w = (Ok y, w') \<longleftrightarrow> False"
  by auto

lemma effect_Ok [ok_iffs]: "run_state (effect m) w = (Ok y, w') \<longleftrightarrow> run_state m w = (y, w')"
  by (auto split: prod.splits)

lemma deferred_Ok [ok_iffs]: "run_state (deferred fin m) w = (Ok y, w') \<longleftrightarrow>
     (\<exists>w1. run_state m w = (Ok y, w1) \<and> w' = snd (run_state fin w1))"
  by (auto split: prod.splits result.splits)

lemma get_bind [ok_iffs]: "run_state (State_Monad.bind (get f) k) w = run_state (k (f w)) w"
  by simp

lemma assign_bind [ok_iffs]: "run_state (State_Monad.bind (assign g) k) w = run_state (k ()) (g w)"
  by simp

lemma on_err_OkE [ok_elims]:
  assumes "run_state (on_err m h k) w = (Ok y, w')"
  obtains (fine) x w1 where "run_state m w = (Ok x, w1)" and "run_state (k x) w1 = (Ok y, w')"
  | (handled) e w1 where "run_state m w = (Err e, w1)" and "run_state (h e) w1 = (Ok y, w')"
  using assms by (auto simp only: on_err_Ok)

lemma for_each_Cons_Ok:
  "run_state (for_each f (x # xs)) w = (Ok u, w') \<longleftrightarrow>
     (\<exists>w1. run_state (f x) w = (Ok (), w1) \<and> run_state (for_each f xs) w1 = (Ok u, w'))"
  by (auto split: prod.splits result.splits)

lemma for_each_append:
  "run_state (for_each f (xs @ ys)) w = run_state (attempt (for_each f xs) id (\<lambda>_. for_each f ys)) w"
  by (induction xs arbitrary: w) (auto split: prod.splits result.splits)

text \<open>A failing loop stops at its first failing element, with that element's error.\<close>

lemma for_each_ErrE:
  assumes "run_state (for_each f xs) w = (Err e, w')"
  obtains pre x post w1 where "xs = pre @ x # post"
    and "run_state (for_each f pre) w = (Ok (), w1)" and "run_state (f x) w1 = (Err e, w')"
  using assms
proof (induction xs arbitrary: w thesis)
  case Nil
  then show ?case by simp
next
  case (Cons x xs)
  obtain r w1 where r: "run_state (f x) w = (r, w1)" by fastforce
  show ?case
  proof (cases r)
    case (Err e')
    with r Cons.prems(2) have "run_state (f x) w = (Err e, w')" by simp
    then show ?thesis using Cons.prems(1)[of "[]" x xs w] by simp
  next
    case (Ok u)
    with r Cons.prems(2) have "run_state (for_each f xs) w1 = (Err e, w')" by simp
    then obtain pre y post w2 where *: "xs = pre @ y # post"
      "run_state (for_each f pre) w1 = (Ok (), w2)" "run_state (f y) w2 = (Err e, w')"
      using Cons.IH by metis
    with r Ok show ?thesis using Cons.prems(1)[of "x # pre" y post w2] by simp
  qed (use r Cons.prems(2) in auto)
qed

section \<open>Outcomes that cannot happen\<close>

text \<open>\<open>no_panic m\<close>: no run of \<open>m\<close> panics, whatever world it starts in.\<close>

definition no_panic :: "('w, 'a) go \<Rightarrow> bool" where
  "no_panic m \<longleftrightarrow> (\<forall>w s w'. run_state m w \<noteq> (Panic s, w'))"

lemma no_panic_basic [simp, intro!]:
  "no_panic (ok x)" "no_panic (fail e)" "no_panic (go_exit n)" "no_panic (effect m)"
  by (auto simp: no_panic_def split: prod.splits)

lemma no_panic_if [intro!]:
  "(b \<Longrightarrow> no_panic m) \<Longrightarrow> (\<not> b \<Longrightarrow> no_panic n) \<Longrightarrow> no_panic (if b then m else n)"
  by simp

lemma no_panic_on_err [intro!]:
  "no_panic m \<Longrightarrow> (\<And>e. no_panic (h e)) \<Longrightarrow> (\<And>x. no_panic (k x)) \<Longrightarrow> no_panic (on_err m h k)"
  by (auto simp: no_panic_def split: prod.splits result.splits)

lemma no_panic_attempt [intro!]:
  "no_panic m \<Longrightarrow> (\<And>x. no_panic (k x)) \<Longrightarrow> no_panic (attempt m f k)"
  by (auto simp: attempt_def)

lemma no_panic_bind [intro!]: "(\<And>x. no_panic (k x)) \<Longrightarrow> no_panic (State_Monad.bind m k)"
  by (auto simp: no_panic_def split: prod.splits)

lemma no_panic_for_each [intro!]: "(\<And>x. no_panic (f x)) \<Longrightarrow> no_panic (for_each f xs)"
  by (induction xs) auto

lemma no_panic_map_each [intro!]: "(\<And>x. no_panic (f x)) \<Longrightarrow> no_panic (map_each f xs)"
  by (induction xs) auto

lemma no_panic_deferred [intro!]: "no_panic m \<Longrightarrow> no_panic (deferred fin m)"
  by (auto simp: no_panic_def split: prod.splits result.splits)

text \<open>\<open>returns m\<close>: every run ends with a value or an error; it neither panics nor exits.\<close>

fun returned :: "'a result \<Rightarrow> bool" where
  "returned (Ok x) = True"
| "returned (Err e) = True"
| "returned _ = False"

definition returns :: "('w, 'a) go \<Rightarrow> bool" where
  "returns m \<longleftrightarrow> (\<forall>w. returned (fst (run_state m w)))"

lemma returnsI: "(\<And>w. returned (fst (run_state m w))) \<Longrightarrow> returns m"
  by (simp add: returns_def)

lemma returns_basic [simp, intro]: "returns (ok x)" "returns (fail e)" "returns (effect m)"
  by (auto simp: returns_def split: prod.splits)

lemma returns_on_err [intro]:
  "returns m \<Longrightarrow> (\<And>e. returns (h e)) \<Longrightarrow> (\<And>x. returns (k x)) \<Longrightarrow> returns (on_err m h k)"
  unfolding returns_def
  by (rule allI, subst run_on_err, simp split: prod.split result.split) (metis fst_conv returned.simps)

lemma returns_attempt [intro]:
  "returns m \<Longrightarrow> (\<And>x. returns (k x)) \<Longrightarrow> returns (attempt m f k)"
  by (auto simp: attempt_def)

lemma returns_bind [intro]: "(\<And>x. returns (k x)) \<Longrightarrow> returns (State_Monad.bind m k)"
  by (auto simp: returns_def split: prod.splits)

lemma returns_for_each [intro]: "(\<And>x. x \<in> set xs \<Longrightarrow> returns (f x)) \<Longrightarrow> returns (for_each f xs)"
  by (induction xs) auto

lemma returns_map_each [intro]: "(\<And>x. returns (f x)) \<Longrightarrow> returns (map_each f xs)"
  by (induction xs) auto

lemma returns_cases [intro]:
  "returns m \<Longrightarrow> returns n \<Longrightarrow> returns (if b then m else n)"
  "(\<And>x. returns (f1 x)) \<Longrightarrow> (\<And>y. returns (g1 y)) \<Longrightarrow> returns (case s of Inl x \<Rightarrow> f1 x | Inr y \<Rightarrow> g1 y)"
  "returns m \<Longrightarrow> (\<And>x. returns (f2 x)) \<Longrightarrow> returns (case oo of None \<Rightarrow> m | Some x \<Rightarrow> f2 x)"
  "(\<And>x y. returns (f3 x y)) \<Longrightarrow> returns (case p of (x, y) \<Rightarrow> f3 x y)"
  "returns m \<Longrightarrow> (\<And>x xs. returns (f4 x xs)) \<Longrightarrow> returns (case l of [] \<Rightarrow> m | x # xs \<Rightarrow> f4 x xs)"
  "returns (f5 c) \<Longrightarrow> returns (Let c f5)"
  by (auto split: sum.split option.split prod.split list.split)

lemma returns_deferred [intro]: "returns m \<Longrightarrow> returns (deferred fin m)"
  unfolding returns_def
  by (rule allI, subst run_deferred, simp split: prod.split result.split) (metis fst_conv returned.simps)

lemmas returns_intros =
  returns_basic returns_on_err returns_attempt returns_bind returns_for_each returns_map_each
  returns_cases returns_deferred

lemma returns_no_panic: "returns m \<Longrightarrow> no_panic m"
  by (auto simp: returns_def no_panic_def) (metis fst_conv returned.simps(3))

lemma returnsE:
  assumes "returns m" and "run_state m w = (r, w')"
  obtains (Ok) x where "r = Ok x" | (Err) e where "r = Err e"
  using assms unfolding returns_def by (cases r) (metis fst_conv returned.simps)+

section \<open>Errors that can happen\<close>

text \<open>\<open>errs P m\<close>: every error that a run of \<open>m\<close> ends with satisfies \<open>P\<close>.\<close>

definition errs :: "(go_error \<Rightarrow> bool) \<Rightarrow> ('w, 'a) go \<Rightarrow> bool" where
  "errs P m \<longleftrightarrow> (\<forall>w e w'. run_state m w = (Err e, w') \<longrightarrow> P e)"

lemma errsI: "(\<And>w e w'. run_state m w = (Err e, w') \<Longrightarrow> P e) \<Longrightarrow> errs P m"
  and errsD: "errs P m \<Longrightarrow> run_state m w = (Err e, w') \<Longrightarrow> P e"
  by (auto simp: errs_def)

lemma errs_True: "errs (\<lambda>_. True) m"
  by (simp add: errs_def)

lemma errs_basic: "errs P (ok x)" "errs P (effect n)" "errs P (go_panic s)" "errs P (go_exit i)"
    "P e \<Longrightarrow> errs P (fail e)"
  by (auto simp: errs_def split: prod.splits)

lemma errs_on_err:
  "(\<And>e. errs P (h e)) \<Longrightarrow> (\<And>x. errs P (k x)) \<Longrightarrow> errs P (on_err m h k)"
  by (auto simp: errs_def split: prod.splits result.splits)

lemma errs_attempt:
  "errs Q m \<Longrightarrow> (\<And>e. Q e \<Longrightarrow> P (f e)) \<Longrightarrow> (\<And>x. errs P (k x)) \<Longrightarrow> errs P (attempt m f k)"
  by (auto simp: errs_def split: prod.splits result.splits)

lemma errs_bind: "(\<And>x. errs P (k x)) \<Longrightarrow> errs P (State_Monad.bind m k)"
  by (auto simp: errs_def split: prod.splits)

lemma errs_for_each:
  assumes "\<And>x. errs P (f x)"
  shows "errs P (for_each f xs)"
proof (induction xs)
  case Nil
  show ?case by (simp add: errs_basic)
next
  case (Cons x xs)
  show ?case unfolding for_each.simps by (rule errs_attempt [OF assms _ Cons.IH]) simp
qed

lemma errs_deferred: "errs P m \<Longrightarrow> errs P (deferred fin m)"
  by (auto simp: errs_def split: prod.splits result.splits)

lemma errs_cases:
  "errs P m \<Longrightarrow> errs P n \<Longrightarrow> errs P (if b then m else n)"
  "(\<And>x. errs P (f1 x)) \<Longrightarrow> (\<And>y. errs P (g1 y)) \<Longrightarrow> errs P (case s of Inl x \<Rightarrow> f1 x | Inr y \<Rightarrow> g1 y)"
  "errs P m \<Longrightarrow> (\<And>x. errs P (f2 x)) \<Longrightarrow> errs P (case oo of None \<Rightarrow> m | Some x \<Rightarrow> f2 x)"
  "(\<And>x y. errs P (f3 x y)) \<Longrightarrow> errs P (case p of (x, y) \<Rightarrow> f3 x y)"
  "errs P (f5 c) \<Longrightarrow> errs P (Let c f5)"
  by (auto split: sum.split option.split prod.split)

section \<open>Effect relations\<close>

text \<open>
  Many properties compare the world before a call with the world after it: the trace only
  grows, nothing outside a directory changes. Such a property is a reflexive and
  transitive relation; the combinators keep whatever their parts keep.
\<close>

locale effect_relation =
  fixes R :: "'w \<Rightarrow> 'w \<Rightarrow> bool"
  assumes R_refl: "R w w"
    and R_trans: "R w1 w2 \<Longrightarrow> R w2 w3 \<Longrightarrow> R w1 w3"
begin

lemma within_return: "state_io_rel R (State_Monad.return x)"
  by (auto simp: R_refl)

lemma within_ok: "state_io_rel R (ok x)" and within_fail: "state_io_rel R (fail e)"
  and within_panic: "state_io_rel R (go_panic s)" and within_exit: "state_io_rel R (go_exit n)"
  by (auto simp: R_refl)

lemma within_bind:
  "state_io_rel R m \<Longrightarrow> (\<And>x. state_io_rel R (k x)) \<Longrightarrow> state_io_rel R (State_Monad.bind m k)"
  by (rule state_io_relI) (auto split: prod.splits intro: R_trans)

lemma within_on_err:
  assumes "state_io_rel R m" and "\<And>e. state_io_rel R (h e)" and "\<And>x. state_io_rel R (k x)"
  shows "state_io_rel R (on_err m h k)"
  using assms
  by (auto simp: on_err_def intro!: within_bind within_panic within_exit split: result.splits)

lemma within_attempt:
  "state_io_rel R m \<Longrightarrow> (\<And>x. state_io_rel R (k x)) \<Longrightarrow> state_io_rel R (attempt m f k)"
  by (auto simp: attempt_def intro!: within_on_err within_fail)

lemma within_effect: "state_io_rel R m \<Longrightarrow> state_io_rel R (effect m)"
  by (auto simp: effect_def intro!: within_bind within_ok)

lemma within_ignoring: "state_io_rel R m \<Longrightarrow> state_io_rel R (ignoring m)"
  by (auto simp: ignoring_def intro!: within_bind within_return)

lemma within_for_each: "(\<And>x. x \<in> set xs \<Longrightarrow> state_io_rel R (f x)) \<Longrightarrow> state_io_rel R (for_each f xs)"
  by (induction xs) (auto intro!: within_attempt within_ok)

lemma within_map_each: "(\<And>x. state_io_rel R (f x)) \<Longrightarrow> state_io_rel R (map_each f xs)"
  by (induction xs) (auto intro!: within_attempt within_ok)

lemma within_get: "state_io_rel R (get f)"
  by (auto simp: get_def R_refl)

lemma within_cases:
  "state_io_rel R m \<Longrightarrow> state_io_rel R n \<Longrightarrow> state_io_rel R (if b then m else n)"
  "(\<And>x. state_io_rel R (f1 x)) \<Longrightarrow> (\<And>y. state_io_rel R (g1 y)) \<Longrightarrow>
    state_io_rel R (case s of Inl x \<Rightarrow> f1 x | Inr y \<Rightarrow> g1 y)"
  "state_io_rel R m \<Longrightarrow> (\<And>x. state_io_rel R (f2 x)) \<Longrightarrow>
    state_io_rel R (case oo of None \<Rightarrow> m | Some x \<Rightarrow> f2 x)"
  "(\<And>x y. state_io_rel R (f3 x y)) \<Longrightarrow> state_io_rel R (case p of (x, y) \<Rightarrow> f3 x y)"
  "state_io_rel R m \<Longrightarrow> (\<And>x xs. state_io_rel R (f4 x xs)) \<Longrightarrow>
    state_io_rel R (case l of [] \<Rightarrow> m | x # xs \<Rightarrow> f4 x xs)"
  "(\<And>x. state_io_rel R (f5 x)) \<Longrightarrow> state_io_rel R (Let c f5)"
  by (auto split: sum.split option.split prod.split list.split)

lemma within_deferred: "state_io_rel R fin \<Longrightarrow> state_io_rel R m \<Longrightarrow> state_io_rel R (deferred fin m)"
  by (auto simp: deferred_def intro!: within_bind within_return within_exit split: result.splits)

lemmas within_intros =
  within_return within_ok within_fail within_panic within_exit within_bind within_on_err
  within_attempt within_effect within_ignoring within_for_each within_map_each within_get
  within_deferred within_cases

end

end
