(* ===== verification/GoOS.thy ===== *)
theory GoOS
  imports FileTree GoMonad
begin

text \<open>
  The machine the program runs on. The \<open>world\<close> is what the program changes: the file tree,
  the trace of externally visible actions, and a clock that counts calls. The \<open>host\<close> is
  what it cannot change and what is not code of the repository: environment variables, the
  outcome of external programs, HTTP exchanges and third-party decoders, and a fault
  oracle that may make any system call fail at any time. The functions of \<^verbatim>\<open>os\<close>,
  \<^verbatim>\<open>io/ioutil\<close>, \<^verbatim>\<open>os/exec\<close>, \<^verbatim>\<open>net/http\<close> and \<^verbatim>\<open>log\<close> that the program calls follow.
  Symbolic links, ownership and permission checks are not modelled.
\<close>

section \<open>World and host\<close>

text \<open>\<^verbatim>\<open>*http.Client\<close>: the zero client, or one built over TLS identities and authorities
  given as paths of certificate, key and CA.\<close>

datatype http_client = DefaultClient | TLSClient "(string \<times> string \<times> string) list"

record http_request =
  req_method :: string
  req_url :: string
  req_contentType :: "string option"
  req_contentLength :: "nat option"
  req_body :: string

text \<open>\<^verbatim>\<open>exec.Cmd\<close>: the program, its arguments and its working directory (empty: the caller's).\<close>

record command =
  cmd_path :: string
  cmd_args :: "string list"
  cmd_dir :: string

text \<open>The visible actions: a line of the log, a line of the output, an external program with
  whether it succeeded, a request.\<close>

datatype event =
    Logged string
  | Printed string
  | Executed command bool
  | Sent http_client http_request

record world =
  fs :: node
  trace :: "event list"
  clock :: nat

text \<open>The results a reader will give to successive calls of \<^verbatim>\<open>Read\<close>; after the last one it
  gives \<^verbatim>\<open>0, io.EOF\<close>.\<close>

type_synonym script = "(string \<times> go_error option) list"

record zip_entry =
  ze_name :: string
  ze_mode :: "32 word"
  ze_isDir :: bool
  ze_open :: "string option"
  ze_data :: script

text \<open>A parsed URL, as far as the program looks at it: \<^verbatim>\<open>String()\<close> without the fragment, and
  the fragment.\<close>

record url =
  url_base :: string
  Fragment :: string

record host =
  h_env :: "string \<Rightarrow> string option"
  h_cwd :: "string list"
  h_umask :: "32 word"
  h_fault :: "nat \<Rightarrow> string \<Rightarrow> string \<Rightarrow> string option"
  h_rand :: "nat \<Rightarrow> string"
  h_nanos :: "nat \<Rightarrow> nat"
  h_exec :: "nat \<Rightarrow> command \<Rightarrow> node \<Rightarrow> (string \<times> string option) \<times> node"
  h_lookPath :: "string \<Rightarrow> node \<Rightarrow> string + string"
  h_http :: "nat \<Rightarrow> http_client \<Rightarrow> http_request \<Rightarrow> string + (nat \<times> script)"
  h_urlParse :: "string \<Rightarrow> string + url"
  h_tls :: "(string \<times> string \<times> string) list \<Rightarrow> node \<Rightarrow> string option"
  h_zip :: "string \<Rightarrow> string + zip_entry list"
  h_log10 :: "nat \<Rightarrow> nat"
  h_yamlConfig :: "string \<Rightarrow> string + (string \<times> string)"
  h_yamlProcfile :: "string \<Rightarrow> string + string_map"
  h_yamlRelease :: "string \<Rightarrow> string + string_map"
  h_jsonError :: "string \<Rightarrow> string"
  h_quote :: "string \<Rightarrow> string"

section \<open>System calls\<close>

text \<open>The components a path string denotes; relative paths start in the working directory.\<close>

definition resolve :: "host \<Rightarrow> string \<Rightarrow> string list" where
  "resolve H p = (if rooted p then path_comps p
     else clean_comps True (h_cwd H) (path_comps p))"

definition syscall ::
  "host \<Rightarrow> string \<Rightarrow> string \<Rightarrow> (string list \<Rightarrow> node \<Rightarrow> (errno + 'a) \<times> node) \<Rightarrow> ('x world_scheme, 'a) go" where
  "syscall H op path act = State (\<lambda>w.
     let w' = w\<lparr>clock := Suc (clock w)\<rparr> in
     case h_fault H (clock w) op path of
       Some s \<Rightarrow> (Err (PathError op path (EOther s)), w')
     | None \<Rightarrow>
         if path = '''' then (Err (PathError op path ENOENT), w')
         else (case act (resolve H path) (fs w) of
             (Inl e, t) \<Rightarrow> (Err (PathError op path e), w'\<lparr>fs := t\<rparr>)
           | (Inr x, t) \<Rightarrow> (Ok x, w'\<lparr>fs := t\<rparr>)))"

text \<open>A call that only looks, and a call that creates or replaces the entry at a path whose
  parent must be a folder.\<close>

definition look :: "(node \<Rightarrow> errno + 'a) \<Rightarrow> string list \<Rightarrow> node \<Rightarrow> (errno + 'a) \<times> node" where
  "look f p t = (case walk t p of Inl e \<Rightarrow> Inl e | Inr n \<Rightarrow> f n, t)"

definition enter :: "(errno \<Rightarrow> bool) \<Rightarrow> (node option \<Rightarrow> errno + node) \<Rightarrow> string list \<Rightarrow> node \<Rightarrow> (errno + unit) \<times> node" where
  "enter absent f p t =
     (case walk t p of
        Inr n \<Rightarrow> (case f (Some n) of Inl e \<Rightarrow> (Inl e, t) | Inr v \<Rightarrow> (Inr (), put p v t))
      | Inl e \<Rightarrow>
          if absent e \<and> p \<noteq> [] \<and> folder_at t (butlast p)
          then (case f None of Inl e' \<Rightarrow> (Inl e', t) | Inr v \<Rightarrow> (Inr (), put p v t))
          else (Inl e, t))"

record file_info =
  fi_mode :: "32 word"
  fi_isDir :: bool
  fi_size :: nat

definition ModeDir :: "32 word" where
  "ModeDir = 0x80000000"

text \<open>The bits that \<^verbatim>\<open>chmod\<close>, \<^verbatim>\<open>mkdir\<close> and \<^verbatim>\<open>open\<close> honour: permissions, setuid, setgid and
  sticky.\<close>

definition mode_bits :: "32 word" where
  "mode_bits = 0xD001FF"

text \<open>The octal permission literals of the source.\<close>

abbreviation perm_0111 :: "32 word" where "perm_0111 \<equiv> 0x049"
abbreviation perm_0644 :: "32 word" where "perm_0644 \<equiv> 0x1A4"
abbreviation perm_0666 :: "32 word" where "perm_0666 \<equiv> 0x1B6"
abbreviation perm_0700 :: "32 word" where "perm_0700 \<equiv> 0x1C0"
abbreviation perm_0755 :: "32 word" where "perm_0755 \<equiv> 0x1ED"
abbreviation perm_0777 :: "32 word" where "perm_0777 \<equiv> 0x1FF"

unbundle bit_operations_syntax

definition created_mode :: "host \<Rightarrow> 32 word \<Rightarrow> 32 word" where
  "created_mode H perm = (perm AND mode_bits AND NOT (h_umask H))"

text \<open>The size that the system gives for a folder is not fixed; here it is zero, and nothing sent
  or returned depends on it.\<close>

fun info_of :: "node \<Rightarrow> file_info" where
  "info_of (File m s) = \<lparr>fi_mode = m, fi_isDir = False, fi_size = length s\<rparr>"
| "info_of (Folder m es) = \<lparr>fi_mode = m OR ModeDir, fi_isDir = True, fi_size = 0\<rparr>"

definition Stat :: "host \<Rightarrow> string \<Rightarrow> ('x world_scheme, file_info) go" where
  "Stat H p = syscall H ''stat'' p (look (\<lambda>n. Inr (info_of n)))"

fun mkdir_entry :: "32 word \<Rightarrow> node option \<Rightarrow> errno + node" where
  "mkdir_entry perm (Some n) = Inl EEXIST"
| "mkdir_entry perm None = Inr (Folder perm [])"

definition Mkdir :: "host \<Rightarrow> string \<Rightarrow> 32 word \<Rightarrow> ('x world_scheme, unit) go" where
  "Mkdir H p perm = syscall H ''mkdir'' p
     (enter (\<lambda>e. e = ENOENT) (mkdir_entry (created_mode H perm)))"

text \<open>\<^verbatim>\<open>os.MkdirAll\<close>: nothing to do for a folder, an error for a file; otherwise the parent
  first, then the folder itself, with the check for a racing creation.\<close>

definition path_string :: "bool \<Rightarrow> string list \<Rightarrow> string" where
  "path_string r cs = render_path r (rev cs)"

definition mkdir_one :: "host \<Rightarrow> 32 word \<Rightarrow> string \<Rightarrow> ('x world_scheme, unit) go" where
  "mkdir_one H perm p = on_err (Mkdir H p perm)
     (\<lambda>e. on_err (Stat H p) (\<lambda>_. fail e) (\<lambda>i. if fi_isDir i then ok () else fail e))
     ok"

definition unless_dir :: "host \<Rightarrow> string \<Rightarrow> ('x world_scheme, unit) go \<Rightarrow> ('x world_scheme, unit) go" where
  "unless_dir H p m = on_err (Stat H p) (\<lambda>_. m)
     (\<lambda>i. if fi_isDir i then ok () else fail (PathError ''mkdir'' p ENOTDIR))"

primrec mkdir_rec :: "host \<Rightarrow> 32 word \<Rightarrow> bool \<Rightarrow> string list \<Rightarrow> ('x world_scheme, unit) go" where
  "mkdir_rec H perm r [] = unless_dir H (path_string r []) (mkdir_one H perm (path_string r []))"
| "mkdir_rec H perm r (x # xs) = unless_dir H (path_string r (x # xs))
     (if xs = [] then mkdir_one H perm (path_string r [x])
      else attempt (mkdir_rec H perm r xs) id (\<lambda>_. mkdir_one H perm (path_string r (x # xs))))"

definition MkdirAll :: "host \<Rightarrow> string \<Rightarrow> 32 word \<Rightarrow> ('x world_scheme, unit) go" where
  "MkdirAll H p perm =
     (if p = '''' then fail (PathError ''mkdir'' p ENOENT)
      else mkdir_rec H perm (rooted p) (rev (path_comps p)))"

text \<open>\<^verbatim>\<open>os.RemoveAll\<close>: no error for a path that does not exist.\<close>

definition remove_tree :: "string list \<Rightarrow> node \<Rightarrow> (errno + unit) \<times> node" where
  "remove_tree p t =
     (case walk t p of
        Inl e \<Rightarrow> (if e = ENOENT then Inr () else Inl e, t)
      | Inr n \<Rightarrow> (if p = [] then (Inl EINVAL, t) else (Inr (), del p t)))"

definition RemoveAll :: "host \<Rightarrow> string \<Rightarrow> ('x world_scheme, unit) go" where
  "RemoveAll H p = (if p = '''' then ok () else syscall H ''unlinkat'' p remove_tree)"

definition Remove :: "host \<Rightarrow> string \<Rightarrow> ('x world_scheme, unit) go" where
  "Remove H p = syscall H ''remove'' p (\<lambda>c t.
     case walk t c of
       Inl e \<Rightarrow> (Inl e, t)
     | Inr (Folder m (x # xs)) \<Rightarrow> (Inl (EOther ''directory not empty''), t)
     | Inr n \<Rightarrow> (if c = [] then (Inl EINVAL, t) else (Inr (), del c t)))"

text \<open>\<^verbatim>\<open>ioutil.ReadDir\<close>: the names of the entries, sorted.\<close>

fun entry_names :: "node \<Rightarrow> errno + string list" where
  "entry_names (File m s) = Inl ENOTDIR"
| "entry_names (Folder m es) = Inr (sort (remdups (map fst es)))"

fun file_content :: "node \<Rightarrow> errno + string" where
  "file_content (File m s) = Inr s"
| "file_content (Folder m es) = Inl EISDIR"

definition ReadDir :: "host \<Rightarrow> string \<Rightarrow> ('x world_scheme, string list) go" where
  "ReadDir H p = syscall H ''open'' p (look entry_names)"

definition ReadFile :: "host \<Rightarrow> string \<Rightarrow> ('x world_scheme, string) go" where
  "ReadFile H p = syscall H ''open'' p (look file_content)"

text \<open>\<^verbatim>\<open>os.Open\<close>: the node that reads of the open file will see.\<close>

definition Open :: "host \<Rightarrow> string \<Rightarrow> ('x world_scheme, node) go" where
  "Open H p = syscall H ''open'' p (look Inr)"

text \<open>\<^verbatim>\<open>os.OpenFile\<close> with \<^verbatim>\<open>O_CREATE|O_TRUNC\<close>: an existing file keeps its mode and loses its
  content.\<close>

fun truncate_entry :: "32 word \<Rightarrow> node option \<Rightarrow> errno + node" where
  "truncate_entry perm None = Inr (File perm '''')"
| "truncate_entry perm (Some (File m s)) = Inr (File m '''')"
| "truncate_entry perm (Some (Folder m es)) = Inl EISDIR"

definition OpenCreate :: "host \<Rightarrow> string \<Rightarrow> 32 word \<Rightarrow> ('x world_scheme, unit) go" where
  "OpenCreate H p perm = syscall H ''open'' p
     (enter (\<lambda>e. e = ENOENT) (truncate_entry (created_mode H perm)))"

definition Create :: "host \<Rightarrow> string \<Rightarrow> ('x world_scheme, unit) go" where
  "Create H p = OpenCreate H p perm_0666"

text \<open>A write to an open file appends at its end: the program only writes to files it has
  just truncated.\<close>

fun append_entry :: "string \<Rightarrow> node option \<Rightarrow> errno + node" where
  "append_entry data (Some (File m s)) = Inr (File m (s @ data))"
| "append_entry data _ = Inl (EOther ''bad file descriptor'')"

definition Write :: "host \<Rightarrow> string \<Rightarrow> string \<Rightarrow> ('x world_scheme, unit) go" where
  "Write H p data = syscall H ''write'' p (enter (\<lambda>_. False) (append_entry data))"

definition WriteFile :: "host \<Rightarrow> string \<Rightarrow> string \<Rightarrow> 32 word \<Rightarrow> ('x world_scheme, unit) go" where
  "WriteFile H p data perm = attempt (OpenCreate H p perm) id (\<lambda>_. Write H p data)"

text \<open>\<^verbatim>\<open>(*os.File).Chmod\<close>: the permission bits are replaced.\<close>

fun chmod_entry :: "32 word \<Rightarrow> node option \<Rightarrow> errno + node" where
  "chmod_entry mode (Some (File m s)) = Inr (File mode s)"
| "chmod_entry mode (Some (Folder m es)) = Inr (Folder mode es)"
| "chmod_entry mode None = Inl ENOENT"

definition Chmod :: "host \<Rightarrow> string \<Rightarrow> 32 word \<Rightarrow> ('x world_scheme, unit) go" where
  "Chmod H p mode = syscall H ''chmod'' p (enter (\<lambda>_. False) (chmod_entry (mode AND mode_bits)))"

text \<open>\<^verbatim>\<open>ioutil.TempDir("", prefix)\<close>: a fresh name under \<^verbatim>\<open>$TMPDIR\<close>, with at most ten thousand
  attempts.\<close>

definition TempBase :: "host \<Rightarrow> string" where
  "TempBase H = (case h_env H ''TMPDIR'' of None \<Rightarrow> ''/tmp'' | Some d \<Rightarrow> if d = '''' then ''/tmp'' else d)"

fun tempdir_try :: "host \<Rightarrow> nat \<Rightarrow> string \<Rightarrow> string \<Rightarrow> go_error \<Rightarrow> ('x world_scheme, string) go" where
  "tempdir_try H n dir pre last_err =
     (if n = 0 then fail last_err
      else do {
        i \<leftarrow> State (\<lambda>w. (clock w, w));
        let name = Join [dir, pre @ h_rand H i];
        on_err (Mkdir H name perm_0700)
          (\<lambda>e. if IsExist e then tempdir_try H (n - 1) dir pre e
               else if IsNotExist e
                    then on_err (Stat H dir) (\<lambda>e'. if IsNotExist e' then fail e' else fail e) (\<lambda>_. fail e)
                    else fail e)
          (\<lambda>_. ok name) })"

declare tempdir_try.simps [simp del]

definition TempDir :: "host \<Rightarrow> string \<Rightarrow> ('x world_scheme, string) go" where
  "TempDir H pre = tempdir_try H 10000 (TempBase H) pre (Errorf '''')"

section \<open>Log, programs, HTTP\<close>

definition emit :: "event \<Rightarrow> ('x world_scheme, unit) state" where
  "emit e = State (\<lambda>w. ((), w\<lparr>trace := trace w @ [e]\<rparr>))"

definition log_Println :: "string \<Rightarrow> ('x world_scheme, unit) state" where
  "log_Println m = emit (Logged m)"

definition fmt_Println :: "string \<Rightarrow> ('x world_scheme, unit) state" where
  "fmt_Println m = emit (Printed m)"

text \<open>\<^verbatim>\<open>log.Fatalf\<close>: log, then exit with status 1 without running deferred calls.\<close>

definition log_Fatal :: "string \<Rightarrow> ('x world_scheme, 'a) go" where
  "log_Fatal m = do { log_Println m; go_exit 1 }"

definition Command :: "string \<Rightarrow> string list \<Rightarrow> command" where
  "Command p args = \<lparr>cmd_path = p, cmd_args = args, cmd_dir = ''''\<rparr>"

text \<open>\<^verbatim>\<open>(*exec.Cmd).Run\<close>, giving the captured standard output when the program succeeds. Looking up a
  bare name in the path and starting the program are part of its outcome: a program that could not
  be started is one that failed.\<close>

definition Run_cmd :: "host \<Rightarrow> command \<Rightarrow> ('x world_scheme, string) go" where
  "Run_cmd H c = State (\<lambda>w.
     case h_exec H (clock w) c (fs w) of
       ((out, e), t) \<Rightarrow>
         (case e of None \<Rightarrow> Ok out | Some s \<Rightarrow> Err (External s),
          w\<lparr>clock := Suc (clock w), fs := t, trace := trace w @ [Executed c (e = None)]\<rparr>))"

definition LookPath :: "host \<Rightarrow> string \<Rightarrow> ('x world_scheme, string) go" where
  "LookPath H p = State (\<lambda>w.
     (case h_lookPath H p (fs w) of Inl s \<Rightarrow> Err (External s) | Inr q \<Rightarrow> Ok q, w))"

text \<open>\<^verbatim>\<open>http.NewRequest\<close> fails exactly for a URL that does not parse; \<^verbatim>\<open>Client.Do\<close> then makes
  the exchange.\<close>

definition NewRequest :: "host \<Rightarrow> string \<Rightarrow> string \<Rightarrow> string \<Rightarrow> ('x world_scheme, http_request) go" where
  "NewRequest H meth u body =
     (case h_urlParse H u of
        Inl s \<Rightarrow> fail (External s)
      | Inr _ \<Rightarrow> ok \<lparr>req_method = meth, req_url = u, req_contentType = None,
          req_contentLength = None, req_body = body\<rparr>)"

definition Do :: "host \<Rightarrow> http_client \<Rightarrow> http_request \<Rightarrow> ('x world_scheme, nat \<times> script) go" where
  "Do H c r = State (\<lambda>w.
     (case h_http H (clock w) c r of Inl s \<Rightarrow> Err (External s) | Inr resp \<Rightarrow> Ok resp,
      w\<lparr>clock := Suc (clock w), trace := trace w @ [Sent c r]\<rparr>))"

definition Get :: "host \<Rightarrow> http_client \<Rightarrow> string \<Rightarrow> ('x world_scheme, nat \<times> script) go" where
  "Get H c u = attempt (NewRequest H ''GET'' u '''') id (Do H c)"

definition StatusOK :: nat where "StatusOK = 200"
definition StatusBadRequest :: nat where "StatusBadRequest = 400"

text \<open>\<^verbatim>\<open>ioutil.ReadAll\<close> of a response body.\<close>

fun ReadAll :: "script \<Rightarrow> go_error + string" where
  "ReadAll [] = Inr ''''"
| "ReadAll ((chunk, None) # rest) =
     (case ReadAll rest of Inl e \<Rightarrow> Inl e | Inr s \<Rightarrow> Inr (chunk @ s))"
| "ReadAll ((chunk, Some e) # rest) = (if e = EOF then Inr chunk else Inl e)"

end
