(* ===== verification/OSFacts.thy ===== *)
theory OSFacts
  imports GoOS
begin

text \<open>
  What the calls of \<^verbatim>\<open>GoOS\<close> do to the world: which leave the trace and the rest of the
  state alone, what a successful call guarantees about the file tree, and what no call
  touches. The component theories argue from these facts and not from the definitions.
\<close>

section \<open>Trace and frame\<close>

text \<open>A quiet operation has no visible action; a visible one only appends to the trace. Both
  leave the fields of an extended world alone.\<close>

definition quiet_rel :: "'x world_scheme \<Rightarrow> 'x world_scheme \<Rightarrow> bool" where
  "quiet_rel w w' \<longleftrightarrow> trace w' = trace w \<and> world.more w' = world.more w"

definition grows_rel :: "'x world_scheme \<Rightarrow> 'x world_scheme \<Rightarrow> bool" where
  "grows_rel w w' \<longleftrightarrow> prefix (trace w) (trace w') \<and> world.more w' = world.more w"

interpretation quiet: effect_relation quiet_rel
  by unfold_locales (auto simp: quiet_rel_def)

interpretation grows: effect_relation grows_rel
  by unfold_locales (auto simp: grows_rel_def intro: prefix_order.trans)

abbreviation quiet :: "('x world_scheme, 'a) state \<Rightarrow> bool" where
  "quiet m \<equiv> state_io_rel quiet_rel m"

abbreviation grows :: "('x world_scheme, 'a) state \<Rightarrow> bool" where
  "grows m \<equiv> state_io_rel grows_rel m"

lemma quiet_grows: "quiet m \<Longrightarrow> grows m"
  by (auto simp: state_io_rel_def quiet_rel_def grows_rel_def)

lemma quiet_trace: "quiet m \<Longrightarrow> run_state m w = (r, w') \<Longrightarrow> trace w' = trace w"
  and quiet_more: "quiet m \<Longrightarrow> run_state m w = (r, w') \<Longrightarrow> world.more w' = world.more w"
  by (drule (1) state_io_relD, simp add: quiet_rel_def)+

lemma grows_trace: "grows m \<Longrightarrow> run_state m w = (r, w') \<Longrightarrow> prefix (trace w) (trace w')"
  and grows_more: "grows m \<Longrightarrow> run_state m w = (r, w') \<Longrightarrow> world.more w' = world.more w"
  by (drule (1) state_io_relD, simp add: grows_rel_def)+

lemma quiet_syscall: "quiet (syscall H op p act)"
  by (rule state_io_relI)
     (auto simp: syscall_def quiet_rel_def Let_def split: option.splits prod.splits sum.splits if_splits)

lemma quiet_basic [effect_intros]:
  "quiet (Stat H p)" "quiet (Mkdir H p m)" "quiet (RemoveAll H p)" "quiet (Remove H p)"
  "quiet (ReadDir H p)" "quiet (ReadFile H p)" "quiet (OpenCreate H p m)" "quiet (Create H p)"
  "quiet (Write H p s)" "quiet (Chmod H p m)" "quiet (Open H p)"
  by (auto simp: Open_def Stat_def Mkdir_def RemoveAll_def Remove_def ReadDir_def ReadFile_def
      OpenCreate_def Create_def Write_def Chmod_def intro: quiet_syscall quiet.within_ok)

lemma quiet_WriteFile [effect_intros]: "quiet (WriteFile H p s m)"
  by (auto simp: WriteFile_def intro!: quiet.within_intros quiet_basic)

lemma quiet_mkdir_one: "quiet (mkdir_one H m p)"
  by (auto simp: mkdir_one_def intro!: quiet.within_intros quiet_basic)

lemma quiet_unless_dir: "quiet m \<Longrightarrow> quiet (unless_dir H p m)"
  by (auto simp: unless_dir_def intro!: quiet.within_intros quiet_basic)

lemma quiet_mkdir_rec: "quiet (mkdir_rec H m r rc)"
  by (induction rc) (auto intro!: quiet.within_intros quiet_unless_dir quiet_mkdir_one)

lemma quiet_MkdirAll [effect_intros]: "quiet (MkdirAll H p m)"
  by (auto simp: MkdirAll_def intro: quiet_mkdir_rec quiet.within_fail)

lemma quiet_clock: "quiet (State (\<lambda>w. (f (clock w), w)))"
  by (auto simp: quiet_rel_def)

lemma quiet_tempdir_try: "quiet (tempdir_try H n d p e)"
proof (induction n arbitrary: e)
  case 0
  show ?case by (subst tempdir_try.simps) (simp add: quiet.within_fail)
next
  case (Suc n)
  then show ?case
    by (subst tempdir_try.simps)
       (auto simp: Let_def intro!: quiet.within_intros quiet_basic quiet_clock [where f = id, simplified])
qed

lemma quiet_TempDir [effect_intros]: "quiet (TempDir H p)"
  by (simp add: TempDir_def quiet_tempdir_try)

lemma quiet_LookPath [effect_intros]: "quiet (LookPath H p)"
  by (rule state_io_relI) (auto simp: LookPath_def quiet_rel_def)

lemma quiet_NewRequest [effect_intros]: "quiet (NewRequest H m u b)"
  by (auto simp: NewRequest_def intro: quiet.within_ok quiet.within_fail split: sum.splits)

lemma grows_emit [effect_intros]: "grows (emit e)"
  by (rule state_io_relI) (auto simp: emit_def grows_rel_def)

lemma grows_visible [effect_intros]:
  "grows (log_Println s)" "grows (fmt_Println s)" "grows (Run_cmd H c)" "grows (Do H cl rq)"
  by (auto simp: log_Println_def fmt_Println_def grows_emit)
     (rule state_io_relI; force simp: Run_cmd_def Do_def grows_rel_def split: prod.splits)+

lemma grows_log_Fatal [effect_intros]: "grows (log_Fatal s)"
  by (auto simp: log_Fatal_def intro!: grows.within_intros effect_intros)

lemma grows_Get [effect_intros]: "grows (Get H c u)"
  by (auto simp: Get_def intro!: grows.within_intros grows_visible quiet_LookPath quiet_NewRequest [THEN quiet_grows])

lemmas grows_intros = grows.within_intros effect_intros
  quiet_basic [THEN quiet_grows] quiet_WriteFile [THEN quiet_grows] quiet_MkdirAll [THEN quiet_grows]
  quiet_TempDir [THEN quiet_grows] quiet_LookPath [THEN quiet_grows] quiet_NewRequest [THEN quiet_grows]

section \<open>Panics\<close>

lemma no_panic_syscall [simp, intro!]: "no_panic (syscall H op p act)"
  by (auto simp: no_panic_def syscall_def Let_def split: option.splits prod.splits sum.splits if_splits)

lemma no_panic_os [simp, intro!]:
  "no_panic (Stat H p)" "no_panic (Mkdir H p m)" "no_panic (RemoveAll H p)" "no_panic (Remove H p)"
  "no_panic (ReadDir H p)" "no_panic (ReadFile H p)" "no_panic (OpenCreate H p m)" "no_panic (Create H p)"
  "no_panic (Write H p s)" "no_panic (Chmod H p m)" "no_panic (Run_cmd H c)" "no_panic (LookPath H p)"
  "no_panic (Do H cl rq)" "no_panic (NewRequest H me u b)" "no_panic (Open H p)"
  by (auto simp: Open_def Stat_def Mkdir_def RemoveAll_def Remove_def ReadDir_def ReadFile_def
      OpenCreate_def Create_def Write_def Chmod_def NewRequest_def split: sum.splits)
     (auto simp: no_panic_def Run_cmd_def LookPath_def Do_def split: prod.splits option.splits sum.splits)

lemma no_panic_os2 [simp, intro!]:
  "no_panic (WriteFile H p s m)" "no_panic (Get H cl u)" "no_panic (log_Fatal s)"
  by (auto simp: WriteFile_def Get_def log_Fatal_def)

lemma no_panic_mkdir_rec: "no_panic (mkdir_rec H m r rc)"
  by (induction rc) (auto simp: unless_dir_def mkdir_one_def)

lemma no_panic_tempdir_try: "no_panic (tempdir_try H n d p e)"
proof (induction n arbitrary: e)
  case 0
  show ?case by (subst tempdir_try.simps) simp
next
  case (Suc n)
  then show ?case by (subst tempdir_try.simps) (auto simp: Let_def)
qed

lemma no_panic_dirs [simp, intro!]: "no_panic (MkdirAll H p m)" "no_panic (TempDir H s)"
  by (auto simp: MkdirAll_def TempDir_def no_panic_mkdir_rec no_panic_tempdir_try)

section \<open>No exit\<close>

text \<open>Only \<^verbatim>\<open>log.Fatalf\<close> ends the process; every other call returns.\<close>

lemma returns_syscall: "returns (syscall H op p act)"
  by (rule returnsI) (auto simp: syscall_def Let_def split: option.split prod.split sum.split)

lemma returns_basic_os [simp, intro]:
  "returns (Stat H p)" "returns (Mkdir H p m)" "returns (RemoveAll H p)" "returns (Remove H p)"
  "returns (ReadDir H p)" "returns (ReadFile H p)" "returns (OpenCreate H p m)" "returns (Create H p)"
  "returns (Write H p s)" "returns (Chmod H p m)" "returns (Open H p)"
  by (auto simp: Stat_def Mkdir_def RemoveAll_def Remove_def ReadDir_def ReadFile_def OpenCreate_def
      Create_def Write_def Chmod_def Open_def intro!: returns_syscall)

lemma returns_external [simp, intro]:
  "returns (Run_cmd H c)" "returns (LookPath H p)" "returns (NewRequest H me u b)"
  by (auto simp: NewRequest_def split: sum.split)
     (rule returnsI; simp add: Run_cmd_def LookPath_def split: prod.split option.split sum.split)+

lemma returns_Do [simp, intro]: "returns (Do H cl rq)"
  by (rule returnsI) (simp add: Do_def split: sum.split)

lemma returns_compound [simp, intro]: "returns (WriteFile H p s m)" "returns (Get H cl u)"
  by (auto simp: WriteFile_def Get_def)

lemma returns_mkdir_one: "returns (mkdir_one H m p)"
  unfolding mkdir_one_def by (intro returns_intros returns_basic_os)

lemma returns_unless_dir: "returns m \<Longrightarrow> returns (unless_dir H p m)"
  unfolding unless_dir_def by (intro returns_intros returns_basic_os)

lemma returns_mkdir_rec: "returns (mkdir_rec H m r rc)"
proof (induction rc)
  case Nil
  show ?case unfolding mkdir_rec.simps by (intro returns_unless_dir returns_mkdir_one)
next
  case (Cons x xs)
  then show ?case
    unfolding mkdir_rec.simps by (intro returns_unless_dir returns_mkdir_one returns_intros)
qed

lemma returns_tempdir_try: "returns (tempdir_try H n d p e)"
proof (induction n arbitrary: e)
  case 0
  show ?case by (subst tempdir_try.simps) simp
next
  case (Suc n)
  then show ?case
    by (subst tempdir_try.simps) (simp add: Let_def, intro returns_intros returns_basic_os, simp)
qed

lemma returns_dirs [simp, intro]: "returns (MkdirAll H p m)" "returns (TempDir H s)"
  by (auto simp: MkdirAll_def TempDir_def returns_mkdir_rec returns_tempdir_try)

section \<open>Paths\<close>


lemma resolve_Join_plain [path_simps]:
  "list_all plain cs \<Longrightarrow> resolve H (Join (d # cs)) = resolve H d @ cs"
  by (simp add: resolve_def path_simps)

lemma resolve_Clean [path_simps]: "resolve H (Clean p) = resolve H p"
  by (simp add: resolve_def path_simps)

lemma resolve_render: "normal r cs \<Longrightarrow>
    resolve H (render_path r cs) = (if r then cs else clean_comps True (h_cwd H) cs)"
  by (cases r) (simp_all add: resolve_def)

section \<open>Successful calls\<close>

lemma syscall_OkE [ok_elims]:
  assumes "run_state (syscall H op p act) w = (Ok x, w')"
  obtains "p \<noteq> ''''" and "act (resolve H p) (fs w) = (Inr x, fs w')"
  using assms
  by (auto simp: syscall_def Let_def split: option.splits prod.splits sum.splits if_splits)

text \<open>A failed call that changes nothing by itself leaves the tree alone.\<close>

lemma syscall_ErrE:
  assumes "run_state (syscall H op p act) w = (Err e, w')"
  obtains "fs w' = fs w" | en where "act (resolve H p) (fs w) = (Inl en, fs w')"
  using assms
  by (auto simp: syscall_def Let_def split: option.splits prod.splits sum.splits if_splits)

lemma look_Inr: "look f p t = (Inr x, t') \<longleftrightarrow> t' = t \<and> (\<exists>n. lookup t p = Some n \<and> f n = Inr x)"
  by (auto simp: look_def lookup_def split: sum.splits)

lemma Stat_OkE [ok_elims]:
  assumes "run_state (Stat H p) w = (Ok i, w')"
  obtains n where "p \<noteq> ''''" "lookup (fs w) (resolve H p) = Some n" "i = info_of n" "fs w' = fs w"
  using assms by (auto simp: Stat_def look_Inr elim!: syscall_OkE)

lemma ReadFile_OkE [ok_elims]:
  assumes "run_state (ReadFile H p) w = (Ok s, w')"
  obtains m where "p \<noteq> ''''" "lookup (fs w) (resolve H p) = Some (File m s)" "fs w' = fs w"
proof -
  from assms obtain n where *: "p \<noteq> ''''" "lookup (fs w) (resolve H p) = Some n" "file_content n = Inr s" "fs w' = fs w"
    by (auto simp: ReadFile_def look_Inr elim!: syscall_OkE)
  then show thesis using that by (cases n) auto
qed

lemma ReadDir_OkE [ok_elims]:
  assumes "run_state (ReadDir H p) w = (Ok ns, w')"
  obtains m es where "p \<noteq> ''''" "lookup (fs w) (resolve H p) = Some (Folder m es)"
    "ns = sort (remdups (map fst es))" "fs w' = fs w"
proof -
  from assms obtain n where *: "p \<noteq> ''''" "lookup (fs w) (resolve H p) = Some n" "entry_names n = Inr ns" "fs w' = fs w"
    by (auto simp: ReadDir_def look_Inr elim!: syscall_OkE)
  then show thesis using that by (cases n) auto
qed

lemma fs_unchanged_look: "run_state (syscall H op p (look f)) w = (r, w') \<Longrightarrow> fs w' = fs w"
  by (auto simp: syscall_def look_def Let_def split: option.splits prod.splits sum.splits if_splits)

lemma fs_unchanged:
  "run_state (Stat H p) w = (r1, w') \<Longrightarrow> fs w' = fs w"
  "run_state (ReadDir H p) w = (r2, w') \<Longrightarrow> fs w' = fs w"
  "run_state (ReadFile H p) w = (r3, w') \<Longrightarrow> fs w' = fs w"
  by (auto simp: Stat_def ReadDir_def ReadFile_def dest: fs_unchanged_look)

lemma enter_Inr:
  "enter absent f p t = (Inr u, t') \<Longrightarrow>
     \<exists>v. f (lookup t p) = Inr v \<and> t' = put p v t \<and>
       (lookup t p = None \<longrightarrow> p \<noteq> [] \<and> folder_at t (butlast p))"
  by (auto simp: enter_def lookup_def split: sum.splits if_splits)

lemma enter_Inl: "enter absent f p t = (Inl e, t') \<Longrightarrow> t' = t"
  by (auto simp: enter_def split: sum.splits if_splits)

text \<open>Entering a node at a path makes it the node there and changes nothing beside it.\<close>

lemma lookup_put_same:
  assumes "lookup t p = None \<longrightarrow> p \<noteq> [] \<and> folder_at t (butlast p)"
  shows "lookup (put p v t) p = Some v"
proof (cases p rule: rev_cases)
  case Nil
  then show ?thesis by (simp add: put_def)
next
  case (snoc q x)
  then have "folder_at t q"
    using assms lookup_above [of t q x] by (cases "lookup t p") auto
  with snoc show ?thesis by (simp add: put_def lookup_upd_same)
qed

lemma enter_effect:
  assumes "enter absent f p t = (Inr u, t')"
  obtains v where "f (lookup t p) = Inr v" "lookup t' p = Some v" "same_outside [p] t t'"
    "t' = put p v t"
  using enter_Inr [OF assms] lookup_put_same [of t p]
  by (metis list.set_intros(1) prefix_order.refl put_def same_outside_upd)

lemma RemoveAll_OkE [ok_elims]:
  assumes "run_state (RemoveAll H p) w = (Ok u, w')" and "p \<noteq> ''''"
  obtains "lookup (fs w') (resolve H p) = None" "same_outside [resolve H p] (fs w) (fs w')"
    "fs w' = fs w \<or> fs w' = del (resolve H p) (fs w)"
proof -
  let ?c = "resolve H p"
  from assms have "remove_tree ?c (fs w) = (Inr u, fs w')"
    by (auto simp: RemoveAll_def elim!: syscall_OkE)
  then have "fs w' = fs w \<and> lookup (fs w) ?c = None \<or>
      ?c \<noteq> [] \<and> fs w' = del ?c (fs w) \<and> (\<exists>n. lookup (fs w) ?c = Some n)"
    by (auto simp: remove_tree_def lookup_def split: sum.splits if_splits)
    moreover have "lookup (del ?c (fs w)) ?c = None" if "?c \<noteq> []" "lookup (fs w) ?c = Some n" for n
    using that lookup_above [of "fs w" "butlast ?c" "last ?c"]
      lookup_upd_same [of "fs w" "butlast ?c" "last ?c"] by (simp add: del_def)
  moreover have "same_outside [?c] (fs w) (del ?c (fs w))"
    by (simp add: del_def same_outside_upd)
  ultimately show thesis using that by force
qed

section \<open>Creating directories\<close>

text \<open>\<open>dirs_added p t t'\<close>: from \<open>t\<close> to \<open>t'\<close> folders may have appeared on the way to \<open>p\<close>;
  nothing else has changed.\<close>

definition dirs_added :: "string list \<Rightarrow> node \<Rightarrow> node \<Rightarrow> bool" where
  "dirs_added p t t' \<longleftrightarrow>
     (\<forall>q. \<not> prefix q p \<longrightarrow> lookup t' q = lookup t q) \<and>
     (\<forall>q. folder_at t q \<longrightarrow> folder_at t' q) \<and>
     (\<forall>q m s. lookup t q = Some (File m s) \<longrightarrow> lookup t' q = Some (File m s))"

abbreviation adds_dirs :: "string list \<Rightarrow> ('x world_scheme, 'a) state \<Rightarrow> bool" where
  "adds_dirs p m \<equiv> state_io_rel (\<lambda>w w'. dirs_added p (fs w) (fs w')) m"

interpretation added: effect_relation "\<lambda>w w'. dirs_added p (fs w) (fs w')" for p
  by unfold_locales (auto simp: dirs_added_def)

lemma dirs_added_refl [simp]: "dirs_added p t t"
  by (simp add: dirs_added_def)

lemma dirs_added_trans: "dirs_added p t1 t2 \<Longrightarrow> dirs_added p t2 t3 \<Longrightarrow> dirs_added p t1 t3"
  by (simp add: dirs_added_def)

lemma dirs_added_folder: "dirs_added p t t' \<Longrightarrow> folder_at t q \<Longrightarrow> folder_at t' q"
  by (simp add: dirs_added_def)

lemma dirs_added_mono: "prefix p p' \<Longrightarrow> dirs_added p t t' \<Longrightarrow> dirs_added p' t t'"
  unfolding dirs_added_def by (meson prefix_order.trans)

lemma dirs_added_put:
  assumes "lookup t p = None" and "p \<noteq> []" and f: "folder_at t (butlast p)"
  shows "dirs_added p t (put p (Folder m []) t)"
proof -
  let ?t' = "put p (Folder m []) t"
  have at: "lookup ?t' p = Some (Folder m [])"
    using assms by (intro lookup_put_same) auto
  have below: "lookup t q = None \<and> lookup ?t' q = None" if "strict_prefix p q" for q
  proof -
    from that obtain y ys where q: "q = p @ y # ys" by (auto elim: strict_prefixE')
    with at assms(1) show ?thesis by (simp add: lookup_append)
  qed
  have beside: "lookup ?t' q = lookup t q" if "p \<parallel> q" for q
    using that by (simp add: put_def lookup_upd_parallel)
  have above: "folder_at ?t' q = folder_at t q"
    "lookup t q = Some (File m' s) \<Longrightarrow> lookup ?t' q = Some (File m' s)" if "strict_prefix q p" for q m' s
    using lookup_upd_above [OF that, of "\<lambda>_. Some (Folder m [])" t]
    by (auto simp: put_def folder_at_iff)
  have cases: "q = p \<or> strict_prefix p q \<or> strict_prefix q p \<or> p \<parallel> q" for q
    by (auto simp: parallel_def)
  show ?thesis
    unfolding dirs_added_def
  proof (intro conjI allI impI)
    show "lookup ?t' q = lookup t q" if "\<not> prefix q p" for q
      using that cases [of q] below [of q] beside [of q] by auto
    show "folder_at ?t' q" if "folder_at t q" for q
      using that cases [of q] below [of q] beside [of q] above(1) [of q] at
      by (auto simp: folder_at_iff)
    show "lookup ?t' q = Some (File m' s)" if "lookup t q = Some (File m' s)" for q m' s
      using that cases [of q] below [of q] beside [of q] above(2) [of q] assms(1) by auto
  qed
qed

lemma Mkdir_effect:
  assumes "run_state (Mkdir H p m) w = (res, w')"
  shows "dirs_added (resolve H p) (fs w) (fs w') \<and>
    (res = Ok () \<longrightarrow> folder_at (fs w') (resolve H p) \<and> lookup (fs w) (resolve H p) = None)"
proof (cases res)
  case (Ok v)
  from assms [unfolded Ok Mkdir_def]
  have "enter (\<lambda>e. e = ENOENT) (mkdir_entry (created_mode H m)) (resolve H p) (fs w) = (Inr v, fs w')"
    by (rule syscall_OkE)
  from enter_Inr [OF this]
  have n: "lookup (fs w) (resolve H p) = None"
    and f: "fs w' = put (resolve H p) (Folder (created_mode H m) []) (fs w)"
      "resolve H p \<noteq> []" "folder_at (fs w) (butlast (resolve H p))"
    by (cases "lookup (fs w) (resolve H p)"; simp)+
  moreover from f n have "lookup (fs w') (resolve H p) = Some (Folder (created_mode H m) [])"
    by (simp add: lookup_put_same)
  ultimately show ?thesis
    using dirs_added_put [of "fs w" "resolve H p"] Ok by (auto simp: folder_at_iff)
next
  case (Err e)
  from assms [unfolded Err Mkdir_def] have "fs w' = fs w"
    by (elim syscall_ErrE) (auto dest: enter_Inl)
  with Err show ?thesis by auto
qed (use assms in \<open>auto simp: Mkdir_def syscall_def Let_def split: option.splits prod.splits sum.splits if_splits\<close>)

lemma Stat_dir_OkE:
  assumes "run_state (Stat H p) w = (Ok i, w')" and "fi_isDir i"
  shows "folder_at (fs w) (resolve H p)"
proof -
  obtain n where "lookup (fs w) (resolve H p) = Some n" "i = info_of n"
    using assms(1) by (rule Stat_OkE)
  with assms(2) show ?thesis by (cases n) (auto simp: folder_at_iff)
qed

lemma Stat_adds: "adds_dirs q (Stat H p)"
  by (rule state_io_relI) (simp add: fs_unchanged(1))

lemma mkdir_one_effect:
  assumes "run_state (mkdir_one H m p) w = (res, w')"
  shows "dirs_added (resolve H p) (fs w) (fs w') \<and> (res = Ok () \<longrightarrow> folder_at (fs w') (resolve H p))"
proof -
  obtain r1 w1 where 1: "run_state (Mkdir H p m) w = (r1, w1)" by fastforce
  note M = Mkdir_effect [OF 1]
  show ?thesis
  proof (cases r1)
    case (Err e)
    obtain r2 w2 where 2: "run_state (Stat H p) w1 = (r2, w2)" by fastforce
    from fs_unchanged(1) [OF 2] have "fs w2 = fs w1" .
    with assms 1 2 Err M show ?thesis
      by (cases r2) (auto simp: mkdir_one_def dest: Stat_dir_OkE split: if_splits)
  qed (use assms 1 M in \<open>auto simp: mkdir_one_def\<close>)
qed

lemma unless_dir_effect:
  assumes "run_state (unless_dir H p m) w = (res, w')"
    and step: "\<And>w w' res. run_state m w = (res, w') \<Longrightarrow> dirs_added q (fs w) (fs w') \<and>
      (res = Ok () \<longrightarrow> folder_at (fs w') q)"
    and q: "q = resolve H p"
  shows "dirs_added q (fs w) (fs w') \<and> (res = Ok () \<longrightarrow> folder_at (fs w') q)"
proof -
  obtain r1 w1 where 1: "run_state (Stat H p) w = (r1, w1)" by fastforce
  have f: "fs w1 = fs w" using 1 by (rule fs_unchanged)
  show ?thesis
  proof (cases r1)
    case (Err e)
    with assms(1) 1 have "run_state m w1 = (res, w')" by (simp add: unless_dir_def)
    from step [OF this] f show ?thesis by simp
  next
    case (Ok i)
    with assms(1) 1 f q show ?thesis
      by (auto simp: unless_dir_def dest: Stat_dir_OkE split: if_splits)
  qed (use assms(1) 1 f in \<open>auto simp: unless_dir_def\<close>)
qed

definition path_base :: "host \<Rightarrow> bool \<Rightarrow> string list" where
  "path_base H r = (if r then [] else h_cwd H)"

lemma resolve_path_string:
  "list_all plain rc \<Longrightarrow> resolve H (path_string r rc) = path_base H r @ rev rc"
  by (simp add: path_string_def path_base_def resolve_render normal_plain clean_comps_plain)


lemma mkdir_rec_effect:
  fixes w w' :: "'x world_scheme"
  shows "list_all plain rc \<Longrightarrow> run_state (mkdir_rec H m r rc) w = (res, w') \<Longrightarrow>
   dirs_added (path_base H r @ rev rc) (fs w) (fs w') \<and>
   (res = Ok () \<longrightarrow> folder_at (fs w') (path_base H r @ rev rc))"
proof (induction rc arbitrary: w res w')
  case Nil
  from Nil.prems(2) have "run_state (unless_dir H (path_string r []) (mkdir_one H m (path_string r []))) w = (res, w')"
    by simp
  then show ?case
    by (rule unless_dir_effect)
       (use mkdir_one_effect [of H m "path_string r []"] in \<open>simp_all add: resolve_path_string\<close>)
next
  case (Cons x xs)
  let ?p = "path_string r (x # xs)"
  have q: "path_base H r @ rev (x # xs) = resolve H ?p"
    by (rule resolve_path_string [OF Cons.prems(1), symmetric])
  have pre: "prefix (path_base H r @ rev xs) (resolve H ?p)"
    unfolding q [symmetric] by simp
  have one: "dirs_added (resolve H ?p) (fs v) (fs v') \<and> (rs = Ok () \<longrightarrow> folder_at (fs v') (resolve H ?p))"
    if "run_state (mkdir_one H m ?p) v = (rs, v')" for v v' :: "'x world_scheme" and rs
    using mkdir_one_effect [OF that] .
  have rest: "dirs_added (resolve H ?p) (fs v) (fs v') \<and> (rs = Ok () \<longrightarrow> folder_at (fs v') (resolve H ?p))"
    if run: "run_state (attempt (mkdir_rec H m r xs) id (\<lambda>_. mkdir_one H m ?p)) v = (rs, v')" for v v' :: "'x world_scheme" and rs
  proof -
    obtain r1 v1 where 1: "run_state (mkdir_rec H m r xs) v = (r1, v1)" by fastforce
    have IH: "dirs_added (resolve H ?p) (fs v) (fs v1)"
      using Cons.IH [OF _ 1] Cons.prems(1) pre by (auto intro: dirs_added_mono)
    with run 1 one [of v1 rs v'] show ?thesis
      by (cases r1) (auto intro: dirs_added_trans [of _ "fs v" "fs v1" "fs v'"])
  qed
  from Cons.prems(2) show ?case
    unfolding q mkdir_rec.simps(2)
    by (rule unless_dir_effect) (use one rest in \<open>auto split: if_splits\<close>)
qed

text \<open>The paths given to \<^verbatim>\<open>MkdirAll\<close> must not climb out of the working directory: rooted
  ones never do.\<close>

lemma MkdirAll_effect:
  assumes "run_state (MkdirAll H p m) w = (res, w')" and "list_all plain (path_comps p)"
  shows "dirs_added (resolve H p) (fs w) (fs w') \<and>
    (res = Ok () \<longrightarrow> p \<noteq> '''' \<and> folder_at (fs w') (resolve H p))"
proof (cases "p = ''''")
  case True
  with assms(1) show ?thesis by (auto simp: MkdirAll_def)
next
  case False
  have r: "resolve H p = path_base H (rooted p) @ rev (rev (path_comps p))"
    using assms(2) by (auto simp: resolve_def path_base_def clean_comps_plain)
  from False assms mkdir_rec_effect [of "rev (path_comps p)" H m "rooted p" w res w'] show ?thesis
    unfolding r by (simp add: MkdirAll_def)
qed

lemma rooted_plain_comps: "rooted p \<Longrightarrow> list_all plain (path_comps p)"
  using normal_path_comps [of p] by (auto simp: normal_def)

end
