(* ===== verification/Samples.thy ===== *)
theory Samples
  imports OSFacts
begin

text \<open>
  Concrete machines on which the properties of the development are instantiated: a host on
  which nothing fails, a small file tree, and a configuration with one buildpack.
\<close>

definition sample_host :: host where
  "sample_host =
     \<lparr>h_env = (\<lambda>_. None), h_cwd = [''work''], h_umask = 0x12, h_fault = (\<lambda>_ _ _. None),
      h_rand = (\<lambda>_. ''1''), h_nanos = (\<lambda>_. 7),
      h_exec = (\<lambda>_ _ t. ((''done'', None), t)),
      h_lookPath = (\<lambda>p _. Inr (''/bin/'' @ p)),
      h_http = (\<lambda>_ _ _. Inr (200, [(''data'', Some EOF)])),
      h_urlParse = (\<lambda>u. Inr \<lparr>url_base = u, Fragment = ''''\<rparr>),
      h_tls = (\<lambda>_ _. None), h_zip = (\<lambda>_. Inr []),
      h_log10 = (\<lambda>n. length (show_nat n) - 1),
      h_yamlConfig = (\<lambda>_. Inr (''n'', ''v'')), h_yamlProcfile = (\<lambda>_. Inr (Some [])),
      h_yamlRelease = (\<lambda>_. Inr None), h_jsonError = (\<lambda>_. ''bad''), h_quote = (\<lambda>s. s)\<rparr>"

definition sample_world :: world where
  "sample_world = \<lparr>fs = Folder perm_0755
     [(''tmp'', Folder perm_0777 []),
      (''cache'', Folder perm_0755 [(''old'', File perm_0644 ''x'')]),
      (''keep'', File perm_0644 ''data''),
      (''app'', Folder perm_0755 []),
      (''out'', Folder perm_0755 [(''d.tgz'', File perm_0644 ''droplet'')]),
      (''bp'', Folder perm_0755 [(''0cc175b9c0f1b6a831c399e269772661'', Folder perm_0755
        [(''bin'', Folder perm_0755 (map (\<lambda>n. (n, File perm_0755 ''script''))
          [''detect'', ''supply'', ''finalize'', ''release'']))])])],
     trace = [], clock = 0\<rparr>"

end
