(* ===== verification/Hashes.thy ===== *)
theory Hashes
  imports Prelude
begin

text \<open>
  The two digests the program computes: \<^verbatim>\<open>crypto/md5\<close> (RFC 1321), which names the
  directory of a buildpack, and \<^verbatim>\<open>crypto/sha256\<close> (FIPS 180-4), which checks a downloaded
  build cache. A \<^verbatim>\<open>hash.Hash\<close> object absorbs what is written to it; the locale says what
  its clients rely on.
\<close>

unbundle bit_operations_syntax

type_synonym word32 = "32 word"

section \<open>Blocks\<close>

fun chunks :: "nat \<Rightarrow> 'a list \<Rightarrow> 'a list list" where
  "chunks n [] = []"
| "chunks n (x # xs) = (x # take (n - 1) xs) # chunks n (drop (n - 1) xs)"

text \<open>Both digests pad with a one bit, zeros, and the bit length in eight bytes.\<close>

definition length_bytes :: "nat \<Rightarrow> bytes" where
  "length_bytes n = map (\<lambda>i. ucast (drop_bit (8 * i) (word_of_nat n :: 64 word))) [0..<8]"

definition pad_zeros :: "nat \<Rightarrow> nat" where
  "pad_zeros n = (55 + 64 - n mod 64) mod 64"

definition le_word :: "bytes \<Rightarrow> word32" where
  "le_word bs = foldr (\<lambda>b acc. acc * 256 + ucast b) bs 0"

definition be_word :: "bytes \<Rightarrow> word32" where
  "be_word bs = foldl (\<lambda>acc b. acc * 256 + ucast b) 0 bs"

definition byte_at :: "nat \<Rightarrow> word32 \<Rightarrow> 8 word" where
  "byte_at i w = ucast (drop_bit (8 * i) w)"

definition rotl32 :: "nat \<Rightarrow> word32 \<Rightarrow> word32" where
  "rotl32 n x = push_bit n x OR drop_bit (32 - n) x"

section \<open>MD5\<close>

type_synonym md5_state = "word32 \<times> word32 \<times> word32 \<times> word32"

definition md5_K :: "word32 list" where
  "md5_K = [
     0xd76aa478, 0xe8c7b756, 0x242070db, 0xc1bdceee, 0xf57c0faf, 0x4787c62a, 0xa8304613, 0xfd469501,
     0x698098d8, 0x8b44f7af, 0xffff5bb1, 0x895cd7be, 0x6b901122, 0xfd987193, 0xa679438e, 0x49b40821,
     0xf61e2562, 0xc040b340, 0x265e5a51, 0xe9b6c7aa, 0xd62f105d, 0x02441453, 0xd8a1e681, 0xe7d3fbc8,
     0x21e1cde6, 0xc33707d6, 0xf4d50d87, 0x455a14ed, 0xa9e3e905, 0xfcefa3f8, 0x676f02d9, 0x8d2a4c8a,
     0xfffa3942, 0x8771f681, 0x6d9d6122, 0xfde5380c, 0xa4beea44, 0x4bdecfa9, 0xf6bb4b60, 0xbebfbc70,
     0x289b7ec6, 0xeaa127fa, 0xd4ef3085, 0x04881d05, 0xd9d4d039, 0xe6db99e5, 0x1fa27cf8, 0xc4ac5665,
     0xf4292244, 0x432aff97, 0xab9423a7, 0xfc93a039, 0x655b59c3, 0x8f0ccc92, 0xffeff47d, 0x85845dd1,
     0x6fa87e4f, 0xfe2ce6e0, 0xa3014314, 0x4e0811a1, 0xf7537e82, 0xbd3af235, 0x2ad7d2bb, 0xeb86d391]"

definition md5_shift :: "nat list" where
  "md5_shift = concat (replicate 4 [7, 12, 17, 22]) @ concat (replicate 4 [5, 9, 14, 20]) @
     concat (replicate 4 [4, 11, 16, 23]) @ concat (replicate 4 [6, 10, 15, 21])"

definition md5_mix :: "nat \<Rightarrow> word32 \<Rightarrow> word32 \<Rightarrow> word32 \<Rightarrow> word32" where
  "md5_mix i b c d =
     (if i < 16 then (b AND c) OR (NOT b AND d)
      else if i < 32 then (d AND b) OR (NOT d AND c)
      else if i < 48 then b XOR c XOR d
      else c XOR (b OR NOT d))"

definition md5_index :: "nat \<Rightarrow> nat" where
  "md5_index i =
     (if i < 16 then i
      else if i < 32 then (5 * i + 1) mod 16
      else if i < 48 then (3 * i + 5) mod 16
      else (7 * i) mod 16)"

definition md5_round :: "word32 list \<Rightarrow> nat \<Rightarrow> md5_state \<Rightarrow> md5_state" where
  "md5_round m i st = (case st of (a, b, c, d) \<Rightarrow>
     (d, b + rotl32 (md5_shift ! i) (a + md5_mix i b c d + md5_K ! i + m ! md5_index i), b, c))"

definition md5_block :: "bytes \<Rightarrow> md5_state \<Rightarrow> md5_state" where
  "md5_block blk st =
     (case (fold (md5_round (map le_word (chunks 4 blk))) [0..<64] st, st) of
        ((a, b, c, d), (a0, b0, c0, d0)) \<Rightarrow> (a0 + a, b0 + b, c0 + c, d0 + d))"

definition md5_Sum :: "bytes \<Rightarrow> bytes" where
  "md5_Sum msg =
     (let n = length msg;
          padded = msg @ [0x80] @ replicate (pad_zeros n) 0 @ length_bytes (8 * n)
      in case fold md5_block (chunks 64 padded) (0x67452301, 0xefcdab89, 0x98badcfe, 0x10325476) of
           (a, b, c, d) \<Rightarrow> concat (map (\<lambda>w. map (\<lambda>i. byte_at i w) [0..<4]) [a, b, c, d]))"

lemma length_md5_Sum [simp]: "length (md5_Sum msg) = 16"
  by (simp add: md5_Sum_def Let_def eval_nat_numeral split: prod.split)

text \<open>The test vector of RFC 1321 for the message \<^verbatim>\<open>a\<close>, evaluated by the kernel.\<close>

lemma md5_a: "hex_string (md5_Sum (string_to_bytes ''a'')) = ''0cc175b9c0f1b6a831c399e269772661''"
  by code_simp

section \<open>SHA-256\<close>

definition sha256_K :: "word32 list" where
  "sha256_K = [
     0x428a2f98, 0x71374491, 0xb5c0fbcf, 0xe9b5dba5, 0x3956c25b, 0x59f111f1, 0x923f82a4, 0xab1c5ed5,
     0xd807aa98, 0x12835b01, 0x243185be, 0x550c7dc3, 0x72be5d74, 0x80deb1fe, 0x9bdc06a7, 0xc19bf174,
     0xe49b69c1, 0xefbe4786, 0x0fc19dc6, 0x240ca1cc, 0x2de92c6f, 0x4a7484aa, 0x5cb0a9dc, 0x76f988da,
     0x983e5152, 0xa831c66d, 0xb00327c8, 0xbf597fc7, 0xc6e00bf3, 0xd5a79147, 0x06ca6351, 0x14292967,
     0x27b70a85, 0x2e1b2138, 0x4d2c6dfc, 0x53380d13, 0x650a7354, 0x766a0abb, 0x81c2c92e, 0x92722c85,
     0xa2bfe8a1, 0xa81a664b, 0xc24b8b70, 0xc76c51a3, 0xd192e819, 0xd6990624, 0xf40e3585, 0x106aa070,
     0x19a4c116, 0x1e376c08, 0x2748774c, 0x34b0bcb5, 0x391c0cb3, 0x4ed8aa4a, 0x5b9cca4f, 0x682e6ff3,
     0x748f82ee, 0x78a5636f, 0x84c87814, 0x8cc70208, 0x90befffa, 0xa4506ceb, 0xbef9a3f7, 0xc67178f2]"

definition rotr32 :: "nat \<Rightarrow> word32 \<Rightarrow> word32" where
  "rotr32 n x = rotl32 (32 - n) x"

text \<open>The message schedule, latest word first.\<close>

fun sha256_schedule :: "nat \<Rightarrow> word32 list \<Rightarrow> word32 list" where
  "sha256_schedule 0 ws = ws"
| "sha256_schedule (Suc n) ws =
     (let w15 = ws ! 14; w2 = ws ! 1;
          s0 = rotr32 7 w15 XOR rotr32 18 w15 XOR drop_bit 3 w15;
          s1 = rotr32 17 w2 XOR rotr32 19 w2 XOR drop_bit 10 w2
      in sha256_schedule n ((ws ! 15 + s0 + ws ! 6 + s1) # ws))"

definition sha256_round :: "word32 \<times> word32 \<Rightarrow> word32 list \<Rightarrow> word32 list" where
  "sha256_round kw st =
     (case st of [a, b, c, d, e, f, g, h] \<Rightarrow>
        (let s1 = rotr32 6 e XOR rotr32 11 e XOR rotr32 25 e;
             ch = (e AND f) XOR (NOT e AND g);
             t1 = h + s1 + ch + fst kw + snd kw;
             s0 = rotr32 2 a XOR rotr32 13 a XOR rotr32 22 a;
             mj = (a AND b) XOR (a AND c) XOR (b AND c)
         in [t1 + s0 + mj, a, b, c, d + t1, e, f, g])
      | _ \<Rightarrow> st)"

definition sha256_block :: "bytes \<Rightarrow> word32 list \<Rightarrow> word32 list" where
  "sha256_block blk st =
     (let ws = rev (sha256_schedule 48 (rev (map be_word (chunks 4 blk))))
      in map2 (+) st (fold sha256_round (zip sha256_K ws) st))"

definition sha256_Sum :: "bytes \<Rightarrow> bytes" where
  "sha256_Sum msg =
     (let n = length msg;
          padded = msg @ [0x80] @ replicate (pad_zeros n) 0 @ rev (length_bytes (8 * n))
      in concat (map (\<lambda>w. map (\<lambda>i. byte_at (3 - i) w) [0..<4])
           (fold sha256_block (chunks 64 padded)
              [0x6a09e667, 0xbb67ae85, 0x3c6ef372, 0xa54ff53a, 0x510e527f, 0x9b05688c, 0x1f83d9ab, 0x5be0cd19])))"

text \<open>A \<^verbatim>\<open>hash.Hash\<close> that has absorbed \<open>h\<close>: \<^verbatim>\<open>Write\<close> appends, \<^verbatim>\<open>Sum(nil)\<close> is the digest of
  everything written.\<close>

definition sha256_Write :: "bytes \<Rightarrow> string \<Rightarrow> bytes" where
  "sha256_Write h p = h @ string_to_bytes p"

definition sha256_New :: bytes where
  "sha256_New = []"

lemma sha256_absorbs: "foldl sha256_Write h cs = h @ string_to_bytes (concat cs)"
  by (induction cs arbitrary: h) (simp_all add: sha256_Write_def string_to_bytes_def)

end
