(* ===== verification/Config.thy ===== *)
theory Config
  imports Models Samples Hashes
begin

text \<open>
  \<^verbatim>\<open>builder/config.go\<close> and \<^verbatim>\<open>builder/helpers.go\<close>: the configuration of a staging run, which
  buildpacks supply and which one is final, the index strings of the dependency directories,
  and the directory a buildpack is installed in.
\<close>

section \<open>The configuration\<close>

record Config =
  BuildDir :: string
  BuildpacksDir :: string
  OutputDropletLocation :: string
  OutputBuildArtifactsCache :: string
  OutputMetadataLocation :: string
  BuildpackOrder :: "string list"
  SkipDetect :: bool
  BuildArtifactsCache :: string

text \<open>The body of the loop over the unmarshalled buildpacks.\<close>

definition add_buildpack :: "Buildpack \<Rightarrow> Config \<Rightarrow> Config" where
  "add_buildpack b s = s\<lparr>BuildpackOrder := BuildpackOrder s @ [bp_Name b],
     SkipDetect := SkipDetect s \<and> bp_SkipDetect b\<rparr>"

text \<open>The receiver is unchanged when an error is returned.\<close>

definition InitBuildpacks :: "host \<Rightarrow> string \<Rightarrow> Config \<Rightarrow> go_error + Config" where
  "InitBuildpacks H buildpacksJSON s =
     (if buildpacksJSON \<noteq> '''' then
        (case Unmarshal decode_Buildpacks None buildpacksJSON of
           None \<Rightarrow> Inl (ErrorfW ''failed to unmarshal buildpack JSON'' (External (h_jsonError H buildpacksJSON)))
         | Some buildpacks \<Rightarrow>
             let bs = (case buildpacks of None \<Rightarrow> [] | Some bs \<Rightarrow> bs) in
             if length bs > 0 then Inr (fold add_buildpack bs (s\<lparr>SkipDetect := True\<rparr>))
             else Inr s)
      else Inr s)"

definition BuildArtifactsCacheDir :: "Config \<Rightarrow> string" where
  "BuildArtifactsCacheDir s = BuildArtifactsCache s"

definition SupplyBuildpacks :: "Config \<Rightarrow> string list" where
  "SupplyBuildpacks s =
     (let numBuildpacks = length (BuildpackOrder s) in
      if \<not> SkipDetect s \<or> numBuildpacks = 0 then []
      else take (numBuildpacks - 1) (BuildpackOrder s))"

text \<open>\<open>h_log10 H n\<close> is \<^verbatim>\<open>int(math.Log10(float64(n)))\<close>, a rounded floating-point
  logarithm.\<close>

definition DepsIndex :: "host \<Rightarrow> Config \<Rightarrow> nat \<Rightarrow> string" where
  "DepsIndex H s i =
     (let numBuildpacks = length (SupplyBuildpacks s) + 1;
          padDigits = h_log10 H numBuildpacks + 1
      in pad_zero padDigits (show_nat i))"

definition BuildpackPath :: "string \<Rightarrow> string \<Rightarrow> string" where
  "BuildpackPath baseDir buildpackName =
     Join [baseDir, hex_string (md5_Sum (string_to_bytes buildpackName))]"

definition logError :: "string \<Rightarrow> ('x world_scheme, unit) go" where
  "logError message = effect (log_Println message)"

definition fileExists :: "host \<Rightarrow> string \<Rightarrow> ('x world_scheme, bool) go" where
  "fileExists H file = on_err (Stat H file)
     (\<lambda>e. if IsNotExist e then ok False else fail (ErrorfW ''error stat'ing file'' e))
     (\<lambda>_. ok True)"

definition hasFinalize :: "host \<Rightarrow> string \<Rightarrow> ('x world_scheme, bool) go" where
  "hasFinalize H buildpackPath = fileExists H (Join [buildpackPath, ''bin'', ''finalize''])"

definition hasSupply :: "host \<Rightarrow> string \<Rightarrow> ('x world_scheme, bool) go" where
  "hasSupply H buildpackPath = fileExists H (Join [buildpackPath, ''bin'', ''supply''])"

text \<open>A configuration for the instances of the properties.\<close>

definition sample_Config :: Config where
  "sample_Config = \<lparr>BuildDir = ''/app'', BuildpacksDir = ''/bp'', OutputDropletLocation = ''/out/d.tgz'',
     OutputBuildArtifactsCache = ''/outc/c.tgz'', OutputMetadataLocation = ''/out/r.json'',
     BuildpackOrder = [], SkipDetect = False, BuildArtifactsCache = ''/cache''\<rparr>"

section \<open>Buildpack selection\<close>

lemma fold_add_buildpack:
  "fold add_buildpack bs s =
     s\<lparr>BuildpackOrder := BuildpackOrder s @ map bp_Name bs,
       SkipDetect := SkipDetect s \<and> list_all bp_SkipDetect bs\<rparr>"
  by (induction bs arbitrary: s) (simp_all add: add_buildpack_def)

lemma InitBuildpacks_Inr:
  "InitBuildpacks H json s = Inr s' \<Longrightarrow>
   s' = s \<or> (\<exists>bs :: Buildpack list. bs \<noteq> [] \<and> s' = s\<lparr>BuildpackOrder := BuildpackOrder s @ map bp_Name bs,
     SkipDetect := list_all bp_SkipDetect bs\<rparr>)"
  by (auto simp: InitBuildpacks_def Let_def fold_add_buildpack split: if_splits option.splits)

lemma SupplyBuildpacks_butlast:
  "SupplyBuildpacks s = (if SkipDetect s then butlast (BuildpackOrder s) else [])"
  by (simp add: SupplyBuildpacks_def butlast_conv_take)

lemma final_buildpack:
  "SkipDetect s \<Longrightarrow> BuildpackOrder s \<noteq> [] \<Longrightarrow>
   length (SupplyBuildpacks s) < length (BuildpackOrder s) \<and>
   BuildpackOrder s ! length (SupplyBuildpacks s) = last (BuildpackOrder s)"
  by (simp add: SupplyBuildpacks_butlast last_conv_nth)

section \<open>Index strings\<close>

text \<open>What the program relies on of the rounded logarithm: it is the integer logarithm, or
  one less at an exact power of ten, where \<^verbatim>\<open>math.Log10\<close> may round below the integer.\<close>

definition log10_ok :: "host \<Rightarrow> nat \<Rightarrow> bool" where
  "log10_ok H n \<longleftrightarrow> 10 ^ h_log10 H n \<le> n \<and> n \<le> 10 ^ (h_log10 H n + 1)"

lemma pad_zero_length: "length s \<le> w \<Longrightarrow> length (pad_zero w s) = w"
  by (simp add: pad_zero_def)

lemma DepsIndex_inject: "DepsIndex H s i = DepsIndex H s j \<Longrightarrow> i = j"
  unfolding DepsIndex_def Let_def by (metis parse_pad_zero)

lemma DepsIndex_length:
  assumes "log10_ok H (length (SupplyBuildpacks s) + 1)" and "i \<le> length (SupplyBuildpacks s)"
  shows "length (DepsIndex H s i) = h_log10 H (length (SupplyBuildpacks s) + 1) + 1"
proof -
  have "i < 10 ^ (h_log10 H (length (SupplyBuildpacks s) + 1) + 1)"
    using assms by (simp add: log10_ok_def)
  then have "length (show_nat i) \<le> h_log10 H (length (SupplyBuildpacks s) + 1) + 1"
    by (intro length_show_nat) simp_all
  then show ?thesis by (simp add: DepsIndex_def Let_def pad_zero_length)
qed

lemma digit_not_special:
  assumes "s \<noteq> ''''" and "\<forall>c \<in> set s. (48::nat) \<le> of_char c"
  shows "plain s"
proof -
  have "(of_char (CHR ''.'') :: nat) < 48" "(of_char (CHR ''/'') :: nat) < 48" by simp_all
  with assms(2) have "CHR ''.'' \<notin> set s" "CHR ''/'' \<notin> set s" by force+
  with assms(1) show ?thesis by (auto simp: plain_def)
qed

lemma pad_zero_chars: "c \<in> set (pad_zero w (show_nat n)) \<Longrightarrow> 48 \<le> (of_char c :: nat) \<and> (of_char c :: nat) < 58"
  using show_nat_digits [of c n] by (auto simp: pad_zero_def)

lemma plain_DepsIndex [simp]: "plain (DepsIndex H s i)"
proof (rule digit_not_special)
  show "DepsIndex H s i \<noteq> ''''" by (simp add: DepsIndex_def Let_def pad_zero_def)
  show "\<forall>c \<in> set (DepsIndex H s i). (48::nat) \<le> of_char c"
    using pad_zero_chars by (auto simp: DepsIndex_def Let_def)
qed

section \<open>Buildpack directories\<close>

definition buildpack_dir_name :: "string \<Rightarrow> string" where
  "buildpack_dir_name name = hex_string (md5_Sum (string_to_bytes name))"

lemma plain_hex_string: "bs \<noteq> [] \<Longrightarrow> plain (hex_string bs)"
proof (rule digit_not_special)
  assume "bs \<noteq> []"
  then show "hex_string bs \<noteq> ''''" by (cases bs) (auto simp: hex_string_def hex_byte_def)
  show "\<forall>c \<in> set (hex_string bs). (48::nat) \<le> of_char c"
    using hex_string_chars [of _ bs] by force
qed

lemma plain_buildpack_dir_name [simp]: "plain (buildpack_dir_name name)"
proof -
  have "length (md5_Sum (string_to_bytes name)) \<noteq> 0" by simp
  then have "md5_Sum (string_to_bytes name) \<noteq> []" by fastforce
  then show ?thesis by (simp add: buildpack_dir_name_def plain_hex_string)
qed

lemma BuildpackPath_Join: "BuildpackPath d name = Join [d, buildpack_dir_name name]"
  by (simp add: BuildpackPath_def buildpack_dir_name_def)

lemma BuildpackPath_comps [path_simps]:
  "path_comps (BuildpackPath d name) = path_comps d @ [buildpack_dir_name name]"
  "rooted (BuildpackPath d name) = rooted d"
  by (simp_all add: BuildpackPath_Join path_simps)

lemma BuildpackPath_nonempty [simp]: "BuildpackPath d name \<noteq> ''''"
  by (simp add: BuildpackPath_Join Join_two_nonempty)

section \<open>Effects\<close>

lemma quiet_fileExists [effect_intros]: "quiet (fileExists H f)"
  unfolding fileExists_def by (auto intro!: quiet.within_intros effect_intros)

lemma quiet_has [effect_intros]: "quiet (hasSupply H p)" "quiet (hasFinalize H p)"
  unfolding hasSupply_def hasFinalize_def by (rule quiet_fileExists)+

lemma fileExists_OkE [ok_elims]:
  assumes "run_state (fileExists H f) w = (Ok b, w')"
  obtains "fs w' = fs w" and "b \<Longrightarrow> \<exists>n. lookup (fs w) (resolve H f) = Some n"
  using assms
  by (auto simp: fileExists_def split: prod.splits result.splits if_splits
      dest: fs_unchanged elim!: Stat_OkE)

text \<open>The digest of one short name, so that the instances below evaluate quickly.\<close>

lemma BuildpackPath_code [code]:
  "BuildpackPath d name =
     Join [d, if name = ''a'' then ''0cc175b9c0f1b6a831c399e269772661''
              else hex_string (md5_Sum (string_to_bytes name))]"
  by (simp add: BuildpackPath_def md5_a)

section \<open>Properties\<close>

lemma Marshal_slice_nonempty: "Marshal (encode_slice enc) (Some xs) \<noteq> ''''"
  by (simp add: Marshal_def encode_slice_def)

text \<open>C23: The buildpacks JSON that the program itself writes is read back by
  \<^verbatim>\<open>InitBuildpacks\<close> as the configuration it stands for: the names are appended to the order, and
  detection is skipped exactly when there is a buildpack and every buildpack asks for it (with
  no buildpack the setting stays as it was).\<close>

theorem InitBuildpacks_chooses:
  assumes "list_all wf_Buildpack bs"
  shows "InitBuildpacks H (Marshal (encode_slice encode_Buildpack) (Some bs)) s =
    Inr (s\<lparr>BuildpackOrder := BuildpackOrder s @ map bp_Name bs,
           SkipDetect := (if bs = [] then SkipDetect s else list_all bp_SkipDetect bs)\<rparr>)"
proof -
  have "Unmarshal decode_Buildpacks None (Marshal (encode_slice encode_Buildpack) (Some bs)) = Some (id (Some bs))"
    using assms by (intro Buildpacks_codec.Unmarshal_Marshal) simp
  then show ?thesis
    by (auto simp: InitBuildpacks_def Marshal_slice_nonempty fold_add_buildpack Let_def)
qed

lemma InitBuildpacks_chooses_witness:
  "InitBuildpacks sample_host (Marshal (encode_slice encode_Buildpack)
       (Some [zero_Buildpack\<lparr>bp_Name := ''a'', bp_SkipDetect := True\<rparr>])) sample_Config =
     Inr (sample_Config\<lparr>BuildpackOrder := [''a''], SkipDetect := True\<rparr>)"
  using InitBuildpacks_chooses [of "[zero_Buildpack\<lparr>bp_Name := ''a'', bp_SkipDetect := True\<rparr>]" sample_host sample_Config]
  by (simp add: wf_Buildpack_def zero_Buildpack_def sample_Config_def)

text \<open>C24: When detection is skipped after \<^verbatim>\<open>InitBuildpacks\<close> there is a final buildpack: the order
  is the supplying buildpacks, in their order, followed by the one at the index that
  \<^verbatim>\<open>runSupplyBuildpacks\<close> takes for the final one. So that index expression cannot panic,
  whatever the buildpacks JSON says.\<close>

theorem InitBuildpacks_final:
  assumes "InitBuildpacks H json s = Inr s'" and "\<not> SkipDetect s" and "SkipDetect s'"
  shows "BuildpackOrder s' = SupplyBuildpacks s' @ [BuildpackOrder s' ! length (SupplyBuildpacks s')]"
proof -
  have "BuildpackOrder s' \<noteq> []"
    using InitBuildpacks_Inr [OF assms(1)] assms(2,3) by auto
  with final_buildpack [OF assms(3)] assms(3) show ?thesis
    by (simp add: SupplyBuildpacks_butlast)
qed

lemma InitBuildpacks_final_witness:
  "[''a'', ''b''] = SupplyBuildpacks (sample_Config\<lparr>BuildpackOrder := [''a'', ''b''], SkipDetect := True\<rparr>)
     @ [[''a'', ''b''] ! 1]"
proof -
  let ?s = "sample_Config\<lparr>BuildpackOrder := [''a'', ''b''], SkipDetect := True\<rparr>"
  let ?json = "''[{\"name\":\"a\",\"skip_detect\":true},{\"name\":\"b\",\"skip_detect\":true}]''"
  have "InitBuildpacks sample_host ?json sample_Config = Inr ?s"
    by code_simp
  from InitBuildpacks_final [OF this] show ?thesis
    by (simp add: sample_Config_def SupplyBuildpacks_def)
qed

text \<open>C35: The index strings of the dependency directories all have the same length and sort, as
  strings, in the order of the buildpacks, so that a directory listing shows the
  dependencies in supply order; in particular no two buildpacks share a directory.\<close>

theorem DepsIndex_sorted:
  assumes "log10_ok H (length (SupplyBuildpacks s) + 1)"
    and "i < j" and "j \<le> length (SupplyBuildpacks s)"
  shows "length (DepsIndex H s i) = length (DepsIndex H s j) \<and> DepsIndex H s i < DepsIndex H s j"
proof
  show len: "length (DepsIndex H s i) = length (DepsIndex H s j)"
    using assms by (simp add: DepsIndex_length)
  have "digits (DepsIndex H s k)" for k
    using pad_zero_chars by (auto simp: digits_def DepsIndex_def Let_def)
  moreover have "parse_dec 0 (DepsIndex H s k) = k" for k
    by (simp add: DepsIndex_def Let_def parse_pad_zero)
  ultimately show "DepsIndex H s i < DepsIndex H s j"
    using len assms(2) by (intro digits_less) simp_all
qed

lemma DepsIndex_sorted_witness:
  "DepsIndex sample_host (sample_Config\<lparr>BuildpackOrder := replicate 11 ''a'', SkipDetect := True\<rparr>) 9
   < DepsIndex sample_host (sample_Config\<lparr>BuildpackOrder := replicate 11 ''a'', SkipDetect := True\<rparr>) 10"
proof -
  let ?s = "sample_Config\<lparr>BuildpackOrder := replicate 11 ''a'', SkipDetect := True\<rparr>"
  have n: "length (SupplyBuildpacks ?s) = 10" by (simp add: SupplyBuildpacks_def)
  have "log10_ok sample_host 11" by code_simp
  then show ?thesis
    by (intro DepsIndex_sorted [THEN conjunct2]) (simp_all add: n)
qed

lemma length_buildpack_dir_name: "length (buildpack_dir_name name) = 32"
  by (simp add: buildpack_dir_name_def)

text \<open>A buildpack is installed, cached and looked up in a direct subdirectory of the given
  base directory whose name has 32 characters and no slash or dot, whatever the buildpack
  is called; two buildpacks get the same directory exactly when the MD5 sums of their names
  agree.\<close>

theorem BuildpackPath_child:
  "(\<exists>n. plain n \<and> length n = 32 \<and> path_comps (BuildpackPath d name) = path_comps d @ [n]) \<and>
   rooted (BuildpackPath d name) = rooted d \<and>
   (BuildpackPath d name = BuildpackPath d name' \<longleftrightarrow>
      md5_Sum (string_to_bytes name) = md5_Sum (string_to_bytes name'))"
proof (intro conjI)
  show "\<exists>n. plain n \<and> length n = 32 \<and> path_comps (BuildpackPath d name) = path_comps d @ [n]"
    by (rule exI [of _ "buildpack_dir_name name"]) (simp add: path_simps length_buildpack_dir_name)
  show "rooted (BuildpackPath d name) = rooted d" by (simp add: path_simps)
  show "BuildpackPath d name = BuildpackPath d name' \<longleftrightarrow>
      md5_Sum (string_to_bytes name) = md5_Sum (string_to_bytes name')"
  proof
    assume "BuildpackPath d name = BuildpackPath d name'"
    then have "path_comps (BuildpackPath d name) = path_comps (BuildpackPath d name')" by simp
    then show "md5_Sum (string_to_bytes name) = md5_Sum (string_to_bytes name')"
      by (simp add: path_simps buildpack_dir_name_def hex_string_inject)
  qed (simp add: BuildpackPath_def)
qed

end
