(* ===== verification/Keeps.thy ===== *)
theory Keeps
  imports OSFacts
begin

text \<open>
  Operations that only add: what existed stays, folders as folders and files with their
  content. Setting up directories is of this kind, and what such an operation establishes
  is not undone by the ones after it.
\<close>

section \<open>The relation\<close>

definition keeps :: "node \<Rightarrow> node \<Rightarrow> bool" where
  "keeps t t' \<longleftrightarrow> (\<forall>q. folder_at t q \<longrightarrow> folder_at t' q) \<and>
     (\<forall>q m s. lookup t q = Some (File m s) \<longrightarrow> lookup t' q = Some (File m s))"

abbreviation keeping :: "('x world_scheme, 'a) state \<Rightarrow> bool" where
  "keeping m \<equiv> state_io_rel (\<lambda>w w'. keeps (fs w) (fs w')) m"

interpretation keeping: effect_relation "\<lambda>w w' :: 'x world_scheme. keeps (fs w) (fs w')"
  by unfold_locales (auto simp: keeps_def)

lemma keeps_refl [simp]: "keeps t t"
  by (simp add: keeps_def)

lemma keeps_trans: "keeps t1 t2 \<Longrightarrow> keeps t2 t3 \<Longrightarrow> keeps t1 t3"
  by (auto simp: keeps_def)

lemma keeps_folder: "keeps t t' \<Longrightarrow> folder_at t q \<Longrightarrow> folder_at t' q"
  by (simp add: keeps_def)

lemma keeps_absent: "keeps t t' \<Longrightarrow> lookup t' q = None \<Longrightarrow> lookup t q = None"
proof (rule ccontr)
  assume k: "keeps t t'" and n: "lookup t' q = None" and "lookup t q \<noteq> None"
  then obtain v where "lookup t q = Some v" by blast
  with k n show False by (cases v) (force simp: keeps_def folder_at_iff)+
qed

lemma dirs_added_keeps: "dirs_added p t t' \<Longrightarrow> keeps t t'"
  by (auto simp: dirs_added_def keeps_def)

section \<open>Directories\<close>

lemma rooted_Dir: "rooted p \<Longrightarrow> rooted (Dir p)"
proof -
  assume "rooted p"
  then obtain s where p: "p = CHR ''/'' # s" by (auto simp: rooted_def split: list.splits)
  let ?q = "rev (dropWhile (\<lambda>c. c \<noteq> CHR ''/'') (rev p))"
  have "\<exists>t. ?q = CHR ''/'' # t"
    by (rule exI [of _ "rev (if CHR ''/'' \<in> set s then dropWhile (\<lambda>c. c \<noteq> CHR ''/'') (rev s) else [])"])
      (auto simp: p dropWhile_append)
  then have "rooted ?q" by (auto simp: rooted_def)
  then show ?thesis by (simp add: Dir_def path_simps)
qed

text \<open>\<^verbatim>\<open>MkdirAll\<close> of a rooted path: keeps what is there, and leaves a folder.\<close>

lemma MkdirAll_rooted:
  assumes "run_state (MkdirAll H p m) w = (res, w')" and "rooted p"
  shows "keeps (fs w) (fs w') \<and> (res = Ok () \<longrightarrow> folder_at (fs w') (resolve H p))"
  using MkdirAll_effect [OF assms(1) rooted_plain_comps [OF assms(2)]] dirs_added_keeps by blast

lemma MkdirAll_trace: "run_state (MkdirAll H p m) w = (res, w') \<Longrightarrow> trace w' = trace w"
  and MkdirAll_more: "run_state (MkdirAll H p m) w = (res, w') \<Longrightarrow> world.more w' = world.more w"
  using quiet_MkdirAll by (blast dest: quiet_trace quiet_more)+

text \<open>A loop that makes directories.\<close>

lemma for_each_keeps:
  fixes f :: "'b \<Rightarrow> ('x world_scheme, unit) go"
  assumes "run_state (for_each f xs) w = (Ok u, w')"
    and step: "\<And>x v v'. x \<in> set xs \<Longrightarrow> run_state (f x) v = (Ok (), v') \<Longrightarrow>
      keeps (fs v) (fs v') \<and> P x (fs v')"
    and stable: "\<And>x t t'. keeps t t' \<Longrightarrow> P x t \<Longrightarrow> P x t'"
  shows "keeps (fs w) (fs w') \<and> (\<forall>x \<in> set xs. P x (fs w'))"
  using assms(1) step
proof (induction xs arbitrary: w)
  case Nil
  then show ?case by simp
next
  case (Cons x xs)
  obtain w1 where 1: "run_state (f x) w = (Ok (), w1)" and 2: "run_state (for_each f xs) w1 = (Ok u, w')"
    using Cons.prems(1) by (auto simp only: for_each_Cons_Ok)
  have a: "keeps (fs w) (fs w1) \<and> P x (fs w1)" by (rule Cons.prems(2) [OF _ 1]) simp
  have b: "keeps (fs w1) (fs w') \<and> (\<forall>y \<in> set xs. P y (fs w'))"
    by (rule Cons.IH [OF 2]) (use Cons.prems(2) in auto)
  from a b show ?case by (auto intro: keeps_trans stable)
qed

section \<open>Temporary directories\<close>

text \<open>What the program relies on: the temporary directory is an absolute path, and the random
  suffixes are decimal digits.\<close>

definition tmp_ok :: "host \<Rightarrow> bool" where
  "tmp_ok H \<longleftrightarrow> rooted (TempBase H) \<and> (\<forall>i. \<forall>c \<in> set (h_rand H i). 48 \<le> (of_char c :: nat) \<and> (of_char c :: nat) < 58)"

lemma Mkdir_Err_fs: "run_state (Mkdir H p m) w = (Err e, w') \<Longrightarrow> fs w' = fs w"
  unfolding Mkdir_def by (erule syscall_ErrE) (auto dest: enter_Inl)

lemma tempdir_try_Ok:
  fixes w w' :: "'x world_scheme"
  shows "run_state (tempdir_try H n d pre e) w = (Ok name, w') \<Longrightarrow>
   (\<exists>i. name = Join [d, pre @ h_rand H i]) \<and> keeps (fs w) (fs w') \<and>
   folder_at (fs w') (resolve H name) \<and> lookup (fs w) (resolve H name) = None"
proof (induction n arbitrary: w e)
  case 0
  then show ?case by (subst (asm) tempdir_try.simps) simp
next
  case (Suc n)
  let ?name = "Join [d, pre @ h_rand H (clock w)]"
  obtain r1 w1 where 1: "run_state (Mkdir H ?name perm_0700) w = (r1, w1)" by fastforce
  show ?case
  proof (cases r1)
    case (Ok x)
    with Suc.prems 1 have "name = ?name" "w' = w1"
      by (auto simp: tempdir_try.simps [of H "Suc n"] Let_def)
    with Mkdir_effect [OF 1] Ok show ?thesis by (auto intro: dirs_added_keeps)
  next
    case (Err e1)
    note f = Mkdir_Err_fs [OF 1 [unfolded Err]]
    obtain r2 w2 where 2: "run_state (Stat H d) w1 = (r2, w2)" by fastforce
    from Suc.prems 1 2 Err have "run_state (tempdir_try H n d pre e1) w1 = (Ok name, w')"
      by (auto simp: tempdir_try.simps [of H "Suc n"] Let_def split: if_splits result.splits)
    from Suc.IH [OF this] f show ?thesis by simp
  qed (use Suc.prems 1 in \<open>auto simp: tempdir_try.simps [of H "Suc n"] Let_def\<close>)
qed

lemma plain_digits_suffix:
  assumes "plain pre" and "\<forall>c \<in> set s. (48::nat) \<le> of_char c"
  shows "plain (pre @ s)"
proof -
  have "(of_char (CHR ''.'') :: nat) < 48" "(of_char (CHR ''/'') :: nat) < 48" by simp_all
  with assms(2) have s: "CHR ''.'' \<notin> set s" "CHR ''/'' \<notin> set s" by force+
  have "pre @ s \<noteq> ''.''" "pre @ s \<noteq> ''..''"
    using assms(1) s by (cases s rule: rev_cases; force simp: plain_def)+
  with assms s show ?thesis by (auto simp: plain_def)
qed

lemma TempDir_Ok:
  assumes "run_state (TempDir H pre) w = (Ok name, w')" and "tmp_ok H" and "plain pre"
  obtains n where "plain n" and "name = Join [TempBase H, n]" and "rooted name"
    and "path_comps name = path_comps (TempBase H) @ [n]"
    and "keeps (fs w) (fs w')" and "folder_at (fs w') (resolve H name)"
    and "lookup (fs w) (resolve H name) = None"
proof -
  from tempdir_try_Ok [OF assms(1) [unfolded TempDir_def]] obtain i where
    n: "name = Join [TempBase H, pre @ h_rand H i]" and
    *: "keeps (fs w) (fs w')" "folder_at (fs w') (resolve H name)" "lookup (fs w) (resolve H name) = None"
    by blast
  have "plain (pre @ h_rand H i)"
    using assms(2,3) by (auto simp: tmp_ok_def intro: plain_digits_suffix)
  with that [OF this n] * n assms(2) show thesis by (simp add: tmp_ok_def path_simps)
qed

lemma Mkdir_keeps: "keeping (Mkdir H p m)"
  by (rule state_io_relI) (auto dest: Mkdir_effect dirs_added_keeps)

lemma look_keeps: "keeping (Stat H p)" "keeping (ReadDir H p)" "keeping (ReadFile H p)"
  by (rule state_io_relI, auto dest: fs_unchanged)+

lemma clock_keeps: "keeping (State (\<lambda>w. (clock w, w)))"
  by (rule state_io_relI) auto

lemma tempdir_try_keeps: "keeping (tempdir_try H n d p e)"
proof (induction n arbitrary: e)
  case 0
  show ?case by (subst tempdir_try.simps) (simp add: keeping.within_fail)
next
  case (Suc n)
  then show ?case
    by (subst tempdir_try.simps)
      (auto simp: Let_def intro!: keeping.within_intros Mkdir_keeps look_keeps clock_keeps)
qed

lemma TempDir_keeps: "keeping (TempDir H pre)"
  by (simp add: TempDir_def tempdir_try_keeps)

section \<open>Silence\<close>

text \<open>An operation without visible actions, which may assign the fields of an extended
  world.\<close>

abbreviation silent :: "('x world_scheme, 'a) state \<Rightarrow> bool" where
  "silent m \<equiv> state_io_rel (\<lambda>w w'. trace w' = trace w) m"

interpretation silent: effect_relation "\<lambda>w w' :: 'x world_scheme. trace w' = trace w"
  by unfold_locales auto

lemma quiet_silent: "quiet m \<Longrightarrow> silent m"
  by (auto simp: state_io_rel_def quiet_rel_def split: prod.splits)

lemma silent_assign: "(\<And>w. trace (f w) = trace w) \<Longrightarrow> silent (assign f)"
  by (rule state_io_relI) auto

end
