(* ===== verification/Workspace.thy ===== *)
theory Workspace
  imports Config Keeps
begin

text \<open>
  The directories of a staging run (\<^verbatim>\<open>builder/runner.go\<close>): the state of a \<^verbatim>\<open>Runner\<close>, what
  \<^verbatim>\<open>makeDirectories\<close> sets up, which cache entries \<^verbatim>\<open>cleanCacheDir\<close> keeps, and \<^verbatim>\<open>CleanUp\<close>.
\<close>

section \<open>Runner state\<close>

text \<open>The runner never writes to its configuration, which is an argument of the operations;
  the directories it chooses are state.\<close>

record runner = world +
  depsDir :: string
  contentsDir :: string
  profileDir :: string

definition NewRunner :: "world \<Rightarrow> runner" where
  "NewRunner w = world.extend w \<lparr>depsDir = '''', contentsDir = '''', profileDir = ''''\<rparr>"

text \<open>Running a script for its standard output; that of a failing script is never looked at.\<close>

abbreviation runWithCapturing :: "host \<Rightarrow> command \<Rightarrow> (runner, string) go" where
  "runWithCapturing H c \<equiv> Run_cmd H c"

definition supplyCachePath :: "Config \<Rightarrow> string \<Rightarrow> string" where
  "supplyCachePath C buildpack = BuildpackPath (BuildArtifactsCacheDir C) buildpack"

section \<open>Setting up\<close>

definition make_supply_caches :: "host \<Rightarrow> Config \<Rightarrow> (runner, unit) go" where
  "make_supply_caches H C =
     for_each (\<lambda>buildpack.
         attempt (MkdirAll H (supplyCachePath C buildpack) perm_0755)
           (ErrorfW ''failed to create supply cache directory'') ok)
       (SupplyBuildpacks C)"

text \<open>The index goes up to and including the number of supplying buildpacks.\<close>

definition make_deps_dirs :: "host \<Rightarrow> Config \<Rightarrow> (runner, unit) go" where
  "make_deps_dirs H C =
     for_each (\<lambda>i. do {
         deps \<leftarrow> get depsDir;
         attempt (MkdirAll H (Join [deps, DepsIndex H C i]) perm_0755)
           (ErrorfW ''failed to create deps dir'') ok })
       [0..<length (SupplyBuildpacks C) + 1]"

definition makeDirectories :: "host \<Rightarrow> Config \<Rightarrow> (runner, unit) go" where
  "makeDirectories H C =
     attempt (MkdirAll H (Dir (OutputDropletLocation C)) perm_0755)
       (ErrorfW ''failed to create output droplet location directory'') (\<lambda>_.
     attempt (MkdirAll H (Dir (OutputMetadataLocation C)) perm_0755)
       (ErrorfW ''failed to create output metadata location directory'') (\<lambda>_.
     attempt (MkdirAll H (Join [BuildArtifactsCacheDir C, ''final'']) perm_0755)
       (ErrorfW ''failed to create build artifacts cache directory'') (\<lambda>_.
     attempt (make_supply_caches H C) id (\<lambda>_.
     on_err (TempDir H ''contents'')
       (\<lambda>e. do { assign (contentsDir_update (\<lambda>_. '''')); fail (ErrorfW ''failed to create temp dir'' e) })
       (\<lambda>dir. do {
         assign (contentsDir_update (\<lambda>_. dir));
         assign (depsDir_update (\<lambda>_. Join [dir, ''deps'']));
         attempt (make_deps_dirs H C) id (\<lambda>_. do {
         assign (profileDir_update (\<lambda>_. Join [dir, ''profile.d'']));
         attempt (MkdirAll H (Join [dir, ''profile.d'']) perm_0755)
           (ErrorfW ''failed to create profile dir'') ok }) })))))"

section \<open>Cleaning the cache\<close>

definition neededCacheDirs :: "Config \<Rightarrow> string list" where
  "neededCacheDirs C =
     Join [BuildArtifactsCacheDir C, ''final''] # map (supplyCachePath C) (SupplyBuildpacks C)"

definition cleanCacheEntry :: "host \<Rightarrow> Config \<Rightarrow> string \<Rightarrow> (runner, unit) go" where
  "cleanCacheEntry H C name =
     (let dir = Join [BuildArtifactsCacheDir C, name] in
      if dir \<notin> set (neededCacheDirs C) then
        attempt (RemoveAll H dir) (ErrorfW ''failed to remove build artifacts cache dir'') ok
      else ok ())"

definition cleanCacheDir :: "host \<Rightarrow> Config \<Rightarrow> (runner, unit) go" where
  "cleanCacheDir H C =
     attempt (ReadDir H (BuildArtifactsCacheDir C)) (ErrorfW ''failed to create artifacts cache dir'')
       (for_each (cleanCacheEntry H C))"

definition CleanUp :: "host \<Rightarrow> (runner, unit) state" where
  "CleanUp H = do {
     dir \<leftarrow> get contentsDir;
     if dir = '''' then State_Monad.return () else ignoring (RemoveAll H dir) }"

section \<open>What is set up\<close>

text \<open>The locations of a configuration are absolute paths.\<close>

definition absolute_config :: "Config \<Rightarrow> bool" where
  "absolute_config C \<longleftrightarrow> rooted (BuildDir C) \<and> rooted (BuildpacksDir C) \<and>
     rooted (OutputDropletLocation C) \<and> rooted (OutputMetadataLocation C) \<and>
     rooted (OutputBuildArtifactsCache C) \<and> rooted (BuildArtifactsCache C)"

lemma rooted_config:
  assumes "absolute_config C"
  shows "rooted (Dir (OutputDropletLocation C))" "rooted (Dir (OutputMetadataLocation C))"
    "rooted (Dir (OutputBuildArtifactsCache C))" "rooted (BuildArtifactsCacheDir C)"
    "rooted (Join [BuildArtifactsCacheDir C, ''final''])" "rooted (supplyCachePath C bp)"
  using assms
  by (auto simp: absolute_config_def BuildArtifactsCacheDir_def supplyCachePath_def path_simps plain_def
      intro: rooted_Dir)

lemma make_supply_caches_ok:
  assumes "run_state (make_supply_caches H C) w = (Ok u, w')" and C: "absolute_config C"
  shows "keeps (fs w) (fs w') \<and>
    (\<forall>bp \<in> set (SupplyBuildpacks C). folder_at (fs w') (resolve H (supplyCachePath C bp)))"
  using assms(1) unfolding make_supply_caches_def
proof (rule for_each_keeps)
  fix bp :: string and v v' :: runner
  assume "run_state (attempt (MkdirAll H (supplyCachePath C bp) perm_0755)
    (ErrorfW ''failed to create supply cache directory'') ok) v = (Ok (), v')"
  then have "run_state (MkdirAll H (supplyCachePath C bp) perm_0755) v = (Ok (), v')"
    by (simp only: attempt_ok_Ok)
  from MkdirAll_rooted [OF this rooted_config(6) [OF C]]
  show "keeps (fs v) (fs v') \<and> folder_at (fs v') (resolve H (supplyCachePath C bp))" by simp
qed (rule keeps_folder)

lemma runner_fields:
  "world.more (r :: runner) = world.more r' \<Longrightarrow>
   depsDir r = depsDir r' \<and> contentsDir r = contentsDir r' \<and> profileDir r = profileDir r'"
  by (cases r; cases r') simp

lemma deps_loop:
  fixes w w' :: runner
  assumes "run_state (for_each (\<lambda>i. do {
       deps \<leftarrow> get depsDir;
       attempt (MkdirAll H (Join [deps, DepsIndex H C i]) m) f ok }) is) w = (Ok u, w')"
    and "rooted (depsDir w)"
  shows "keeps (fs w) (fs w') \<and>
    (\<forall>i \<in> set is. folder_at (fs w') (resolve H (Join [depsDir w, DepsIndex H C i])))"
  using assms
proof (induction "is" arbitrary: w)
  case Nil
  then show ?case by simp
next
  case (Cons i "is")
  obtain w1 where 1: "run_state (MkdirAll H (Join [depsDir w, DepsIndex H C i]) m) w = (Ok (), w1)"
    and 2: "run_state (for_each (\<lambda>i. do {
       deps \<leftarrow> get depsDir;
       attempt (MkdirAll H (Join [deps, DepsIndex H C i]) m) f ok }) is) w1 = (Ok u, w')"
    using Cons.prems(1) by (simp only: for_each_Cons_Ok get_bind attempt_ok_Ok) blast
  have "world.more w1 = world.more w" by (rule MkdirAll_more [OF 1])
  then have d: "depsDir w1 = depsDir w" using runner_fields by blast
  have r: "rooted (Join [depsDir w, DepsIndex H C i])" using Cons.prems(2) by (simp add: path_simps)
  from MkdirAll_rooted [OF 1 r] Cons.IH [OF 2] Cons.prems(2) d show ?case
    by (auto intro: keeps_trans keeps_folder)
qed

lemma quiet_make [effect_intros]: "quiet (make_supply_caches H C)" "quiet (make_deps_dirs H C)"
  unfolding make_supply_caches_def make_deps_dirs_def
  by (auto intro!: quiet.within_intros effect_intros)

lemma silent_makeDirectories: "silent (makeDirectories H C)"
  unfolding makeDirectories_def
  by (intro silent.within_intros silent_assign; (rule quiet_silent, rule effect_intros)?; simp)

lemma makeDirectories_shared:
  assumes C: "absolute_config C"
    and 1: "run_state (MkdirAll H (Dir (OutputDropletLocation C)) perm_0755) w = (Ok u1, w1)"
    and 2: "run_state (MkdirAll H (Dir (OutputMetadataLocation C)) perm_0755) w1 = (Ok u2, w2)"
    and 3: "run_state (MkdirAll H (Join [BuildArtifactsCacheDir C, ''final'']) perm_0755) w2 = (Ok u3, w3)"
    and 4: "run_state (make_supply_caches H C) w3 = (Ok u4, w4)"
  shows "keeps (fs w) (fs w4) \<and> folder_at (fs w4) (resolve H (Dir (OutputDropletLocation C))) \<and>
    folder_at (fs w4) (resolve H (Dir (OutputMetadataLocation C))) \<and>
    (\<forall>d \<in> set (neededCacheDirs C). folder_at (fs w4) (resolve H d))"
proof -
  note R = rooted_config [OF C]
  note k = MkdirAll_rooted [OF 1 R(1)] MkdirAll_rooted [OF 2 R(2)] MkdirAll_rooted [OF 3 R(5)]
    make_supply_caches_ok [OF 4 C]
  note s = k(1-4) [THEN conjunct1]
  note 24 = keeps_trans [OF s(3) s(4)]
  note 14 = keeps_trans [OF s(2) 24]
  have "folder_at (fs w4) (resolve H d)" if "d \<in> set (neededCacheDirs C)" for d
    using that k(3,4) keeps_folder [OF s(4)] by (auto simp: neededCacheDirs_def)
  then show ?thesis using k(1,2) keeps_trans [OF s(1) 14] keeps_folder [OF 14] keeps_folder [OF 24] by simp
qed

lemma makeDirectories_fresh:
  assumes 6: "run_state (make_deps_dirs H C) (w\<lparr>contentsDir := dir, depsDir := Join [dir, ''deps'']\<rparr>) = (Ok u1, w1)"
    and 7: "run_state (MkdirAll H (Join [dir, ''profile.d'']) perm_0755)
      (w1\<lparr>profileDir := Join [dir, ''profile.d'']\<rparr>) = (Ok u2, w')"
    and dir: "rooted dir"
  shows "keeps (fs w) (fs w') \<and> contentsDir w' = dir \<and> depsDir w' = Join [dir, ''deps''] \<and>
    profileDir w' = Join [dir, ''profile.d''] \<and> folder_at (fs w') (resolve H (Join [dir, ''profile.d''])) \<and>
    (\<forall>i \<le> length (SupplyBuildpacks C). folder_at (fs w') (resolve H (Join [Join [dir, ''deps''], DepsIndex H C i])))"
proof -
  have "plain ''deps''" "plain ''profile.d''" by (auto simp: plain_def)
  with dir have rd: "rooted (Join [dir, ''deps''])" "rooted (Join [dir, ''profile.d''])" by (simp_all add: path_simps)
  note k = deps_loop [OF 6 [unfolded make_deps_dirs_def]] MkdirAll_rooted [OF 7 rd(2)]
  have "world.more w1 = world.more (w\<lparr>contentsDir := dir, depsDir := Join [dir, ''deps'']\<rparr>)"
    by (rule quiet_more [OF _ 6]) (rule effect_intros)
  then have "contentsDir w1 = dir" "depsDir w1 = Join [dir, ''deps'']" by (simp_all add: runner_fields [of w1])
  with MkdirAll_more [OF 7]
  have c: "contentsDir w' = dir" "depsDir w' = Join [dir, ''deps'']" "profileDir w' = Join [dir, ''profile.d'']"
    by (simp_all add: runner_fields [of w'])
  have s: "keeps (fs w) (fs w1)" "keeps (fs w1) (fs w')" using k rd(1) by simp_all
  have "folder_at (fs w') (resolve H (Join [Join [dir, ''deps''], DepsIndex H C i]))" if "i \<le> length (SupplyBuildpacks C)" for i
    by (rule keeps_folder [OF s(2)]) (use k(1) rd(1) that in \<open>auto simp: le_less\<close>)
  with c k(2) keeps_trans [OF s] show ?thesis by simp
qed

text \<open>C13: When \<^verbatim>\<open>makeDirectories\<close> returns without error, every directory that the rest of the
  run relies on is there: the parents of the droplet and of the result file, the cache
  directory of the final buildpack and of each supplying one, and in a temporary directory
  that did not exist before, the dependency directory of every buildpack and the profile
  directory. Nothing that existed is removed or rewritten, and nothing visible happened.\<close>

theorem makeDirectories_ok:
  assumes run: "run_state (makeDirectories H C) w = (Ok (), w')"
    and C: "absolute_config C" and H: "tmp_ok H"
  shows "folder_at (fs w') (resolve H (Dir (OutputDropletLocation C))) \<and>
    folder_at (fs w') (resolve H (Dir (OutputMetadataLocation C))) \<and>
    (\<forall>d \<in> set (neededCacheDirs C). folder_at (fs w') (resolve H d)) \<and>
    lookup (fs w) (resolve H (contentsDir w')) = None \<and> contentsDir w' \<noteq> '''' \<and>
    depsDir w' = Join [contentsDir w', ''deps''] \<and>
    (\<forall>i \<le> length (SupplyBuildpacks C). folder_at (fs w') (resolve H (Join [depsDir w', DepsIndex H C i]))) \<and>
    profileDir w' = Join [contentsDir w', ''profile.d''] \<and>
    folder_at (fs w') (resolve H (profileDir w')) \<and>
    keeps (fs w) (fs w') \<and> trace w' = trace w"
proof -
  from run obtain u1 u2 u3 u4 u6 u7 w1 w2 w3 w4 dir w5 w6 w7 where
    first: "run_state (MkdirAll H (Dir (OutputDropletLocation C)) perm_0755) w = (Ok u1, w1)"
      "run_state (MkdirAll H (Dir (OutputMetadataLocation C)) perm_0755) w1 = (Ok u2, w2)"
      "run_state (MkdirAll H (Join [BuildArtifactsCacheDir C, ''final'']) perm_0755) w2 = (Ok u3, w3)"
      "run_state (make_supply_caches H C) w3 = (Ok u4, w4)" and
    temp: "run_state (TempDir H ''contents'') w4 = (Ok dir, w5)" and
    last: "run_state (make_deps_dirs H C) (w5\<lparr>contentsDir := dir, depsDir := Join [dir, ''deps'']\<rparr>) = (Ok u6, w6)"
      "run_state (MkdirAll H (Join [dir, ''profile.d'']) perm_0755)
        (w6\<lparr>profileDir := Join [dir, ''profile.d'']\<rparr>) = (Ok u7, w7)" and w7: "w' = w7"
    unfolding makeDirectories_def ok_iffs by (elim exE conjE disjE FalseE) (rule that; assumption)+
  have "plain ''contents''" by (auto simp: plain_def)
  from TempDir_Ok [OF temp H this] have dir: "rooted dir" "keeps (fs w4) (fs w5)"
    "lookup (fs w4) (resolve H dir) = None" by blast+
  note A = makeDirectories_shared [OF C first] and B = makeDirectories_fresh [OF last dir(1), folded w7]
  have k: "keeps (fs w4) (fs w')" using dir(2) B keeps_trans by blast
  moreover have "lookup (fs w) (resolve H dir) = None" using A dir(3) keeps_absent by blast
  moreover have "dir \<noteq> ''''" using dir(1) by (auto simp: rooted_def)
  moreover have "trace w' = trace w" using silent_makeDirectories run by (auto dest: state_io_relD)
  moreover have "keeps (fs w) (fs w')" using A k keeps_trans by blast
  ultimately show ?thesis using A B keeps_folder [OF k] by simp
qed

lemma makeDirectories_ok_witness:
  "\<exists>w'. run_state (makeDirectories sample_host sample_Config) (NewRunner sample_world) = (Ok (), w') \<and>
     folder_at (fs w') (resolve sample_host (profileDir w')) \<and> keeps (fs (NewRunner sample_world)) (fs w')"
proof -
  have "fst (run_state (makeDirectories sample_host sample_Config) (NewRunner sample_world)) = Ok ()"
    by code_simp
  then obtain w' where
    run: "run_state (makeDirectories sample_host sample_Config) (NewRunner sample_world) = (Ok (), w')"
    by (rule run_fst)
  have C: "absolute_config sample_Config"
    by (simp add: absolute_config_def sample_Config_def rooted_def)
  have H: "tmp_ok sample_host"
    by (simp add: tmp_ok_def sample_host_def TempBase_def rooted_def)
  from makeDirectories_ok [OF run C H] run show ?thesis by blast
qed

section \<open>What is cleaned\<close>

text \<open>Clearing one entry of a folder: nothing of it is left, and nothing beside it changes.\<close>

definition plain_names :: "node \<Rightarrow> string list \<Rightarrow> bool" where
  "plain_names t p = (case lookup t p of Some (Folder m es) \<Rightarrow> list_all plain (map fst es) | _ \<Rightarrow> True)"

lemma parallel_entry: "n \<noteq> n' \<Longrightarrow> (base @ [n]) \<parallel> (base @ n' # rest)"
  by (simp add: parallel_def)

lemma parallel_below: "base \<parallel> q \<Longrightarrow> (base @ [n]) \<parallel> q"
  by (meson parallel_extend prefixI)

lemma resolve_entry:
  "rooted d \<Longrightarrow> plain n \<Longrightarrow> resolve H (Join [d, n]) = path_comps d @ [n]"
  by (simp add: resolve_def path_simps)

lemma cleanCacheEntry_Ok:
  assumes run: "run_state (cleanCacheEntry H C n) w = (Ok u, w')"
    and root: "rooted (BuildArtifactsCacheDir C)" and n: "plain n"
  defines "base \<equiv> path_comps (BuildArtifactsCacheDir C)"
  shows "(\<forall>n' rest. lookup (fs w') (base @ n' # rest) =
      (if n' = n \<and> Join [BuildArtifactsCacheDir C, n] \<notin> set (neededCacheDirs C) then None
       else lookup (fs w) (base @ n' # rest))) \<and>
    same_outside [base] (fs w) (fs w')"
proof (cases "Join [BuildArtifactsCacheDir C, n] \<in> set (neededCacheDirs C)")
  case True
  with run show ?thesis by (auto simp: cleanCacheEntry_def)
next
  case False
  have "Join [BuildArtifactsCacheDir C, n] \<noteq> ''''" using n by (rule Join_two_nonempty)
  moreover from run False have "run_state (RemoveAll H (Join [BuildArtifactsCacheDir C, n])) w = (Ok u, w')"
    by (simp only: cleanCacheEntry_def Let_def if_True not_False_eq_True attempt_ok_Ok)
  ultimately have gone: "lookup (fs w') (base @ [n]) = None"
    and same: "same_outside [base @ [n]] (fs w) (fs w')"
    using resolve_entry [OF root n] by (auto simp: base_def elim: RemoveAll_OkE)
  have "lookup (fs w') (base @ n # rest) = None" for rest
    using gone lookup_append [of "fs w'" "base @ [n]" rest] by simp
  moreover have "lookup (fs w') (base @ n' # rest) = lookup (fs w) (base @ n' # rest)" if "n' \<noteq> n" for n' rest
    using same that parallel_entry [of n n' base rest] by (simp add: same_outside_def)
  moreover have "same_outside [base] (fs w) (fs w')"
    using same parallel_below [of base] unfolding same_outside_def by simp
  ultimately show ?thesis using False by auto
qed

lemma cleanCache_loop:
  assumes "run_state (for_each (cleanCacheEntry H C) ns) w = (Ok u, w')"
    and "rooted (BuildArtifactsCacheDir C)" and "list_all plain ns"
  defines "base \<equiv> path_comps (BuildArtifactsCacheDir C)"
  shows "(\<forall>n rest. lookup (fs w') (base @ n # rest) =
      (if n \<in> set ns \<and> Join [BuildArtifactsCacheDir C, n] \<notin> set (neededCacheDirs C) then None
       else lookup (fs w) (base @ n # rest))) \<and>
    same_outside [base] (fs w) (fs w')"
  using assms(1,3)
proof (induction ns arbitrary: w)
  case Nil
  then show ?case by simp
next
  case (Cons x ns)
  then obtain w1 where 1: "run_state (cleanCacheEntry H C x) w = (Ok (), w1)"
    and 2: "run_state (for_each (cleanCacheEntry H C) ns) w1 = (Ok u, w')"
    by (auto simp only: for_each_Cons_Ok)
  note a = cleanCacheEntry_Ok [OF 1 assms(2), folded base_def] and b = Cons.IH [OF 2]
  from a b Cons.prems(2) show ?case by (auto intro: same_outside_trans)
qed

text \<open>C12: After \<^verbatim>\<open>cleanCacheDir\<close> the build artifacts cache holds exactly the needed directories
  among its former entries: an entry is kept, with everything in it, if it is the cache
  directory of the final buildpack or of a supplying one, and every other entry is gone. A
  path outside the cache directory is not touched.\<close>

theorem cleanCacheDir_exact:
  assumes run: "run_state (cleanCacheDir H C) w = (Ok (), w')"
    and root: "rooted (BuildArtifactsCacheDir C)"
    and names: "plain_names (fs w) (resolve H (BuildArtifactsCacheDir C))"
  shows "(\<forall>n rest. lookup (fs w') (resolve H (BuildArtifactsCacheDir C) @ n # rest) =
      (if Join [BuildArtifactsCacheDir C, n] \<in> set (neededCacheDirs C)
       then lookup (fs w) (resolve H (BuildArtifactsCacheDir C) @ n # rest) else None)) \<and>
    same_outside [resolve H (BuildArtifactsCacheDir C)] (fs w) (fs w')"
proof -
  let ?d = "BuildArtifactsCacheDir C"
  have base: "resolve H ?d = path_comps ?d" using root by (simp add: resolve_def)
  from run obtain ns w1 where 1: "run_state (ReadDir H ?d) w = (Ok ns, w1)"
    and 2: "run_state (for_each (cleanCacheEntry H C) ns) w1 = (Ok (), w')"
    unfolding cleanCacheDir_def ok_iffs by blast
  from 1 obtain m es where f: "lookup (fs w) (path_comps ?d) = Some (Folder m es)"
    and ns: "ns = sort (remdups (map fst es))" and w1: "fs w1 = fs w"
    unfolding base [symmetric] by (rule ReadDir_OkE)
  have "list_all plain ns" using names f by (auto simp: base plain_names_def ns list_all_iff)
  note loop = cleanCache_loop [OF 2 root this]
  have absent: "lookup (fs w) (path_comps ?d @ n # rest) = None" if "n \<notin> set ns" for n rest
  proof -
    have "map_of es n = None" using that by (simp add: ns map_of_eq_None_iff)
    with f show ?thesis by (simp add: lookup_append)
  qed
  show ?thesis
    using loop absent unfolding base w1 by (metis (no_types, lifting))
qed

lemma cleanCacheDir_exact_witness:
  "\<exists>w'. run_state (cleanCacheDir sample_host sample_Config) (NewRunner sample_world) = (Ok (), w') \<and>
     lookup (fs w') [''cache'', ''old''] = None \<and> lookup (fs w') [''keep''] = lookup (fs sample_world) [''keep'']"
proof -
  have "fst (run_state (cleanCacheDir sample_host sample_Config) (NewRunner sample_world)) = Ok ()"
    by code_simp
  then obtain w' where
    run: "run_state (cleanCacheDir sample_host sample_Config) (NewRunner sample_world) = (Ok (), w')"
    by (rule run_fst)
  have r: "rooted (BuildArtifactsCacheDir sample_Config)" by code_simp
  have p: "plain_names (fs (NewRunner sample_world)) (resolve sample_host (BuildArtifactsCacheDir sample_Config))"
    by code_simp
  have c: "resolve sample_host (BuildArtifactsCacheDir sample_Config) = [''cache'']"
    "Join [BuildArtifactsCacheDir sample_Config, ''old''] \<notin> set (neededCacheDirs sample_Config)" by code_simp+
  have "[''cache''] \<parallel> [''keep'']" by (simp add: parallel_def)
  with cleanCacheDir_exact [OF run r p] run c show ?thesis
    by (auto simp: same_outside_def NewRunner_def world.defs)
qed

end
