(* ===== verification/Droplet.thy ===== *)
theory Droplet
  imports Workspace
begin

text \<open>
  Building the droplet (\<^verbatim>\<open>builder/runner.go\<close>): the release script and the Procfile, the two
  metadata files, the droplet archive and the archive of the build artifacts cache.
\<close>

section \<open>Release\<close>

definition readProcfile :: "host \<Rightarrow> Config \<Rightarrow> (runner, string_map) go" where
  "readProcfile H C =
     on_err (ReadFile H (Join [BuildDir C, ''Procfile'']))
       (\<lambda>e. if IsNotExist e then ok (Some []) else fail (ErrorfW ''error reading Procfile'' e))
       (\<lambda>procFile. case h_yamlProcfile H procFile of
          Inl s \<Rightarrow> fail (Wrap (External s) ''invalid YAML'')
        | Inr processes \<Rightarrow> ok processes)"

text \<open>The process types of the Procfile override those of the release script.\<close>

definition merge_start_commands :: "string_map \<Rightarrow> Release \<Rightarrow> Release" where
  "merge_start_commands startCommands r =
     (if length (map_entries startCommands) > 0 then
        (if length (map_entries (DefaultProcessTypes r)) = 0
         then r\<lparr>DefaultProcessTypes := startCommands\<rparr>
         else r\<lparr>DefaultProcessTypes :=
           Some (map_assign_all (map_entries startCommands) (map_entries (DefaultProcessTypes r)))\<rparr>)
      else r)"

definition warn_no_start_command :: "Release \<Rightarrow> (runner, unit) go" where
  "warn_no_start_command r =
     (if map_get (DefaultProcessTypes r) ''web'' = '''' then
        attempt (logError ''No start command specified by buildpack or via Procfile.'') id (\<lambda>_.
          logError ''App will not start unless a command is provided at runtime.'')
      else ok ())"

definition parse_release :: "host \<Rightarrow> string_map \<Rightarrow> string \<Rightarrow> (runner, Release) go" where
  "parse_release H startCommands output =
     (case h_yamlRelease H output of
        Inl s \<Rightarrow> fail (Wrap (External s) (''buildpack'' @ [CHR 0x27] @ ''s release output invalid''))
      | Inr types \<Rightarrow>
          let parsedRelease = merge_start_commands startCommands \<lparr>DefaultProcessTypes = types\<rparr> in
          attempt (warn_no_start_command parsedRelease) id (\<lambda>_. ok parsedRelease))"

definition release :: "host \<Rightarrow> Config \<Rightarrow> string \<Rightarrow> (runner, Release) go" where
  "release H C buildpackDir =
     attempt (readProcfile H C) (\<lambda>e. Wrap e ''Failed to read command from Procfile'') (\<lambda>startCommands.
     attempt (runWithCapturing H (Command (Join [buildpackDir, ''bin'', ''release'']) [BuildDir C]))
       (\<lambda>e. Wrap e ''no release script'') (parse_release H startCommands))"

section \<open>Metadata files\<close>

definition staging_result :: "BuildpackMetadata list \<Rightarrow> Release \<Rightarrow> StagingResult" where
  "staging_result buildpacks releaseInfo =
     (let lastBuildpack = (if length buildpacks > 0 then last buildpacks else zero_BuildpackMetadata) in
      NewStagingResult (DefaultProcessTypes releaseInfo)
        \<lparr>lm_BuildpackKey = bm_Key lastBuildpack, lm_DetectedBuildpack = bm_Name lastBuildpack,
         lm_Buildpacks = Some buildpacks\<rparr>)"

definition saveInfo :: "host \<Rightarrow> Config \<Rightarrow> BuildpackMetadata list \<Rightarrow> Release \<Rightarrow> (runner, unit) go" where
  "saveInfo H C buildpacks releaseInfo =
     attempt (Create H (OutputMetadataLocation C))
       (ErrorfW ''failed to create output metadata location'') (\<lambda>_.
     Write H (OutputMetadataLocation C)
       (Encode encode_StagingResult (staging_result buildpacks releaseInfo)))"

definition writeStagingInfoYML :: "host \<Rightarrow> string \<Rightarrow> BuildpackMetadata list \<Rightarrow> (runner, unit) go" where
  "writeStagingInfoYML H startCommand buildpacks = do {
     dir \<leftarrow> get contentsDir;
     let stagingInfoYML = Join [dir, ''staging_info.yml''];
     attempt (Create H stagingInfoYML)
       (ErrorfW (''failed to create'' @ [CHR 0x09] @ ''staging_info.yml'')) (\<lambda>_.
       if length buildpacks = 0 then go_panic ''index out of range''
       else Write H stagingInfoYML (Encode encode_StagingInfo
         \<lparr>si_DetectedBuildpack = bm_Name (last buildpacks), si_StartCommand = startCommand\<rparr>)) }"

section \<open>Archives\<close>

definition findTar :: "host \<Rightarrow> (runner, string) go" where
  "findTar H = attempt (LookPath H ''tar'') (ErrorfW ''failed to find `tar` in the path'') ok"

definition copyApp :: "host \<Rightarrow> string \<Rightarrow> string \<Rightarrow> (runner, unit) go" where
  "copyApp H buildDir stageDir =
     attempt (Run_cmd H (Command ''cp'' [''-a'', buildDir, stageDir])) id (\<lambda>_. ok ())"

definition tar_command :: "string \<Rightarrow> string \<Rightarrow> string \<Rightarrow> command" where
  "tar_command tarPath archive dir = Command tarPath [''-czf'', archive, ''-C'', dir, ''.'']"

definition createArtifacts ::
  "host \<Rightarrow> Config \<Rightarrow> string \<Rightarrow> BuildpackMetadata list \<Rightarrow> Release \<Rightarrow> (runner, unit) go" where
  "createArtifacts H C tarPath buildpackMetadata releaseInfo =
     attempt (saveInfo H C buildpackMetadata releaseInfo)
       (\<lambda>e. Wrap e ''Failed to encode generated metadata'') (\<lambda>_. do {
     dir \<leftarrow> get contentsDir;
     attempt (for_each (\<lambda>name. attempt (MkdirAll H (Join [dir, name]) perm_0755)
           (\<lambda>e. Wrap e ''Failed to set up droplet filesystem'') ok)
         [''tmp'', ''logs'']) id (\<lambda>_.
     attempt (copyApp H (BuildDir C) (Join [dir, ''app'']))
       (\<lambda>e. Wrap e ''Failed to copy compiled droplet'') (\<lambda>_.
     attempt (Run_cmd H (tar_command tarPath (OutputDropletLocation C) dir))
       (\<lambda>e. Wrap e ''Failed to compress droplet filesystem'') (\<lambda>_. ok ()))) })"

definition createCache :: "host \<Rightarrow> Config \<Rightarrow> string \<Rightarrow> (runner, unit) go" where
  "createCache H C tarPath =
     attempt (MkdirAll H (Dir (OutputBuildArtifactsCache C)) perm_0755)
       (\<lambda>e. Wrap e ''Failed to create output build artifacts cache dir'') (\<lambda>_.
     attempt (Run_cmd H (tar_command tarPath (OutputBuildArtifactsCache C) (BuildArtifactsCacheDir C)))
       (\<lambda>e. Wrap e ''Failed to compress build artifacts'') (\<lambda>_. ok ()))"

end
