(* ===== verification/Traces.thy ===== *)
theory Traces
  imports Keeps
begin

text \<open>
  Reading a trace: the external programs that were run, with their success, and the requests
  that were sent. An operation that runs no program leaves the first unchanged, one that
  sends nothing the second.
\<close>

section \<open>Programs and requests of a trace\<close>

fun run_of :: "event \<Rightarrow> (command \<times> bool) list" where
  "run_of (Executed c b) = [(c, b)]"
| "run_of _ = []"

fun sent_of :: "event \<Rightarrow> (http_client \<times> http_request) list" where
  "sent_of (Sent c r) = [(c, r)]"
| "sent_of _ = []"

definition runs :: "'x world_scheme \<Rightarrow> (command \<times> bool) list" where
  "runs w = concat (map run_of (trace w))"

definition sent :: "'x world_scheme \<Rightarrow> (http_client \<times> http_request) list" where
  "sent w = concat (map sent_of (trace w))"

text \<open>\<open>no_runs m\<close>: runs no program; \<open>offline m\<close>: sends no request. Both leave the rest of an
  extended world alone.\<close>

abbreviation no_runs :: "('x world_scheme, 'a) state \<Rightarrow> bool" where
  "no_runs m \<equiv> state_io_rel (\<lambda>w w'. runs w' = runs w \<and> world.more w' = world.more w) m"

abbreviation offline :: "('x world_scheme, 'a) state \<Rightarrow> bool" where
  "offline m \<equiv> state_io_rel (\<lambda>w w'. sent w' = sent w) m"

interpretation no_runs: effect_relation
  "\<lambda>w w' :: 'x world_scheme. runs w' = runs w \<and> world.more w' = world.more w"
  by unfold_locales auto

interpretation offline: effect_relation "\<lambda>w w' :: 'x world_scheme. sent w' = sent w"
  by unfold_locales auto

lemma quiet_no_runs: "quiet m \<Longrightarrow> no_runs m"
  by (auto simp: state_io_rel_def quiet_rel_def runs_def split: prod.splits)

lemma quiet_offline: "quiet m \<Longrightarrow> offline m"
  by (auto simp: state_io_rel_def quiet_rel_def sent_def split: prod.splits)

lemma silent_offline: "silent m \<Longrightarrow> offline m"
  by (auto simp: state_io_rel_def sent_def split: prod.splits)

lemma no_runs_log: "no_runs (log_Println s)" "no_runs (fmt_Println s)"
  by (rule state_io_relI; auto simp: log_Println_def fmt_Println_def emit_def runs_def)+

lemma no_runs_Do: "no_runs (Do H c r)"
  by (rule state_io_relI) (auto simp: Do_def runs_def)

lemma offline_log: "offline (log_Println s)" "offline (fmt_Println s)"
  by (rule state_io_relI; auto simp: log_Println_def fmt_Println_def emit_def sent_def)+

lemma offline_Run_cmd: "offline (Run_cmd H c)"
  by (rule state_io_relI) (auto simp: Run_cmd_def sent_def split: prod.splits)

lemma no_runs_eq: "no_runs m \<Longrightarrow> run_state m w = (r, w') \<Longrightarrow> runs w' = runs w"
  and no_runs_more: "no_runs m \<Longrightarrow> run_state m w = (r, w') \<Longrightarrow> world.more w' = world.more w"
  by (drule (1) state_io_relD, simp)+

lemma offline_eq: "offline m \<Longrightarrow> run_state m w = (r, w') \<Longrightarrow> sent w' = sent w"
  by (drule (1) state_io_relD, simp)

text \<open>Running a program appends it.\<close>

lemma Run_cmd_runs:
  assumes "run_state (Run_cmd H c) w = (r, w')"
  shows "world.more w' = world.more w \<and>
    ((\<exists>out. r = Ok out) \<and> runs w' = runs w @ [(c, True)] \<or>
     (\<exists>e. r = Err e) \<and> runs w' = runs w @ [(c, False)])"
  using assms by (auto simp: Run_cmd_def runs_def split: prod.splits option.splits)

lemma Run_cmd_sent: "run_state (Run_cmd H c) w = (r, w') \<Longrightarrow> sent w' = sent w"
  by (rule offline_eq [OF offline_Run_cmd])

lemma Do_sent:
  assumes "run_state (Do H c r) w = (res, w')"
  shows "sent w' = sent w @ [(c, r)] \<and> ((\<exists>x. res = Ok x) \<or> (\<exists>e. res = Err e))"
  using assms by (auto simp: Do_def sent_def split: sum.splits)

text \<open>Only the last of a list of program runs may have failed.\<close>

definition stops_at_failure :: "(command \<times> bool) list \<Rightarrow> bool" where
  "stops_at_failure rs \<longleftrightarrow> list_all snd (butlast rs)"

lemma stops_Nil [simp]: "stops_at_failure []"
  and stops_single [simp]: "stops_at_failure [r]"
  and stops_Cons: "stops_at_failure ((c, True) # rs) = stops_at_failure rs"
  by (auto simp: stops_at_failure_def)

section \<open>Sequences of programs\<close>

text \<open>A sequence of programs stopped at the first failure, and what it ran.\<close>

definition ran_up_to :: "command list \<Rightarrow> (command \<times> bool) list \<Rightarrow> bool" where
  "ran_up_to cs rs \<longleftrightarrow> prefix (map fst rs) cs \<and> stops_at_failure rs"

abbreviation all_succeeded :: "command list \<Rightarrow> (command \<times> bool) list" where
  "all_succeeded cs \<equiv> map (\<lambda>c. (c, True)) cs"

lemma stops_all_succeeded: "stops_at_failure (all_succeeded cs @ rs) \<longleftrightarrow> stops_at_failure rs"
  by (induction cs) (simp_all add: stops_Cons)

lemma ran_Nil [simp]: "ran_up_to cs []"
  by (simp add: ran_up_to_def)

lemma ran_all [simp]: "ran_up_to cs (all_succeeded cs)"
  using stops_all_succeeded [of cs "[]"] by (simp add: ran_up_to_def comp_def)

lemma ran_append: "ran_up_to cs rs \<Longrightarrow> ran_up_to (cs @ ds) rs"
  and ran_after: "ran_up_to ds rs \<Longrightarrow> ran_up_to (cs @ ds) (all_succeeded cs @ rs)"
  by (auto simp: ran_up_to_def stops_all_succeeded comp_def)

text \<open>\<open>performs d cs m\<close>: in a world with the fields \<open>d\<close>, \<open>m\<close> runs the programs \<open>cs\<close> in order
  and nothing else, stops at the first failure, and has a value exactly when all succeeded.\<close>

definition performs :: "'x \<Rightarrow> command list \<Rightarrow> ('x world_scheme, 'a) go \<Rightarrow> bool" where
  "performs d cs m \<longleftrightarrow> (\<forall>w r w'. world.more w = d \<and> run_state m w = (r, w') \<longrightarrow>
     world.more w' = d \<and>
     (\<exists>rs. runs w' = runs w @ rs \<and> ran_up_to cs rs \<and>
        ((\<exists>x. r = Ok x) \<and> rs = all_succeeded cs \<or> (\<exists>e. r = Err e))))"

lemma performsI:
  assumes "\<And>w r w'. world.more w = d \<Longrightarrow> run_state m w = (r, w') \<Longrightarrow> world.more w' = d \<and>
     (\<exists>rs. runs w' = runs w @ rs \<and> ran_up_to cs rs \<and>
        ((\<exists>x. r = Ok x) \<and> rs = all_succeeded cs \<or> (\<exists>e. r = Err e)))"
  shows "performs d cs m"
  using assms unfolding performs_def by blast

lemma performsD:
  assumes "performs d cs m" and "run_state m w = (r, w')" and "world.more w = d"
  shows "world.more w' = d \<and> (\<exists>rs. runs w' = runs w @ rs \<and> ran_up_to cs rs \<and>
        ((\<exists>x. r = Ok x) \<and> rs = all_succeeded cs \<or> (\<exists>e. r = Err e)))"
  using assms unfolding performs_def by blast

lemma performs_nothing:
  assumes "no_runs m" and "returns m"
  shows "performs d [] m"
proof (rule performsI)
  fix w r w' assume "world.more w = d" and run: "run_state m w = (r, w')"
  with no_runs_more [OF assms(1) run] no_runs_eq [OF assms(1) run] assms(2)
  show "world.more w' = d \<and> (\<exists>rs. runs w' = runs w @ rs \<and> ran_up_to [] rs \<and>
      ((\<exists>x. r = Ok x) \<and> rs = all_succeeded [] \<or> (\<exists>e. r = Err e)))"
    by (auto elim: returnsE)
qed

lemma performs_Run: "performs d [c] (Run_cmd H c)"
proof (rule performsI)
  fix w r w' assume "world.more w = d" and "run_state (Run_cmd H c) w = (r, w')"
  with Run_cmd_runs [of H c w r w'] show "world.more w' = d \<and>
      (\<exists>rs. runs w' = runs w @ rs \<and> ran_up_to [c] rs \<and>
        ((\<exists>x. r = Ok x) \<and> rs = all_succeeded [c] \<or> (\<exists>e. r = Err e)))"
    by (auto simp: ran_up_to_def)
qed

lemma performs_attempt:
  assumes m: "performs d cs m" and k: "\<And>x. performs d ds (k x)"
  shows "performs d (cs @ ds) (attempt m f k)"
proof (rule performsI)
  fix w r w' assume d: "world.more w = d" and run: "run_state (attempt m f k) w = (r, w')"
  obtain r1 w1 where 1: "run_state m w = (r1, w1)" by fastforce
  from performsD [OF m 1 d] obtain rs where rs: "world.more w1 = d" "runs w1 = runs w @ rs" "ran_up_to cs rs"
    "(\<exists>x. r1 = Ok x) \<and> rs = all_succeeded cs \<or> (\<exists>e. r1 = Err e)" by blast
  from rs(4) show "world.more w' = d \<and> (\<exists>rs. runs w' = runs w @ rs \<and> ran_up_to (cs @ ds) rs \<and>
      ((\<exists>x. r = Ok x) \<and> rs = all_succeeded (cs @ ds) \<or> (\<exists>e. r = Err e)))"
  proof (elim disjE conjE exE)
    fix x assume x: "r1 = Ok x" "rs = all_succeeded cs"
    with run 1 have "run_state (k x) w1 = (r, w')" by simp
    from performsD [OF k this rs(1)] obtain rs' where "world.more w' = d" "runs w' = runs w1 @ rs'"
      "ran_up_to ds rs'" "(\<exists>x. r = Ok x) \<and> rs' = all_succeeded ds \<or> (\<exists>e. r = Err e)" by blast
    with rs(2) x show ?thesis by (intro conjI exI [of _ "rs @ rs'"]) (auto intro: ran_after)
  next
    fix e assume "r1 = Err e"
    with run 1 rs show ?thesis by (auto intro: ran_append)
  qed
qed

lemmas performs_first = performs_attempt [where cs = "[]", unfolded append_Nil]
lemmas performs_last = performs_attempt [where ds = "[]", unfolded append_Nil2]
lemmas performs_next = performs_attempt [where cs = "[c]" for c, unfolded append_Cons append_Nil]

lemma performs_ok: "performs d [] (ok x)" and performs_log: "performs d [] (effect (log_Println s))"
  by (rule performs_nothing; simp add: no_runs.within_ok no_runs.within_effect no_runs_log)+

lemma performs_get:
  assumes "\<And>w. world.more w = d \<Longrightarrow> performs d cs (k (f w))"
  shows "performs d cs (State_Monad.bind (get f) k)"
proof (rule performsI)
  fix w r w' assume d: "world.more w = d" and "run_state (State_Monad.bind (get f) k) w = (r, w')"
  then have "run_state (k (f w)) w = (r, w')" by simp
  from performsD [OF assms [OF d] this d] show "world.more w' = d \<and> (\<exists>rs. runs w' = runs w @ rs \<and>
      ran_up_to cs rs \<and> ((\<exists>x. r = Ok x) \<and> rs = all_succeeded cs \<or> (\<exists>e. r = Err e)))" .
qed

end
