(* ===== verification/Buildpacks.thy ===== *)
theory Buildpacks
  imports Workspace Traces
begin

text \<open>
  Running buildpacks (\<^verbatim>\<open>builder/runner.go\<close>): finding the directory of a buildpack, the supply
  phase of all buildpacks but the last, the finalize phase of the last one, and detection
  when no buildpack was chosen.
\<close>

section \<open>Locating a buildpack\<close>

definition pathHasBinDirectory :: "host \<Rightarrow> string \<Rightarrow> (runner, bool) go" where
  "pathHasBinDirectory H pathToTest =
     on_err (Stat H (Join [pathToTest, ''bin''])) (\<lambda>_. ok False) (\<lambda>_. ok True)"

definition malformed_buildpack :: "string \<Rightarrow> go_error" where
  "malformed_buildpack buildpack = Errorf (''malformed buildpack does not contain a /bin dir: '' @ buildpack)"

definition single_quoted :: "string \<Rightarrow> string" where
  "single_quoted s = CHR 0x27 # s @ [CHR 0x27]"

definition nested_buildpack :: "host \<Rightarrow> string \<Rightarrow> string \<Rightarrow> string list \<Rightarrow> (runner, string) go" where
  "nested_buildpack H buildpackPath buildpack files =
     (case files of
        [f] \<Rightarrow>
          let nestedPath = Join [buildpackPath, f] in
          attempt (pathHasBinDirectory H nestedPath) id (\<lambda>b.
            if b then ok nestedPath else fail (malformed_buildpack buildpack))
      | _ \<Rightarrow> fail (malformed_buildpack buildpack))"

definition buildpackPath :: "host \<Rightarrow> Config \<Rightarrow> string \<Rightarrow> (runner, string) go" where
  "buildpackPath H C buildpack =
     (let path = BuildpackPath (BuildpacksDir C) buildpack in
      attempt (pathHasBinDirectory H path) id (\<lambda>b.
        if b then ok path
        else attempt (ReadDir H path)
          (\<lambda>e. Wrap e (''Failed to read buildpack directory '' @ single_quoted path @
             '' for buildpack '' @ single_quoted buildpack))
          (nested_buildpack H path buildpack)))"

section \<open>Metadata\<close>

definition metadata_at :: "host \<Rightarrow> Config \<Rightarrow> nat \<times> string \<Rightarrow> (runner, BuildpackMetadata) go" where
  "metadata_at H C = (\<lambda>(i, key). do {
     deps \<leftarrow> get depsDir;
     let bare = zero_BuildpackMetadata\<lparr>bm_Key := key\<rparr>;
     on_err (ReadFile H (Join [deps, DepsIndex H C i, ''config.yml''])) (\<lambda>_. ok bare)
       (\<lambda>contents. case h_yamlConfig H contents of
           Inl _ \<Rightarrow> ok bare
         | Inr (name, version) \<Rightarrow> ok (bare\<lparr>bm_Name := name, bm_Version := version\<rparr>)) })"

definition buildpacksMetadata :: "host \<Rightarrow> Config \<Rightarrow> string list \<Rightarrow> (runner, BuildpackMetadata list) go" where
  "buildpacksMetadata H C buildpacks =
     map_each (metadata_at H C) (List.enumerate 0 buildpacks)"

section \<open>Supply\<close>

definition validateSupplyBuildpack :: "host \<Rightarrow> Config \<Rightarrow> string \<Rightarrow> (runner, unit) go" where
  "validateSupplyBuildpack H C buildpack =
     on_err (buildpackPath H C buildpack)
       (\<lambda>e. attempt (logError (Error e)) id (\<lambda>_. fail (NewSupplyFailError e)))
       (\<lambda>path. on_err (hasSupply H path)
         (\<lambda>e. attempt (logError (''failed to check if supply script exists '' @ Error e)) id
                (\<lambda>_. fail (NewSupplyFailError e)))
         (\<lambda>has. if \<not> has
            then attempt (logError ''supply script missing'') id
                   (\<lambda>_. fail (NewNoSupplyScriptFailError None))
            else ok ()))"

definition validateSupplyBuildpacks :: "host \<Rightarrow> Config \<Rightarrow> (runner, unit) go" where
  "validateSupplyBuildpacks H C = for_each (validateSupplyBuildpack H C) (SupplyBuildpacks C)"

definition supply_command :: "host \<Rightarrow> Config \<Rightarrow> string \<Rightarrow> string \<Rightarrow> nat \<times> string \<Rightarrow> command" where
  "supply_command H C path deps = (\<lambda>(i, buildpack).
     Command (Join [path, ''bin'', ''supply''])
       [BuildDir C, supplyCachePath C buildpack, deps, DepsIndex H C i])"

definition run_cmd :: "host \<Rightarrow> command \<Rightarrow> (runner, unit) go" where
  "run_cmd H c = attempt (Run_cmd H c) id (\<lambda>_. ok ())"

definition runSupplyBuildpack :: "host \<Rightarrow> Config \<Rightarrow> nat \<times> string \<Rightarrow> (runner, unit) go" where
  "runSupplyBuildpack H C ib =
     attempt (buildpackPath H C (snd ib)) NewSupplyFailError (\<lambda>path. do {
       deps \<leftarrow> get depsDir;
       on_err (run_cmd H (supply_command H C path deps ib))
         (\<lambda>e. attempt (logError (''supply script failed '' @ Error e)) id
                (\<lambda>_. fail (NewSupplyFailError e)))
         ok })"

text \<open>The final buildpack is the one behind the suppliers; with no buildpack at all the index
  expression panics.\<close>

definition finalBuildpack :: "host \<Rightarrow> Config \<Rightarrow> (runner, string \<times> BuildpackMetadata list) go" where
  "finalBuildpack H C =
     (if length (SupplyBuildpacks C) < length (BuildpackOrder C) then
       attempt (buildpackPath H C (BuildpackOrder C ! length (SupplyBuildpacks C))) NewSupplyFailError
         (\<lambda>finalPath. attempt (buildpacksMetadata H C (BuildpackOrder C)) id
            (\<lambda>buildpacks. ok (finalPath, buildpacks)))
      else go_panic ''index out of range'')"

definition runSupplyBuildpacks :: "host \<Rightarrow> Config \<Rightarrow> (runner, string \<times> BuildpackMetadata list) go" where
  "runSupplyBuildpacks H C =
     attempt (validateSupplyBuildpacks H C) id (\<lambda>_.
     attempt (for_each (runSupplyBuildpack H C) (List.enumerate 0 (SupplyBuildpacks C))) id (\<lambda>_.
       finalBuildpack H C))"

section \<open>Finalize\<close>

definition handleSupply :: "host \<Rightarrow> Config \<Rightarrow> string \<Rightarrow> string \<Rightarrow> string \<Rightarrow> (runner, unit) go" where
  "handleSupply H C path cacheDir depsIdx =
     attempt (hasSupply H path) NewSupplyFailError (\<lambda>has.
       if has then do {
         deps \<leftarrow> get depsDir;
         attempt (run_cmd H (Command (Join [path, ''bin'', ''supply'']) [BuildDir C, cacheDir, deps, depsIdx]))
           NewSupplyFailError ok }
       else ok ())"

definition handleFinalize :: "host \<Rightarrow> Config \<Rightarrow> string \<Rightarrow> string \<Rightarrow> string \<Rightarrow> (runner, unit) go" where
  "handleFinalize H C path cacheDir depsIdx =
     attempt (handleSupply H C path cacheDir depsIdx) id (\<lambda>_. do {
       deps \<leftarrow> get depsDir;
       profile \<leftarrow> get profileDir;
       attempt (run_cmd H (Command (Join [path, ''bin'', ''finalize''])
           [BuildDir C, cacheDir, deps, depsIdx, profile]))
         NewFinalizeFailError ok })"

definition handleNoFinalize :: "host \<Rightarrow> Config \<Rightarrow> string \<Rightarrow> string \<Rightarrow> string \<Rightarrow> (runner, unit) go" where
  "handleNoFinalize H C path cacheDir depsIdx =
     attempt (if length (SupplyBuildpacks C) > 0 then logError MissingFinalizeWarnMsg else ok ()) id (\<lambda>_. do {
       deps \<leftarrow> get depsDir;
       attempt (RemoveAll H (Join [deps, depsIdx])) NewCompileFailError (\<lambda>_.
         on_err (run_cmd H (Command (Join [path, ''bin'', ''compile'']) [BuildDir C, cacheDir]))
           (\<lambda>e. attempt (logError (''compile script failed '' @ Error e)) id
                  (\<lambda>_. fail (NewCompileFailError (Wrap e ''failed to compile droplet''))))
           ok) })"

definition runFinalize :: "host \<Rightarrow> Config \<Rightarrow> string \<Rightarrow> (runner, unit) go" where
  "runFinalize H C path =
     (let depsIdx = DepsIndex H C (length (SupplyBuildpacks C));
          cacheDir = Join [BuildArtifactsCacheDir C, ''final'']
      in attempt (hasFinalize H path) NewFinalizeFailError (\<lambda>has.
           if has then handleFinalize H C path cacheDir depsIdx
           else handleNoFinalize H C path cacheDir depsIdx))"

section \<open>Detect\<close>

definition executableMask :: "32 word" where
  "executableMask = perm_0111"

definition warnIfDetectNotExecutable :: "host \<Rightarrow> string \<Rightarrow> (runner, unit) go" where
  "warnIfDetectNotExecutable H path =
     attempt (Stat H (Join [path, ''bin'', ''detect''])) (\<lambda>e. Wrap e ''failed to find detect script'') (\<lambda>info.
       if and (fi_mode info) executableMask \<noteq> executableMask
       then effect (log_Println
              (''WARNING: buildpack script '' @ single_quoted ''/bin/detect'' @ '' is not executable''))
       else ok ())"

text \<open>The name that the detect script printed stands in for a missing one.\<close>

definition name_from_output :: "string \<Rightarrow> BuildpackMetadata \<Rightarrow> BuildpackMetadata" where
  "name_from_output output m =
     (if bm_Name m = '''' then m\<lparr>bm_Name := TrimRight output [CHR 0x0D, CHR 0x0A]\<rparr> else m)"

definition detected :: "host \<Rightarrow> Config \<Rightarrow> string \<Rightarrow> string \<Rightarrow> string \<Rightarrow> (runner, string \<times> BuildpackMetadata list) go" where
  "detected H C buildpack path output =
     attempt (buildpacksMetadata H C [buildpack]) id (\<lambda>buildpacks.
       case buildpacks of
         m # ms \<Rightarrow> ok (path, name_from_output output m # ms)
       | [] \<Rightarrow> go_panic ''index out of range'')"

fun detect_from :: "host \<Rightarrow> Config \<Rightarrow> string list \<Rightarrow> (runner, string \<times> BuildpackMetadata list) go" where
  "detect_from H C [] =
     fail (DescriptiveError DetectFailCode (Some (Errorf FullDetectFailMsg)) DetectFailMsg)"
| "detect_from H C (buildpack # buildpacks) =
     (let continue = (\<lambda>e. attempt (logError (Error e)) id (\<lambda>_. detect_from H C buildpacks)) in
      on_err (buildpackPath H C buildpack) continue (\<lambda>path.
      on_err (warnIfDetectNotExecutable H path) continue (\<lambda>_.
      on_err (runWithCapturing H (Command (Join [path, ''bin'', ''detect'']) [BuildDir C]))
        (\<lambda>_. detect_from H C buildpacks)
        (detected H C buildpack path))))"

definition detect :: "host \<Rightarrow> Config \<Rightarrow> (runner, string \<times> BuildpackMetadata list) go" where
  "detect H C = detect_from H C (BuildpackOrder C)"

definition supplyOrDetect :: "host \<Rightarrow> Config \<Rightarrow> (runner, string \<times> BuildpackMetadata list) go" where
  "supplyOrDetect H C = (if SkipDetect C then runSupplyBuildpacks H C else detect H C)"

end
