(* ===== verification/Supply.thy ===== *)
theory Supply
  imports Buildpacks
begin

text \<open>
  Locating buildpacks, their metadata, and the supply phase: which scripts are run, in which
  order, and what the phase gives in every outcome.
\<close>

section \<open>Effects of the helpers\<close>

lemma quiet_buildpackPath [effect_intros]: "quiet (buildpackPath H C bp)"
  unfolding buildpackPath_def pathHasBinDirectory_def nested_buildpack_def
  by (intro quiet.within_intros effect_intros)

lemma quiet_metadata [effect_intros]: "quiet (buildpacksMetadata H C bps)"
  unfolding buildpacksMetadata_def metadata_at_def
  by (intro quiet.within_intros effect_intros)

lemma no_runs_logError: "no_runs (logError s)"
  unfolding logError_def by (intro no_runs.within_effect no_runs_log)

lemma no_runs_validate: "no_runs (validateSupplyBuildpacks H C)"
  unfolding validateSupplyBuildpacks_def validateSupplyBuildpack_def
  by (intro no_runs.within_intros no_runs_logError; rule quiet_no_runs, rule effect_intros)

lemma no_runs_warn: "no_runs (warnIfDetectNotExecutable H p)"
  unfolding warnIfDetectNotExecutable_def
  by (intro no_runs.within_intros no_runs_log; rule quiet_no_runs, rule effect_intros)

section \<open>Locating a buildpack\<close>

text \<open>Where a buildpack can be found: its directory, or the only folder in it.\<close>

definition located :: "Config \<Rightarrow> string \<Rightarrow> string \<Rightarrow> bool" where
  "located C buildpack path \<longleftrightarrow>
     path = BuildpackPath (BuildpacksDir C) buildpack \<or>
     (\<exists>f. path = Join [BuildpackPath (BuildpacksDir C) buildpack, f])"

lemma pathHasBinDirectory_Ok:
  assumes "run_state (pathHasBinDirectory H p) w = (Ok b, w')"
  shows "fs w' = fs w \<and> (b \<longrightarrow> lookup (fs w) (resolve H (Join [p, ''bin''])) \<noteq> None)"
  using assms by (auto simp: pathHasBinDirectory_def ok_iffs dest: fs_unchanged elim!: Stat_OkE
    split: prod.splits result.splits)

lemma buildpackPath_Ok:
  assumes run: "run_state (buildpackPath H C bp) w = (Ok p, w')"
  shows "lookup (fs w) (resolve H (Join [p, ''bin''])) \<noteq> None \<and> fs w' = fs w \<and>
    (p = BuildpackPath (BuildpacksDir C) bp \<or>
     (\<exists>f. p = Join [BuildpackPath (BuildpacksDir C) bp, f] \<and>
        (\<exists>m es. lookup (fs w) (resolve H (BuildpackPath (BuildpacksDir C) bp)) = Some (Folder m es) \<and>
           set (map fst es) = {f})))"
proof -
  let ?b = "BuildpackPath (BuildpacksDir C) bp"
  from run obtain b w1 where 1: "run_state (pathHasBinDirectory H ?b) w = (Ok b, w1)"
    and rest: "run_state (if b then ok ?b else attempt (ReadDir H ?b)
          (\<lambda>e. Wrap e (''Failed to read buildpack directory '' @ single_quoted ?b @
             '' for buildpack '' @ single_quoted bp))
          (nested_buildpack H ?b bp)) w1 = (Ok p, w')"
    unfolding buildpackPath_def Let_def ok_iffs by blast
  note b = pathHasBinDirectory_Ok [OF 1]
  show ?thesis
  proof (cases b)
    case True
    with rest b show ?thesis by simp
  next
    case False
    from rest [unfolded if_not_P [OF False] ok_iffs] obtain files w2 where 2: "run_state (ReadDir H ?b) w1 = (Ok files, w2)"
      and n: "run_state (nested_buildpack H ?b bp files) w2 = (Ok p, w')"
      by blast
    from 2 obtain m es where d: "lookup (fs w1) (resolve H ?b) = Some (Folder m es)"
      "files = sort (remdups (map fst es))" "fs w2 = fs w1" by (rule ReadDir_OkE)
    from n obtain f where f: "files = [f]"
      by (auto simp: nested_buildpack_def split: list.splits)
    from n [unfolded f nested_buildpack_def list.case Let_def ok_iffs] obtain b' w3 where 3: "run_state (pathHasBinDirectory H (Join [?b, f])) w2 = (Ok b', w3)"
      and "run_state (if b' then ok (Join [?b, f]) else fail (malformed_buildpack bp)) w3 = (Ok p, w')"
      by blast
    then have p: "b'" "p = Join [?b, f]" "w' = w3" by (auto split: if_splits)
    have "set (map fst es) = set files" unfolding d(2) by simp
    with f p pathHasBinDirectory_Ok [OF 3] b d show ?thesis by auto
  qed
qed

lemma buildpackPath_located: "run_state (buildpackPath H C bp) w = (Ok p, w') \<Longrightarrow> located C bp p"
  using buildpackPath_Ok [of H C bp w p w'] by (auto simp: located_def)

text \<open>C34: A buildpack directory that \<^verbatim>\<open>buildpackPath\<close> finds has a \<^verbatim>\<open>bin\<close> entry, and it is the
  directory in which the buildpack was installed, or the only entry of that directory.
  Looking for it changes no file.\<close>

theorem buildpackPath_found:
  assumes "run_state (buildpackPath H C bp) w = (Ok p, w')"
  shows "lookup (fs w) (resolve H (Join [p, ''bin''])) \<noteq> None \<and> fs w' = fs w \<and>
    (p = BuildpackPath (BuildpacksDir C) bp \<or>
     (\<exists>f. p = Join [BuildpackPath (BuildpacksDir C) bp, f] \<and>
        (\<exists>m es. lookup (fs w) (resolve H (BuildpackPath (BuildpacksDir C) bp)) = Some (Folder m es) \<and>
           set (map fst es) = {f})))"
  by (rule buildpackPath_Ok [OF assms])

lemma buildpackPath_found_witness:
  "\<exists>w' p. run_state (buildpackPath sample_host sample_Config ''a'') (NewRunner sample_world) = (Ok p, w') \<and>
     lookup (fs (NewRunner sample_world)) (resolve sample_host (Join [p, ''bin''])) \<noteq> None"
proof -
  have "fst (run_state (buildpackPath sample_host sample_Config ''a'') (NewRunner sample_world)) =
      Ok ''/bp/0cc175b9c0f1b6a831c399e269772661''" by code_simp
  then obtain w' where
    run: "run_state (buildpackPath sample_host sample_Config ''a'') (NewRunner sample_world) =
      (Ok ''/bp/0cc175b9c0f1b6a831c399e269772661'', w')" by (rule run_fst)
  with buildpackPath_found [OF run] show ?thesis by blast
qed

section \<open>Metadata\<close>

text \<open>The metadata has one element for each buildpack, under its name.\<close>

lemma metadata_at_Ok: "run_state (metadata_at H C (i, key)) w = (Ok m, w') \<Longrightarrow> bm_Key m = key"
  by (auto simp: metadata_at_def zero_BuildpackMetadata_def Let_def split: prod.splits result.splits sum.splits)

lemma map_each_keys:
  "run_state (map_each (metadata_at H C) iks) w = (Ok ms, w') \<Longrightarrow> map bm_Key ms = map snd iks"
proof (induction iks arbitrary: w ms w')
  case (Cons ik iks)
  from Cons.prems [unfolded map_each.simps ok_iffs] obtain m w1 ms' w2 where
    "run_state (metadata_at H C ik) w = (Ok m, w1)"
    "run_state (map_each (metadata_at H C) iks) w1 = (Ok ms', w2)" "ms = m # ms'"
    by blast
  with Cons.IH metadata_at_Ok [of H C "fst ik" "snd ik"] show ?case by auto
qed simp

lemma buildpacksMetadata_keys:
  "run_state (buildpacksMetadata H C bps) w = (Ok ms, w') \<Longrightarrow> map bm_Key ms = bps"
  unfolding buildpacksMetadata_def by (drule map_each_keys) simp

text \<open>Reading metadata never fails: whatever is missing stays empty.\<close>

lemma metadata_at_total: "\<exists>m w'. run_state (metadata_at H C ik) w = (Ok m, w')"
proof -
  obtain i key where ik: "ik = (i, key)" by (cases ik)
  obtain r w1 where 1: "run_state (ReadFile H (Join [depsDir w, DepsIndex H C i, ''config.yml''])) w = (r, w1)"
    by fastforce
  have "returns (ReadFile H (Join [depsDir w, DepsIndex H C i, ''config.yml'']) :: (runner, string) go)" by simp
  then show ?thesis using 1
    by (rule returnsE) (auto simp: metadata_at_def ik Let_def 1 split: sum.split)
qed

lemma metadata_total:
  assumes "run_state (buildpacksMetadata H C bps) w = (r, w')"
  shows "\<exists>ms. r = Ok ms"
proof -
  have "\<exists>ms w'. run_state (map_each (metadata_at H C) iks) w = (Ok ms, w')" for iks and w
  proof (induction iks arbitrary: w)
    case (Cons ik iks)
    obtain m w1 where "run_state (metadata_at H C ik) w = (Ok m, w1)" using metadata_at_total by blast
    moreover obtain ms w2 where "run_state (map_each (metadata_at H C) iks) w1 = (Ok ms, w2)"
      using Cons.IH by blast
    ultimately show ?case by simp
  qed simp
  with assms show ?thesis by (metis buildpacksMetadata_def prod.inject)
qed

section \<open>Supply\<close>

lemma returns_helpers [simp, intro]:
  "returns (buildpackPath H C bp)" "returns (hasSupply H p)" "returns (hasFinalize H p)"
  "returns (buildpacksMetadata H C bps)" "returns (logError s)" "returns (run_cmd H c)"
  "returns (warnIfDetectNotExecutable H p)"
  unfolding buildpackPath_def pathHasBinDirectory_def nested_buildpack_def hasSupply_def
    hasFinalize_def fileExists_def buildpacksMetadata_def metadata_at_def logError_def run_cmd_def
    warnIfDetectNotExecutable_def
  by (intro returns_intros returns_basic_os returns_external)+

lemma run_cmd_runs:
  assumes "run_state (run_cmd H c) w = (r, w')"
  shows "world.more w' = world.more w \<and>
    (r = Ok () \<and> runs w' = runs w @ [(c, True)] \<or>
     (\<exists>e. r = Err e) \<and> runs w' = runs w @ [(c, False)])"
  using assms Run_cmd_runs [of H c w] by (auto simp: run_cmd_def split: prod.splits result.splits)

lemma no_runs_located:
  "run_state (buildpackPath H C bp) w = (r, w') \<Longrightarrow> runs w' = runs w \<and> world.more w' = world.more w"
  using no_runs_eq [OF quiet_no_runs [OF quiet_buildpackPath]]
    no_runs_more [OF quiet_no_runs [OF quiet_buildpackPath]] by simp

lemma no_runs_runner:
  fixes m :: "(runner, 'a) state"
  assumes "no_runs m" and "run_state m w = (r, w')"
  shows "runs w' = runs w \<and> depsDir w' = depsDir w \<and> contentsDir w' = contentsDir w \<and>
    profileDir w' = profileDir w"
  using no_runs_eq [OF assms] runner_fields [OF no_runs_more [OF assms]] by simp

lemma logError_runs: "run_state (attempt (logError s) id (\<lambda>_. fail e)) w = (r, w') \<Longrightarrow>
    r = Err e \<and> runs w' = runs w \<and> world.more w' = world.more w"
  by (auto simp: logError_def log_Println_def emit_def runs_def)

text \<open>One supplying buildpack: its script is run in the directory where it was found, unless it
  was not found.\<close>

lemma runSupplyBuildpack_cases:
  assumes run: "run_state (runSupplyBuildpack H C ib) w = (r, w')"
  shows "world.more w' = world.more w \<and>
    ((\<exists>p. located C (snd ib) p \<and> r = Ok () \<and>
        runs w' = runs w @ [(supply_command H C p (depsDir w) ib, True)]) \<or>
     (\<exists>p e. located C (snd ib) p \<and> r = Err (NewSupplyFailError e) \<and>
        runs w' = runs w @ [(supply_command H C p (depsDir w) ib, False)]) \<or>
     (\<exists>e. r = Err (NewSupplyFailError e) \<and> runs w' = runs w))"
proof -
  obtain r1 w1 where 1: "run_state (buildpackPath H C (snd ib)) w = (r1, w1)" by fastforce
  note quiet1 = no_runs_located [OF 1]
  have "returns (buildpackPath H C (snd ib) :: (runner, string) go)" by simp
  then show ?thesis using 1
  proof (rule returnsE)
    fix e assume "r1 = Err e"
    with run 1 quiet1 show ?thesis by (auto simp: runSupplyBuildpack_def)
  next
    fix p assume r1: "r1 = Ok p"
    let ?c = "supply_command H C p (depsDir w) ib"
    have p: "located C (snd ib) p" using 1 r1 by (auto intro: buildpackPath_located)
    have d: "depsDir w1 = depsDir w" using runner_fields quiet1 by blast
    obtain r2 w2 where 2: "run_state (run_cmd H ?c) w1 = (r2, w2)" by fastforce
    from run 1 r1 d 2 have step: "run_state (on_err (State (\<lambda>_. (r2, w2)))
         (\<lambda>e. attempt (logError (''supply script failed '' @ Error e)) id
                (\<lambda>_. fail (NewSupplyFailError e))) ok) w1 = (r, w')"
      by (simp add: runSupplyBuildpack_def)
    from run_cmd_runs [OF 2] show ?thesis
    proof (elim conjE disjE exE)
      assume "world.more w2 = world.more w1" "r2 = Ok ()" "runs w2 = runs w1 @ [(?c, True)]"
      with step quiet1 p show ?thesis by auto
    next
      fix e assume "world.more w2 = world.more w1" "r2 = Err e" and c: "runs w2 = runs w1 @ [(?c, False)]"
      with step have "run_state (attempt (logError (''supply script failed '' @ Error e)) id
          (\<lambda>_. fail (NewSupplyFailError e))) w2 = (r, w')" by simp
      from logError_runs [OF this] c quiet1 p \<open>world.more w2 = _\<close> show ?thesis by auto
    qed
  qed
qed

text \<open>\<open>supplied H C deps ibs cs\<close>: the runs \<open>cs\<close> are those of the supply scripts of the first
  buildpacks of \<open>ibs\<close>, in order, and only the last may have failed.\<close>

definition supplied :: "host \<Rightarrow> Config \<Rightarrow> string \<Rightarrow> (nat \<times> string) list \<Rightarrow> (command \<times> bool) list \<Rightarrow> bool" where
  "supplied H C deps ibs cs \<longleftrightarrow> length cs \<le> length ibs \<and> stops_at_failure cs \<and>
     list_all2 (\<lambda>ib (c, b). \<exists>p. located C (snd ib) p \<and> c = supply_command H C p deps ib)
       (take (length cs) ibs) cs"

lemma supplied_Nil [simp]: "supplied H C deps ibs []"
  by (simp add: supplied_def)

lemma supplied_Cons:
  "located C (snd ib) p \<Longrightarrow> supplied H C deps ibs cs \<Longrightarrow> b \<or> cs = [] \<Longrightarrow>
   supplied H C deps (ib # ibs) ((supply_command H C p deps ib, b) # cs)"
  by (cases b) (auto simp: supplied_def stops_Cons)

lemma supply_loop:
  "run_state (for_each (runSupplyBuildpack H C) ibs) w = (r, w') \<Longrightarrow>
   world.more w' = world.more w \<and>
   (\<exists>cs. runs w' = runs w @ cs \<and> supplied H C (depsDir w) ibs cs \<and>
      (r = Ok () \<and> length cs = length ibs \<and> list_all snd cs \<or>
       (\<exists>e. r = Err (NewSupplyFailError e))))"
proof (induction ibs arbitrary: w)
  case Nil
  then show ?case by auto
next
  case (Cons ib ibs)
  obtain r1 w1 where 1: "run_state (runSupplyBuildpack H C ib) w = (r1, w1)" by fastforce
  note one = runSupplyBuildpack_cases [OF 1]
  then have more: "world.more w1 = world.more w" by blast
  with runner_fields have d: "depsDir w1 = depsDir w" by blast
  from one consider (ok) p where "located C (snd ib) p" "r1 = Ok ()"
      "runs w1 = runs w @ [(supply_command H C p (depsDir w) ib, True)]"
    | (ran) p e where "located C (snd ib) p" "r1 = Err (NewSupplyFailError e)"
      "runs w1 = runs w @ [(supply_command H C p (depsDir w) ib, False)]"
    | (missing) e where "r1 = Err (NewSupplyFailError e)" "runs w1 = runs w"
    by blast
  then show ?case
  proof cases
    case ok
    with Cons.prems 1 have "run_state (for_each (runSupplyBuildpack H C) ibs) w1 = (r, w')" by simp
    from Cons.IH [OF this] obtain cs where cs: "runs w' = runs w1 @ cs"
      "supplied H C (depsDir w) ibs cs" "world.more w' = world.more w"
      "r = Ok () \<and> length cs = length ibs \<and> list_all snd cs \<or> (\<exists>e. r = Err (NewSupplyFailError e))"
      by (auto simp: d more)
    show ?thesis
      using cs ok supplied_Cons [OF ok(1) cs(2), of True]
      by (intro conjI exI [of _ "(supply_command H C p (depsDir w) ib, True) # cs"]) auto
  next
    case ran
    with Cons.prems 1 have "r = Err (NewSupplyFailError e)" "w' = w1" by auto
    with ran more supplied_Cons [OF ran(1) supplied_Nil, of False H "depsDir w" ibs] show ?thesis
      by (intro conjI exI [of _ "[(supply_command H C p (depsDir w) ib, False)]"]) auto
  next
    case missing
    with Cons.prems 1 more show ?thesis by (intro conjI exI [of _ "[]"]) auto
  qed
qed

text \<open>Validation runs no script, and its errors carry the supply exit code.\<close>

lemma validate_Err:
  assumes "run_state (validateSupplyBuildpacks H C) w = (Err e, w')"
  shows "as_DescriptiveError e = Some SupplyFailCode"
proof -
  from assms obtain bp w1 where "run_state (validateSupplyBuildpack H C bp) w1 = (Err e, w')"
    unfolding validateSupplyBuildpacks_def by (rule for_each_ErrE)
  then show ?thesis
    by (auto simp: validateSupplyBuildpack_def logError_def split: prod.splits result.splits if_splits)
qed

lemma returns_validate [simp, intro]: "returns (validateSupplyBuildpacks H C)"
  unfolding validateSupplyBuildpacks_def validateSupplyBuildpack_def
  by (intro returns_intros returns_helpers)

lemma returns_runSupply [simp, intro]: "returns (runSupplyBuildpack H C ib)"
  unfolding runSupplyBuildpack_def by (intro returns_intros returns_helpers)

lemma finalBuildpack_cases:
  assumes "run_state (finalBuildpack H C) w = (r, w')"
  shows "runs w' = runs w \<and> world.more w' = world.more w \<and>
    (case r of
       Ok (path, md) \<Rightarrow> located C (BuildpackOrder C ! length (SupplyBuildpacks C)) path \<and> map bm_Key md = BuildpackOrder C
     | Err e \<Rightarrow> as_DescriptiveError e = Some SupplyFailCode
     | Panic s \<Rightarrow> length (BuildpackOrder C) \<le> length (SupplyBuildpacks C)
     | Exit n \<Rightarrow> False)"
proof (intro conjI)
  have "no_runs (finalBuildpack H C)"
    unfolding finalBuildpack_def
    by (intro no_runs.within_intros; rule quiet_no_runs, rule effect_intros)
  from no_runs_eq [OF this assms] no_runs_more [OF this assms]
  show "runs w' = runs w" "world.more w' = world.more w" .
  show "case r of
       Ok (path, md) \<Rightarrow> located C (BuildpackOrder C ! length (SupplyBuildpacks C)) path \<and> map bm_Key md = BuildpackOrder C
     | Err e \<Rightarrow> as_DescriptiveError e = Some SupplyFailCode
     | Panic s \<Rightarrow> length (BuildpackOrder C) \<le> length (SupplyBuildpacks C)
     | Exit n \<Rightarrow> False"
  proof (cases "length (SupplyBuildpacks C) < length (BuildpackOrder C)")
    case False
    with assms show ?thesis by (auto simp: finalBuildpack_def)
  next
    case True
    let ?bp = "BuildpackOrder C ! length (SupplyBuildpacks C)"
    obtain r1 w1 where 1: "run_state (buildpackPath H C ?bp) w = (r1, w1)" by fastforce
    have "returns (buildpackPath H C ?bp :: (runner, string) go)" by simp
    then show ?thesis using 1
    proof (rule returnsE)
      fix e assume "r1 = Err e"
      with assms 1 True show ?thesis by (auto simp: finalBuildpack_def)
    next
      fix p assume r1: "r1 = Ok p"
      with 1 have p: "located C ?bp p" by (auto intro: buildpackPath_located)
      obtain r2 w2 where 2: "run_state (buildpacksMetadata H C (BuildpackOrder C)) w1 = (r2, w2)" by fastforce
      from metadata_total [OF this] obtain ms where r2: "r2 = Ok ms" ..
      from buildpacksMetadata_keys [OF 2 [unfolded r2]] assms 1 2 r1 r2 True p show ?thesis
        by (auto simp: finalBuildpack_def)
    qed
  qed
qed

lemma runSupplyBuildpacks_cases:
  assumes run: "run_state (runSupplyBuildpacks H C) w = (r, w')"
  shows "world.more w' = world.more w \<and>
    (\<exists>cs. runs w' = runs w @ cs \<and>
       supplied H C (depsDir w) (List.enumerate 0 (SupplyBuildpacks C)) cs \<and>
       (case r of
          Ok (path, md) \<Rightarrow>
            length cs = length (SupplyBuildpacks C) \<and> list_all snd cs \<and>
            located C (BuildpackOrder C ! length (SupplyBuildpacks C)) path \<and>
            map bm_Key md = BuildpackOrder C
        | Err e \<Rightarrow> as_DescriptiveError e = Some SupplyFailCode
        | Panic s \<Rightarrow> length (BuildpackOrder C) \<le> length (SupplyBuildpacks C)
        | Exit n \<Rightarrow> False))"
proof -
  obtain r1 w1 where 1: "run_state (validateSupplyBuildpacks H C) w = (r1, w1)" by fastforce
  have v: "runs w1 = runs w" "depsDir w1 = depsDir w"
    using no_runs_runner [OF no_runs_validate 1] by simp_all
  have m1: "world.more w1 = world.more w" by (rule no_runs_more [OF no_runs_validate 1])
  have "returns (validateSupplyBuildpacks H C)" by simp
  then show ?thesis using 1
  proof (rule returnsE)
    fix e assume r1: "r1 = Err e"
    with validate_Err 1 v(1) m1 run show ?thesis
      by (auto simp: runSupplyBuildpacks_def intro!: exI [of _ "[]"])
  next
    fix u assume r1: "r1 = Ok u"
    let ?ibs = "List.enumerate 0 (SupplyBuildpacks C)"
    obtain r2 w2 where 2: "run_state (for_each (runSupplyBuildpack H C) ?ibs) w1 = (r2, w2)" by fastforce
    from supply_loop [OF 2, unfolded v m1] obtain cs where cs: "runs w2 = runs w @ cs"
      "supplied H C (depsDir w) ?ibs cs" "world.more w2 = world.more w"
      and r2: "r2 = Ok () \<and> length cs = length ?ibs \<and> list_all snd cs \<or> (\<exists>e. r2 = Err (NewSupplyFailError e))"
      by blast
    from r2 show ?thesis
    proof (elim disjE exE conjE)
      fix e assume "r2 = Err (NewSupplyFailError e)"
      with 1 r1 2 cs run show ?thesis by (auto simp: runSupplyBuildpacks_def intro!: exI [of _ cs])
    next
      assume ok: "r2 = Ok ()" "length cs = length ?ibs" "list_all snd cs"
      with 1 r1 2 run have 3: "run_state (finalBuildpack H C) w2 = (r, w')"
        by (simp add: runSupplyBuildpacks_def)
      from finalBuildpack_cases [OF 3] cs ok show ?thesis
        by (intro conjI exI [of _ cs]) (auto split: result.splits)
    qed
  qed
qed

text \<open>C7: The supply phase, for every outcome. The scripts that were run are those of the first
  supplying buildpacks, in their order, each in the directory where its buildpack was found and
  with the build directory, its own cache directory, the dependency directory and its index as
  arguments; a script that fails is the last one. If the phase succeeds all of them were run
  successfully, the result is the directory of the final buildpack, and the metadata has the
  names of all buildpacks. If it fails the error carries the supply exit code; it can only
  panic when there is no final buildpack.\<close>

theorem runSupplyBuildpacks_outcome:
  "case run_state (runSupplyBuildpacks H C) w of (r, w') \<Rightarrow>
     \<exists>cs. runs w' = runs w @ cs \<and>
       supplied H C (depsDir w) (List.enumerate 0 (SupplyBuildpacks C)) cs \<and>
       (case r of
          Ok (path, md) \<Rightarrow>
            length cs = length (SupplyBuildpacks C) \<and> list_all snd cs \<and>
            located C (BuildpackOrder C ! length (SupplyBuildpacks C)) path \<and>
            map bm_Key md = BuildpackOrder C
        | Err e \<Rightarrow> as_DescriptiveError e = Some SupplyFailCode
        | Panic s \<Rightarrow> length (BuildpackOrder C) \<le> length (SupplyBuildpacks C)
        | Exit n \<Rightarrow> False)"
proof -
  obtain r w' where run: "run_state (runSupplyBuildpacks H C) w = (r, w')" by fastforce
  from runSupplyBuildpacks_cases [OF run] show ?thesis unfolding run prod.case by blast
qed

end
