(* ===== verification/Finalize.thy ===== *)
theory Finalize
  imports Supply
begin

text \<open>
  The finalize phase: which scripts of the final buildpack are run, in which order, and what
  the phase gives in every outcome.
\<close>

section \<open>Finalize\<close>

lemma IsNotExist_PathError [simp]: "IsNotExist (PathError op p en) \<longleftrightarrow> en = ENOENT"
  by (cases en) simp_all

lemma syscall_ENOENT:
  assumes "run_state (syscall H op p act) w = (Err e, w')" and "IsNotExist e" and "p \<noteq> ''''"
  shows "\<exists>t. act (resolve H p) (fs w) = (Inl ENOENT, t)"
  using assms by (auto simp: syscall_def Let_def split: option.splits prod.splits sum.splits)

lemma fileExists_Ok:
  assumes "run_state (fileExists H f) w = (Ok b, w')" and "f \<noteq> ''''"
  shows "fs w' = fs w \<and> (b \<longleftrightarrow> lookup (fs w) (resolve H f) \<noteq> None)"
proof -
  obtain r w1 where 1: "run_state (Stat H f) w = (r, w1)" by fastforce
  have "returns (Stat H f :: ('a world_scheme, file_info) go)" by simp
  then show ?thesis using 1
  proof (rule returnsE)
    fix i assume r: "r = Ok i"
    with 1 obtain n where "lookup (fs w) (resolve H f) = Some n" "fs w1 = fs w"
      by (auto elim: Stat_OkE)
    with assms(1) 1 r show ?thesis by (auto simp: fileExists_def)
  next
    fix e assume r: "r = Err e"
    with assms(1) 1 have b: "\<not> b" "IsNotExist e" "w1 = w'" by (auto simp: fileExists_def split: if_splits)
    with syscall_ENOENT [OF 1 [unfolded r Stat_def] b(2) assms(2)]
    have "walk (fs w) (resolve H f) = Inl ENOENT"
      by (auto simp: look_def split: sum.splits)
    with b walk_InlD fs_unchanged(1) [OF 1] show ?thesis by auto
  qed
qed

definition script_present :: "host \<Rightarrow> node \<Rightarrow> string \<Rightarrow> string \<Rightarrow> bool" where
  "script_present H t path name \<longleftrightarrow> lookup t (resolve H (Join [path, ''bin'', name])) \<noteq> None"

lemma Join_bin_nonempty: "plain name \<Longrightarrow> Join [path, ''bin'', name] \<noteq> ''''"
proof
  assume n: "plain name" and "Join [path, ''bin'', name] = ''''"
  then have "path_comps (Join [path, ''bin'', name]) = []" by (simp add: path_comps_def)
  moreover have "list_all plain [''bin'', name]" using n by (auto simp: plain_def)
  ultimately show False using path_comps_Join_plain [of "[''bin'', name]" path] by simp
qed

lemma has_Ok:
  "run_state (hasSupply H path) w = (Ok b, w') \<Longrightarrow> fs w' = fs w \<and> b = script_present H (fs w) path ''supply''"
  "run_state (hasFinalize H path) w = (Ok b, w') \<Longrightarrow> fs w' = fs w \<and> b = script_present H (fs w) path ''finalize''"
  unfolding hasSupply_def hasFinalize_def script_present_def
  by (drule fileExists_Ok, simp add: Join_bin_nonempty plain_def, blast)+

lemma no_runs_has: "no_runs (hasSupply H path)" "no_runs (hasFinalize H path)"
  by (rule quiet_no_runs, rule quiet_has)+

definition last_index :: "host \<Rightarrow> Config \<Rightarrow> string" where
  "last_index H C = DepsIndex H C (length (SupplyBuildpacks C))"

definition final_cache :: "Config \<Rightarrow> string" where
  "final_cache C = Join [BuildArtifactsCacheDir C, ''final'']"

definition finalize_commands :: "host \<Rightarrow> Config \<Rightarrow> string \<Rightarrow> runner \<Rightarrow> command list" where
  "finalize_commands H C path w =
     (let script = (\<lambda>name args. Command (Join [path, ''bin'', name]) ([BuildDir C, final_cache C] @ args)) in
      if script_present H (fs w) path ''finalize'' then
        (if script_present H (fs w) path ''supply''
         then [script ''supply'' [depsDir w, last_index H C]] else []) @
        [script ''finalize'' [depsDir w, last_index H C, profileDir w]]
      else [script ''compile'' []])"

text \<open>The exit code that belongs to each of these scripts, and what has run when the \<open>k\<close>-th failed.\<close>

definition finalize_codes :: "host \<Rightarrow> string \<Rightarrow> node \<Rightarrow> int list" where
  "finalize_codes H path t =
     (if script_present H t path ''finalize''
      then (if script_present H t path ''supply'' then [SupplyFailCode] else []) @ [FinalizeFailCode]
      else [CompileFailCode])"

definition failed_at :: "command list \<Rightarrow> nat \<Rightarrow> (command \<times> bool) list" where
  "failed_at cs k = all_succeeded (take k cs) @ [(cs ! k, False)]"

lemma ran_failed_at: "k < length cs \<Longrightarrow> ran_up_to cs (failed_at cs k)"
proof -
  assume "k < length cs"
  then have "map fst (failed_at cs k) = take (Suc k) cs" by (simp add: failed_at_def comp_def take_Suc_conv_app_nth)
  then show ?thesis by (simp add: ran_up_to_def failed_at_def stops_all_succeeded take_is_prefix)
qed

text \<open>A sequence of scripts with their codes: all succeeded, or one failed and its code is that
  of the error.\<close>

definition scripts_result :: "command list \<Rightarrow> int list \<Rightarrow> (command \<times> bool) list \<Rightarrow> unit result \<Rightarrow> bool" where
  "scripts_result cs codes rs r \<longleftrightarrow> r = Ok () \<and> rs = all_succeeded cs \<or>
     (\<exists>k<length cs. \<exists>e. r = Err e \<and> rs = failed_at cs k \<and> as_DescriptiveError e = Some (codes ! k))"

lemma scripts_result_intros:
  "scripts_result [c] [n] [(c, True)] (Ok ())"
  "as_DescriptiveError e = Some n \<Longrightarrow> scripts_result [c] [n] [(c, False)] (Err e)"
  "as_DescriptiveError e = Some m \<Longrightarrow> scripts_result [c, d] [m, n] [(c, False)] (Err e)"
  "scripts_result [c, d] [m, n] [(c, True), (d, True)] (Ok ())"
  "as_DescriptiveError e = Some n \<Longrightarrow> scripts_result [c, d] [m, n] [(c, True), (d, False)] (Err e)"
proof -
  show "as_DescriptiveError e = Some n \<Longrightarrow> scripts_result [c, d] [m, n] [(c, True), (d, False)] (Err e)"
    unfolding scripts_result_def by (intro disjI2 exI [of _ 1]) (simp add: failed_at_def)
qed (auto simp: scripts_result_def failed_at_def intro!: exI [of _ 0])

lemma handleSupply_cases:
  assumes run: "run_state (handleSupply H C path cache idx) w = (r, w')"
  shows "world.more w' = world.more w \<and>
    (let c = Command (Join [path, ''bin'', ''supply'']) [BuildDir C, cache, depsDir w, idx];
         present = script_present H (fs w) path ''supply'' in
     (r = Ok () \<and> runs w' = runs w @ (if present then [(c, True)] else [])) \<or>
     (\<exists>e. r = Err (NewSupplyFailError e) \<and> runs w' = runs w \<and> fst (run_state (hasSupply H path) w) = Err e) \<or>
     (\<exists>e. r = Err (NewSupplyFailError e) \<and> present \<and> runs w' = runs w @ [(c, False)]))"
proof -
  obtain r1 w1 where 1: "run_state (hasSupply H path) w = (r1, w1)" by fastforce
  note q = no_runs_runner [OF no_runs_has(1) 1] and m = no_runs_more [OF no_runs_has(1) 1]
  have "returns (hasSupply H path :: (runner, bool) go)" by simp
  then show ?thesis using 1
  proof (rule returnsE)
    fix e assume "r1 = Err e"
    with run 1 q m show ?thesis by (auto simp: handleSupply_def Let_def)
  next
    fix b assume r1: "r1 = Ok b"
    then have b: "b = script_present H (fs w) path ''supply''" using has_Ok(1) 1 by blast
    let ?c = "Command (Join [path, ''bin'', ''supply'']) [BuildDir C, cache, depsDir w, idx]"
    show ?thesis
    proof (cases b)
      case False
      with run 1 r1 q m b show ?thesis by (auto simp: handleSupply_def Let_def)
    next
      case True
      obtain r2 w2 where 2: "run_state (run_cmd H ?c) w1 = (r2, w2)" by fastforce
      from run_cmd_runs [OF 2] run 1 2 r1 q m b True show ?thesis
        by (elim conjE disjE exE) (simp_all add: handleSupply_def Let_def, auto)
    qed
  qed
qed

lemma runner_eqs: "world.more (r :: runner) = world.more r' \<Longrightarrow> depsDir r = depsDir r'"
  "world.more (r :: runner) = world.more r' \<Longrightarrow> profileDir r = profileDir r'"
  using runner_fields by blast+

lemma handleFinalize_cases:
  assumes run: "run_state (handleFinalize H C path cache idx) w = (r, w')"
  defines "S \<equiv> Command (Join [path, ''bin'', ''supply'']) [BuildDir C, cache, depsDir w, idx]"
    and "F \<equiv> Command (Join [path, ''bin'', ''finalize'']) [BuildDir C, cache, depsDir w, idx, profileDir w]"
    and "present \<equiv> script_present H (fs w) path ''supply''"
  shows "world.more w' = world.more w \<and>
    (\<exists>rs. runs w' = runs w @ rs \<and>
      (scripts_result ((if present then [S] else []) @ [F])
         ((if present then [SupplyFailCode] else []) @ [FinalizeFailCode]) rs r \<or>
       rs = [] \<and> (\<exists>e. r = Err (NewSupplyFailError e) \<and> fst (run_state (hasSupply H path) w) = Err e)))"
proof -
  obtain r1 w1 where 1: "run_state (handleSupply H C path cache idx) w = (r1, w1)" by fastforce
  note s = handleSupply_cases [OF 1, folded S_def present_def, unfolded Let_def]
  then have m: "world.more w1 = world.more w" by blast
  have d: "depsDir w1 = depsDir w" "profileDir w1 = profileDir w" using runner_eqs [OF m] by auto
  from s consider (ok) "r1 = Ok ()" "runs w1 = runs w @ (if present then [(S, True)] else [])"
    | (none) e where "r1 = Err (NewSupplyFailError e)" "runs w1 = runs w" "fst (run_state (hasSupply H path) w) = Err e"
    | (failed) e where "r1 = Err (NewSupplyFailError e)" present "runs w1 = runs w @ [(S, False)]"
    by blast
  then show ?thesis
  proof cases
    case ok
    obtain r2 w2 where 2: "run_state (run_cmd H F) w1 = (r2, w2)" by fastforce
    from run 1 2 ok(1) d have "r = (case r2 of Ok u \<Rightarrow> Ok () | Err e \<Rightarrow> Err (NewFinalizeFailError e)
        | Panic t \<Rightarrow> Panic t | Exit n \<Rightarrow> Exit n) \<and> w' = w2"
      by (auto simp: handleFinalize_def F_def split: result.splits)
    with run_cmd_runs [OF 2] ok(2) m show ?thesis
      by (cases present) (auto intro!: scripts_result_intros)
  next
    case none
    with run 1 m show ?thesis by (auto simp: handleFinalize_def)
  next
    case failed
    with run 1 m show ?thesis by (auto simp: handleFinalize_def intro!: scripts_result_intros)
  qed
qed

lemma warn_runs:
  "run_state (if b then logError s else ok ()) w = (r, w') \<Longrightarrow>
   r = Ok () \<and> runs w' = runs w \<and> world.more w' = world.more w"
  by (cases b) (auto simp: logError_def log_Println_def emit_def runs_def)

lemma warn_fs: "run_state (if b then logError s else ok ()) w = (r, w') \<Longrightarrow> fs w' = fs w"
  by (cases b) (auto simp: logError_def log_Println_def emit_def)

lemma handleNoFinalize_cases:
  assumes run: "run_state (handleNoFinalize H C path cache idx) w = (r, w')"
  defines "K \<equiv> Command (Join [path, ''bin'', ''compile'']) [BuildDir C, cache]"
  shows "world.more w' = world.more w \<and>
    (\<exists>rs. runs w' = runs w @ rs \<and>
      (scripts_result [K] [CompileFailCode] rs r \<or>
       rs = [] \<and> (\<exists>e (v :: runner). r = Err (NewCompileFailError e) \<and> fs v = fs w \<and>
         fst (run_state (RemoveAll H (Join [depsDir w, idx])) v) = Err e)))"
proof -
  let ?warn = "if length (SupplyBuildpacks C) > 0 then logError MissingFinalizeWarnMsg else ok ()"
  obtain r1 w1 where 1: "run_state ?warn w = (r1, w1)" by fastforce
  note q1 = warn_runs [OF 1]
  let ?d = "Join [depsDir w1, idx]"
  obtain r2 w2 where 2: "run_state (RemoveAll H ?d) w1 = (r2, w2)" by fastforce
  have nr: "no_runs (RemoveAll H ?d)" by (rule quiet_no_runs, rule effect_intros)
  note q2 = no_runs_eq [OF nr 2] no_runs_more [OF nr 2]
  have "returns (RemoveAll H ?d :: (runner, unit) go)" by simp
  then show ?thesis using 2
  proof (rule returnsE)
    fix e assume "r2 = Err e"
    moreover have "depsDir w1 = depsDir w" using q1 runner_eqs(1) by blast
    moreover have "fs w1 = fs w" using warn_fs [OF 1] .
    ultimately show ?thesis using run 1 2 q1 q2
      by (auto simp: handleNoFinalize_def intro!: exI [of _ "[]"] exI [of _ w1])
  next
    fix u assume r2: "r2 = Ok u"
    obtain r3 w3 where 3: "run_state (run_cmd H K) w2 = (r3, w3)" by fastforce
    from run_cmd_runs [OF 3] show ?thesis
    proof (elim conjE disjE exE)
      assume "r3 = Ok ()" "world.more w3 = world.more w2" "runs w3 = runs w2 @ [(K, True)]"
      with run 1 2 3 r2 q1 q2 show ?thesis
        by (auto simp: handleNoFinalize_def K_def intro: scripts_result_intros)
    next
      fix e assume e: "r3 = Err e" "world.more w3 = world.more w2" "runs w3 = runs w2 @ [(K, False)]"
      with run 1 2 3 r2 q1 have "run_state (attempt (logError (''compile script failed '' @ Error e)) id
          (\<lambda>_. fail (NewCompileFailError (Wrap e ''failed to compile droplet'')))) w3 = (r, w')"
        by (auto simp: handleNoFinalize_def K_def)
      from logError_runs [OF this] e q1 q2 show ?thesis by (auto intro: scripts_result_intros)
    qed
  qed
qed

text \<open>A phase that ends before its first script: one of the looks at the file system failed, or
  the removal of the dependency directory.\<close>

definition finalize_blocked :: "host \<Rightarrow> Config \<Rightarrow> string \<Rightarrow> runner \<Rightarrow> go_error \<Rightarrow> bool" where
  "finalize_blocked H C path w e =
     (case run_state (hasFinalize H path) w of
        (Ok present, v) \<Rightarrow>
          if present then \<exists>e'. fst (run_state (hasSupply H path) v) = Err e' \<and> e = NewSupplyFailError e'
          else \<exists>e' (v' :: runner). fs v' = fs w \<and> fst (run_state (RemoveAll H (Join [depsDir w, last_index H C])) v') = Err e' \<and>
            e = NewCompileFailError e'
      | (Err e', v) \<Rightarrow> e = NewFinalizeFailError e'
      | (_, v) \<Rightarrow> False)"

lemma runFinalize_result:
  assumes run: "run_state (runFinalize H C path) w = (r, w')"
  shows "world.more w' = world.more w \<and>
    (\<exists>rs. runs w' = runs w @ rs \<and>
       (scripts_result (finalize_commands H C path w) (finalize_codes H path (fs w)) rs r \<or>
        rs = [] \<and> (\<exists>e. r = Err e \<and> finalize_blocked H C path w e)))"
proof -
  obtain r1 w1 where 1: "run_state (hasFinalize H path) w = (r1, w1)" by fastforce
  note q = no_runs_runner [OF no_runs_has(2) 1] and m = no_runs_more [OF no_runs_has(2) 1]
  have "returns (hasFinalize H path :: (runner, bool) go)" by simp
  then show ?thesis using 1
  proof (rule returnsE)
    fix e assume "r1 = Err e"
    with 1 q m run show ?thesis
      by (auto simp: runFinalize_def Let_def finalize_blocked_def)
  next
    fix b assume r1: "r1 = Ok b"
    then have f: "fs w1 = fs w" and b: "b = script_present H (fs w) path ''finalize''"
      using has_Ok(2) 1 by blast+
    show ?thesis
    proof (cases b)
      case True
      with 1 r1 run have 2: "run_state (handleFinalize H C path (final_cache C) (last_index H C)) w1 = (r, w')"
        by (simp add: runFinalize_def Let_def final_cache_def last_index_def)
      show ?thesis
        using handleFinalize_cases [OF 2] 1 r1 q m f b True
        by (auto simp: finalize_commands_def finalize_codes_def finalize_blocked_def Let_def)
    next
      case False
      with 1 r1 run have 2: "run_state (handleNoFinalize H C path (final_cache C) (last_index H C)) w1 = (r, w')"
        by (simp add: runFinalize_def Let_def final_cache_def last_index_def)
      show ?thesis
        using handleNoFinalize_cases [OF 2] 1 r1 q m f b False
        by (auto simp: finalize_commands_def finalize_codes_def finalize_blocked_def Let_def)
    qed
  qed
qed

lemma runFinalize_cases:
  assumes run: "run_state (runFinalize H C path) w = (r, w')"
  shows "world.more w' = world.more w \<and>
    (\<exists>rs. runs w' = runs w @ rs \<and> ran_up_to (finalize_commands H C path w) rs \<and>
       (case r of
          Ok u \<Rightarrow> rs = map (\<lambda>c. (c, True)) (finalize_commands H C path w)
        | Err e \<Rightarrow> as_DescriptiveError e \<in> Some ` {SupplyFailCode, FinalizeFailCode, CompileFailCode}
        | Panic s \<Rightarrow> False
        | Exit n \<Rightarrow> False))"
proof -
  have codes: "finalize_codes H path (fs w) ! k \<in> {SupplyFailCode, FinalizeFailCode, CompileFailCode}"
    if "k < length (finalize_commands H C path w)" for k
    using that by (auto simp: finalize_codes_def finalize_commands_def Let_def less_Suc_eq nth_Cons' split: if_splits)
  have blocked: "as_DescriptiveError e \<in> Some ` {SupplyFailCode, FinalizeFailCode, CompileFailCode}"
    if "finalize_blocked H C path w e" for e
    using that by (auto simp: finalize_blocked_def split: prod.splits result.splits if_splits)
  from runFinalize_result [OF run] obtain rs where m: "world.more w' = world.more w" and rs: "runs w' = runs w @ rs"
    and res: "scripts_result (finalize_commands H C path w) (finalize_codes H path (fs w)) rs r \<or>
        rs = [] \<and> (\<exists>e. r = Err e \<and> finalize_blocked H C path w e)" by blast
  from res show ?thesis
  proof
    assume "scripts_result (finalize_commands H C path w) (finalize_codes H path (fs w)) rs r"
    with m rs codes ran_failed_at show ?thesis unfolding scripts_result_def by (elim disjE exE conjE) auto
  next
    assume "rs = [] \<and> (\<exists>e. r = Err e \<and> finalize_blocked H C path w e)"
    with m rs blocked show ?thesis by auto
  qed
qed

text \<open>C8: The finalize phase, for every outcome. With a finalize script, the supply script of the
  final buildpack is run if there is one and then the finalize script; without one only the
  compile script is run. The phase succeeds exactly when all of them have run successfully. When
  one of them fails, it is the last that has run, and the error carries the exit code of that
  script. Without any run the phase fails only because a look at the file system failed or the
  dependency directory could not be removed, with the exit code of that step.\<close>

theorem runFinalize_outcome:
  "case run_state (runFinalize H C path) w of (r, w') \<Rightarrow>
     \<exists>rs. runs w' = runs w @ rs \<and>
       (case r of
          Ok u \<Rightarrow> rs = all_succeeded (finalize_commands H C path w)
        | Err e \<Rightarrow>
            (\<exists>k<length (finalize_commands H C path w). rs = failed_at (finalize_commands H C path w) k \<and>
               as_DescriptiveError e = Some (finalize_codes H path (fs w) ! k)) \<or>
            rs = [] \<and> finalize_blocked H C path w e
        | Panic s \<Rightarrow> False
        | Exit n \<Rightarrow> False)"
proof -
  obtain r w' where run: "run_state (runFinalize H C path) w = (r, w')" by fastforce
  from runFinalize_result [OF run] show ?thesis
    unfolding run prod.case scripts_result_def by (elim conjE exE disjE) auto
qed

end
