(* ===== verification/Files.thy ===== *)
theory Files
  imports Traces
begin

text \<open>
  Writing files: what creating, truncating, appending to and changing the mode of one file
  does to the tree. All other files keep their content and mode, and no folder appears or
  disappears.
\<close>

section \<open>Changes of one file\<close>

definition touches :: "string list \<Rightarrow> node \<Rightarrow> node \<Rightarrow> bool" where
  "touches p t t' \<longleftrightarrow>
     (\<forall>q m s. q \<noteq> p \<longrightarrow> (lookup t' q = Some (File m s) \<longleftrightarrow> lookup t q = Some (File m s))) \<and>
     (\<forall>q. folder_at t' q = folder_at t q)"

abbreviation touching :: "string list \<Rightarrow> ('x world_scheme, 'a) state \<Rightarrow> bool" where
  "touching p m \<equiv> state_io_rel (\<lambda>w w'. touches p (fs w) (fs w')) m"

interpretation touching: effect_relation "\<lambda>w w' :: 'x world_scheme. touches p (fs w) (fs w')" for p
  by unfold_locales (auto simp: touches_def)

lemma touches_refl [simp]: "touches p t t"
  by (simp add: touches_def)

lemma touches_trans: "touches p t1 t2 \<Longrightarrow> touches p t2 t3 \<Longrightarrow> touches p t1 t3"
  by (auto simp: touches_def)

lemma touches_file: "touches p t t' \<Longrightarrow> q \<noteq> p \<Longrightarrow>
    lookup t' q = Some (File m s) \<longleftrightarrow> lookup t q = Some (File m s)"
  by (simp add: touches_def)

lemma touches_folder: "touches p t t' \<Longrightarrow> folder_at t' q = folder_at t q"
  by (simp add: touches_def)

text \<open>Replacing a node by one with the same subtree below it.\<close>

lemma put_touches:
  assumes here: "lookup t p = None \<longrightarrow> p \<noteq> [] \<and> folder_at t (butlast p)"
    and kind: "is_folder v \<longleftrightarrow> folder_at t p"
    and below: "\<And>x q. lookup v (x # q) = (case lookup t p of None \<Rightarrow> None | Some n \<Rightarrow> lookup n (x # q))"
  shows "touches p t (put p v t)"
proof -
  let ?t' = "put p v t"
  note at = lookup_put_same [OF here, of v]
  have below: "lookup ?t' q = lookup t q" if "strict_prefix p q" for q
  proof -
    from that obtain y ys where q: "q = p @ y # ys" by (auto elim: strict_prefixE')
    with at below show ?thesis by (simp add: lookup_append split: option.split)
  qed
  have beside: "lookup ?t' q = lookup t q" if "p \<parallel> q" for q
    using that by (simp add: put_def lookup_upd_parallel)
  have above: "folder_at ?t' q = folder_at t q"
    "lookup ?t' q = Some (File m' s) \<longleftrightarrow> lookup t q = Some (File m' s)" if "strict_prefix q p" for q m' s
    using lookup_upd_above [OF that, of "\<lambda>_. Some v" t] by (auto simp: put_def folder_at_iff)
  have same: "folder_at ?t' p = folder_at t p"
    using at kind by (cases v) (auto simp: folder_at_iff)
  have "q = p \<or> strict_prefix p q \<or> strict_prefix q p \<or> p \<parallel> q" for q
    by (auto simp: parallel_def)
  then show ?thesis
    unfolding touches_def using below beside above same folder_at_iff by metis
qed

lemma put_file_touches:
  "lookup t p = None \<longrightarrow> p \<noteq> [] \<and> folder_at t (butlast p) \<Longrightarrow> \<not> folder_at t p \<Longrightarrow>
   touches p t (put p (File m s) t)"
  by (rule put_touches) (auto simp: folder_at_iff split: option.split, (metis node.exhaust lookup_File)+)

section \<open>The system calls\<close>

lemma syscall_cases:
  assumes "run_state (syscall H op p act) w = (res, w')"
  obtains x where "res = Ok x" "p \<noteq> ''''" "act (resolve H p) (fs w) = (Inr x, fs w')"
  | e where "res = Err e" "fs w' = fs w"
  | e en where "res = Err e" "act (resolve H p) (fs w) = (Inl en, fs w')"
proof (cases res)
  case (Ok x)
  show thesis by (rule syscall_OkE [OF assms [unfolded Ok]]) (rule that(1) [OF Ok])
next
  case (Err e)
  show thesis by (rule syscall_ErrE [OF assms [unfolded Err]]) (rule that(2) [OF Err] that(3) [OF Err], assumption)+
next
  case (Panic s)
  have "no_panic (syscall H op p act)" by simp
  with assms Panic show thesis unfolding no_panic_def by blast
next
  case (Exit n)
  with assms returns_syscall [of H op p act] show thesis by (auto elim: returnsE)
qed

text \<open>A call that enters a node of the same kind as the one that is there.\<close>

definition file_entry :: "(node option \<Rightarrow> errno + node) \<Rightarrow> bool" where
  "file_entry f \<longleftrightarrow>
     (\<forall>v. f None = Inr v \<longrightarrow> \<not> is_folder v) \<and>
     (\<forall>m s v. f (Some (File m s)) = Inr v \<longrightarrow> \<not> is_folder v) \<and>
     (\<forall>m es v. f (Some (Folder m es)) = Inr v \<longrightarrow> (\<exists>m'. v = Folder m' es))"

lemma enter_touches:
  assumes f: "file_entry f" and run: "enter absent f p t = (r, t')"
  shows "touches p t t'"
proof (cases r)
  case (Inl e)
  with run enter_Inl show ?thesis by (metis touches_refl)
next
  case (Inr u)
  from enter_Inr [OF run [unfolded Inr]] obtain v where v: "f (lookup t p) = Inr v" and t': "t' = put p v t"
    and here: "lookup t p = None \<longrightarrow> p \<noteq> [] \<and> folder_at t (butlast p)"
    by (elim exE conjE) (rule that)
  have "(\<exists>m es m'. lookup t p = Some (Folder m es) \<and> v = Folder m' es) \<or>
      (\<not> folder_at t p \<and> (\<exists>m s. v = File m s))"
  proof (cases "lookup t p")
    case None
    with v f show ?thesis by (cases v) (auto simp: file_entry_def folder_at_iff)
  next
    case (Some n)
    show ?thesis
    proof (cases n)
      case (File m s)
      with v f Some have "\<not> is_folder v" unfolding file_entry_def by metis
      with File Some show ?thesis by (cases v) (auto simp: folder_at_iff)
    next
      case (Folder m es)
      with v f Some have "\<exists>m'. v = Folder m' es" unfolding file_entry_def by metis
      with Folder Some show ?thesis by auto
    qed
  qed
  then show ?thesis
  proof (elim disjE exE conjE)
    fix m es m' assume "lookup t p = Some (Folder m es)" "v = Folder m' es"
    with put_touches [OF here, of v] show ?thesis by (simp add: t' folder_at_iff)
  next
    fix m s assume "\<not> folder_at t p" "v = File m s"
    with put_file_touches [OF here] show ?thesis by (simp add: t')
  qed
qed

lemma file_entries [simp]:
  "file_entry (truncate_entry m)" "file_entry (append_entry d)" "file_entry (chmod_entry m)"
  by (simp_all add: file_entry_def)

lemma syscall_enter_touches:
  assumes "file_entry f"
  shows "touching (resolve H p) (syscall H op p (enter absent f))"
proof (rule state_io_relI)
  fix w r w' assume "run_state (syscall H op p (enter absent f)) w = (r, w')"
  then show "touches (resolve H p) (fs w) (fs w')"
    by (rule syscall_cases) (auto intro: enter_touches [OF assms])
qed

lemma touching_files:
  "touching (resolve H p) (OpenCreate H p m)" "touching (resolve H p) (Create H p)"
  "touching (resolve H p) (Write H p s)" "touching (resolve H p) (Chmod H p m)"
  by (auto simp: OpenCreate_def Create_def Write_def Chmod_def intro!: syscall_enter_touches)

lemma touching_WriteFile: "touching (resolve H p) (WriteFile H p s m)"
  unfolding WriteFile_def by (intro touching.within_intros touching_files)

section \<open>Contents\<close>

lemma OpenCreate_OkE:
  assumes "run_state (OpenCreate H p perm) w = (Ok u, w')"
  obtains m where "lookup (fs w') (resolve H p) = Some (File m '''')" and "p \<noteq> ''''"
    and "\<And>m' s'. lookup (fs w) (resolve H p) = Some (File m' s') \<Longrightarrow> m = m'"
    and "lookup (fs w) (resolve H p) = None \<Longrightarrow> m = created_mode H perm"
    and "\<not> folder_at (fs w) (resolve H p)"
proof -
  from assms have p: "p \<noteq> ''''" and
    e: "enter (\<lambda>e. e = ENOENT) (truncate_entry (created_mode H perm)) (resolve H p) (fs w) = (Inr u, fs w')"
    unfolding OpenCreate_def by (blast elim: syscall_OkE)+
  from enter_effect [OF e] obtain v where v: "truncate_entry (created_mode H perm) (lookup (fs w) (resolve H p)) = Inr v"
    and l: "lookup (fs w') (resolve H p) = Some v" by blast
  show thesis
  proof (cases "lookup (fs w) (resolve H p)")
    case None
    with v l p that [of "created_mode H perm"] show ?thesis by (auto simp: folder_at_iff)
  next
    case (Some n)
    with v l p show ?thesis by (cases n) (auto intro!: that simp: folder_at_iff)
  qed
qed

lemma Write_OkE:
  assumes "run_state (Write H p d) w = (Ok u, w')"
  obtains m s where "lookup (fs w) (resolve H p) = Some (File m s)"
    and "lookup (fs w') (resolve H p) = Some (File m (s @ d))"
proof -
  from assms have e: "enter (\<lambda>_. False) (append_entry d) (resolve H p) (fs w) = (Inr u, fs w')"
    unfolding Write_def by (elim syscall_OkE)
  from enter_effect [OF e] obtain v where v: "append_entry d (lookup (fs w) (resolve H p)) = Inr v"
    and l: "lookup (fs w') (resolve H p) = Some v" by blast
  show thesis
  proof (cases "lookup (fs w) (resolve H p)")
    case None
    with v show ?thesis by simp
  next
    case (Some n)
    with v l that show ?thesis by (cases n) auto
  qed
qed

lemma Chmod_file_OkE:
  assumes "run_state (Chmod H p mode) w = (Ok u, w')"
    and "lookup (fs w) (resolve H p) = Some (File m s)"
  shows "lookup (fs w') (resolve H p) = Some (File (and mode mode_bits) s)"
proof -
  from assms have e: "enter (\<lambda>_. False) (chmod_entry (and mode mode_bits)) (resolve H p) (fs w) = (Inr u, fs w')"
    unfolding Chmod_def by (elim syscall_OkE)
  from enter_effect [OF e] obtain v where v: "chmod_entry (and mode mode_bits) (lookup (fs w) (resolve H p)) = Inr v"
    and "lookup (fs w') (resolve H p) = Some v" by blast
  with assms(2) show ?thesis by simp
qed

lemma WriteFile_OkE:
  assumes "run_state (WriteFile H p d perm) w = (Ok u, w')"
  obtains m where "lookup (fs w') (resolve H p) = Some (File m d)"
proof -
  from assms obtain u1 w1 where 1: "run_state (OpenCreate H p perm) w = (Ok u1, w1)"
    and 2: "run_state (Write H p d) w1 = (Ok u, w')"
    unfolding WriteFile_def ok_iffs by (elim exE conjE) (rule that)
  from 1 obtain m where m: "lookup (fs w1) (resolve H p) = Some (File m '''')" by (rule OpenCreate_OkE)
  from 2 obtain m' s where "lookup (fs w1) (resolve H p) = Some (File m' s)"
    "lookup (fs w') (resolve H p) = Some (File m' (s @ d))" by (rule Write_OkE)
  with m that show thesis by simp
qed

text \<open>On a machine without faults a file can be created in an existing folder.\<close>

lemma OpenCreate_succeeds:
  fixes w :: "'x world_scheme"
  assumes "\<forall>n op q. h_fault H n op q = None" and "p \<noteq> ''''" and "resolve H p \<noteq> []"
    and parent: "folder_at (fs w) (butlast (resolve H p))" and "\<not> folder_at (fs w) (resolve H p)"
  shows "\<exists>w' m. run_state (OpenCreate H p perm) w = (Ok (), w') \<and>
    lookup (fs w') (resolve H p) = Some (File m '''')"
proof -
  let ?c = "resolve H p"
  have "\<exists>t. enter (\<lambda>e. e = ENOENT) (truncate_entry (created_mode H perm)) ?c (fs w) = (Inr (), t)"
  proof (cases "lookup (fs w) ?c")
    case None
    obtain m es where f: "walk (fs w) (butlast ?c) = Inr (Folder m es)"
      using parent by (auto simp: folder_at_iff walk_Inr)
    have "walk (fs w) ?c = Inl ENOENT"
      using None walk_snoc [of "fs w" "butlast ?c" "last ?c"] f assms(3)
      by (auto simp: walk_Inr [symmetric] lookup_def split: option.splits)
    with parent assms(3) show ?thesis by (simp add: enter_def)
  next
    case (Some n)
    with assms(5) show ?thesis
      by (cases n) (auto simp: enter_def walk_Inr [THEN iffD2] folder_at_iff)
  qed
  then obtain t where "run_state (OpenCreate H p perm) w = (Ok (), w\<lparr>clock := Suc (clock w), fs := t\<rparr>)"
    using assms(1,2) by (auto simp: OpenCreate_def syscall_def Let_def)
  moreover from this obtain m where "lookup t ?c = Some (File m '''')"
    by (rule OpenCreate_OkE) simp
  ultimately show ?thesis by auto
qed

end
