(* ===== verification/Artifacts.thy ===== *)
theory Artifacts
  imports Droplet Finalize Files
begin

text \<open>
  What the steps after the finalize phase leave behind: the process types of the droplet, the
  metadata files, and the programs that copy and pack the application.
\<close>

section \<open>Process types\<close>

text \<open>The process types of the Procfile in the build directory, none without a Procfile.\<close>

definition procfile_types :: "host \<Rightarrow> Config \<Rightarrow> node \<Rightarrow> (string \<times> string) list" where
  "procfile_types H C t =
     (case lookup t (resolve H (Join [BuildDir C, ''Procfile''])) of
        Some (File m s) \<Rightarrow> (case h_yamlProcfile H s of Inr types \<Rightarrow> map_entries types | Inl e \<Rightarrow> [])
      | _ \<Rightarrow> [])"

lemma ReadFile_missing:
  assumes "run_state (ReadFile H p) w = (Err e, w')" and "IsNotExist e" and "p \<noteq> ''''"
  shows "lookup (fs w) (resolve H p) = None"
proof -
  from syscall_ENOENT [OF assms(1) [unfolded ReadFile_def] assms(2,3)]
  obtain t where "look file_content (resolve H p) (fs w) = (Inl ENOENT, t)" by blast
  then have "(case walk (fs w) (resolve H p) of Inl e \<Rightarrow> Inl e | Inr n \<Rightarrow> file_content n) = Inl ENOENT"
    by (auto simp: look_def)
  then have "walk (fs w) (resolve H p) = Inl ENOENT"
    by (auto split: sum.splits elim: file_content.elims)
  then show ?thesis by (rule walk_InlD)
qed

lemma readProcfile_Ok:
  assumes "run_state (readProcfile H C) w = (Ok types, w')"
  shows "fs w' = fs w \<and> map_entries types = procfile_types H C (fs w) \<and>
    (types = Some [] \<or> (\<exists>s. h_yamlProcfile H s = Inr types))"
proof -
  let ?p = "Join [BuildDir C, ''Procfile'']"
  have p: "?p \<noteq> ''''" by (rule Join_two_nonempty) (simp add: plain_def)
  obtain r1 w1 where 1: "run_state (ReadFile H ?p) w = (r1, w1)" by fastforce
  note f = fs_unchanged(3) [OF 1]
  have "returns (ReadFile H ?p :: (runner, string) go)" by simp
  then show ?thesis using 1
  proof (rule returnsE)
    fix s assume r1: "r1 = Ok s"
    from 1 [unfolded r1] obtain m where "lookup (fs w) (resolve H ?p) = Some (File m s)" by (rule ReadFile_OkE)
    with assms 1 r1 f show ?thesis
      by (auto simp: readProcfile_def procfile_types_def split: sum.splits)
  next
    fix e assume r1: "r1 = Err e"
    with assms 1 f have *: "IsNotExist e" "types = Some []" "w' = w1"
      by (auto simp: readProcfile_def split: if_splits)
    with ReadFile_missing [OF 1 [unfolded r1] _ p] f show ?thesis
      by (simp add: procfile_types_def map_entries_def)
  qed
qed

lemma no_runs_readProcfile: "no_runs (readProcfile H C)"
  unfolding readProcfile_def
  by (intro no_runs.within_intros; rule quiet_no_runs, rule effect_intros)

lemma returns_readProcfile: "returns (readProcfile H C)"
  unfolding readProcfile_def by (intro returns_intros returns_basic_os)

lemma merge_start_commands_map_of:
  assumes "wf_map startCommands"
  shows "map_of (map_entries (DefaultProcessTypes (merge_start_commands startCommands r))) =
    map_of (map_entries (DefaultProcessTypes r)) ++ map_of (map_entries startCommands)"
  using assms
  by (auto simp: merge_start_commands_def wf_map_def map_of_assign_all map_entries_def split: option.split)

lemma warn_effects: "no_runs (warn_no_start_command r)" "returns (warn_no_start_command r)"
  unfolding warn_no_start_command_def
  by (intro no_runs.within_intros no_runs_logError returns_intros returns_helpers)+

definition release_command :: "Config \<Rightarrow> string \<Rightarrow> command" where
  "release_command C path = Command (Join [path, ''bin'', ''release'']) [BuildDir C]"

lemma parse_release_effects: "no_runs (parse_release H sc output)" "returns (parse_release H sc output)"
  unfolding parse_release_def by (intro no_runs.within_intros returns_intros warn_effects)+

lemma performs_release: "performs d [release_command C path] (release H C path)"
  unfolding release_def release_command_def
  by (intro performs_first performs_last performs_Run performs_nothing no_runs_readProcfile
      returns_readProcfile parse_release_effects)

text \<open>The third-party decoder gives Go maps, whose keys are distinct.\<close>

definition yaml_ok :: "host \<Rightarrow> bool" where
  "yaml_ok H \<longleftrightarrow> (\<forall>s m. h_yamlProcfile H s = Inr m \<longrightarrow> wf_map m)"

lemma release_Ok:
  assumes run: "run_state (release H C path) w = (Ok rel, w')"
    and wf: "yaml_ok H"
  shows "\<exists>n out types. h_exec H n (release_command C path) (fs w) = ((out, None), fs w') \<and>
    runs w' = runs w @ [(release_command C path, True)] \<and> h_yamlRelease H out = Inr types \<and>
    map_of (map_entries (DefaultProcessTypes rel)) =
      map_of (map_entries types) ++ map_of (procfile_types H C (fs w))"
proof -
  from run obtain procfile w1 out w2 where 1: "run_state (readProcfile H C) w = (Ok procfile, w1)"
    and x: "run_state (Run_cmd H (release_command C path)) w1 = (Ok out, w2)"
    and 2: "run_state (parse_release H procfile out) w2 = (Ok rel, w')"
    unfolding release_def attempt_Ok release_command_def [symmetric] by (elim exE conjE) (rule that)
  from 2 obtain types where t: "h_yamlRelease H out = Inr types" "fs w' = fs w2"
    and rel: "rel = merge_start_commands procfile \<lparr>DefaultProcessTypes = types\<rparr>"
    by (cases "h_yamlRelease H out")
      (auto simp: parse_release_def warn_no_start_command_def logError_def log_Println_def emit_def Let_def
        split: prod.splits result.splits if_splits)
  note p = readProcfile_Ok [OF 1]
  from x p have exec: "h_exec H (clock w1) (release_command C path) (fs w) = ((out, None), fs w2)"
    by (auto simp: Run_cmd_def split: prod.splits option.splits)
  from Run_cmd_runs [OF x] no_runs_eq [OF no_runs_readProcfile 1] no_runs_eq [OF parse_release_effects(1) 2]
  have runs: "runs w' = runs w @ [(release_command C path, True)]" by simp
  have "wf_map (Some [])" by (simp add: wf_map_def map_entries_def)
  with p wf have "wf_map procfile" unfolding yaml_ok_def by blast
  from merge_start_commands_map_of [OF this] t rel p exec runs show ?thesis by auto
qed

text \<open>C19: When the release step succeeds, it has run exactly the release script of the buildpack,
  in the file tree in which it started, and the process types of the droplet are those that this
  script printed, overridden by those of the Procfile in the build directory.\<close>

theorem release_process_types:
  assumes run: "run_state (release H C path) w = (Ok rel, w')"
    and wf: "yaml_ok H"
  shows "\<exists>n out types. h_exec H n (release_command C path) (fs w) = ((out, None), fs w') \<and>
    runs w' = runs w @ [(release_command C path, True)] \<and> h_yamlRelease H out = Inr types \<and>
    (\<forall>name. map_get (DefaultProcessTypes rel) name =
       (case map_of (procfile_types H C (fs w)) name of
          Some startCommand \<Rightarrow> startCommand
        | None \<Rightarrow> map_get types name))"
proof -
  from release_Ok [OF run wf] obtain n out types where
    o: "h_exec H n (release_command C path) (fs w) = ((out, None), fs w')"
      "runs w' = runs w @ [(release_command C path, True)]" "h_yamlRelease H out = Inr types"
    and m: "map_of (map_entries (DefaultProcessTypes rel)) =
      map_of (map_entries types) ++ map_of (procfile_types H C (fs w))" by blast
  have "map_get (DefaultProcessTypes rel) name =
      (case map_of (procfile_types H C (fs w)) name of Some c \<Rightarrow> c | None \<Rightarrow> map_get types name)" for name
    by (simp add: map_get_def m map_add_def split: option.split)
  with o show ?thesis by blast
qed

text \<open>A machine whose release script prints the start command of the type \<^verbatim>\<open>web\<close>.\<close>

definition printing_host :: host where
  "printing_host = sample_host\<lparr>h_yamlRelease := (\<lambda>s. Inr (Some [(''web'', s)]))\<rparr>"

lemma release_process_types_witness:
  "\<exists>rel w'. run_state (release printing_host sample_Config ''/bp/0cc175b9c0f1b6a831c399e269772661'')
      (NewRunner sample_world) = (Ok rel, w') \<and> map_get (DefaultProcessTypes rel) ''web'' = ''done''"
proof -
  let ?p = "''/bp/0cc175b9c0f1b6a831c399e269772661''"
  let ?m = "release printing_host sample_Config ?p"
  have "is_Ok (fst (run_state ?m (NewRunner sample_world)))" by code_simp
  then obtain rel w' where run: "run_state ?m (NewRunner sample_world) = (Ok rel, w')"
    by (cases "run_state ?m (NewRunner sample_world)") (auto elim: is_Ok.elims)
  have "yaml_ok printing_host" by (simp add: yaml_ok_def printing_host_def sample_host_def wf_map_def map_entries_def)
  from release_process_types [OF run this] obtain n out types where
    o: "h_exec printing_host n (release_command sample_Config ?p) (fs (NewRunner sample_world)) = ((out, None), fs w')"
      "h_yamlRelease printing_host out = Inr types"
    and t: "\<forall>name. map_get (DefaultProcessTypes rel) name =
      (case map_of (procfile_types printing_host sample_Config (fs (NewRunner sample_world))) name of
       Some c \<Rightarrow> c | None \<Rightarrow> map_get types name)" by blast
  have "procfile_types printing_host sample_Config (fs (NewRunner sample_world)) = []" by code_simp
  moreover from o have "types = Some [(''web'', ''done'')]" by (auto simp: printing_host_def sample_host_def)
  ultimately have "map_get (DefaultProcessTypes rel) ''web'' = ''done''" using t by (simp add: map_get_def map_entries_def)
  with run show ?thesis by blast
qed

section \<open>Metadata files\<close>

lemma saveInfo_touching: "touching (resolve H (OutputMetadataLocation C)) (saveInfo H C md rel)"
  unfolding saveInfo_def by (intro touching.within_intros touching_files)

lemma saveInfo_Ok:
  assumes "run_state (saveInfo H C md rel) w = (Ok u, w')"
  obtains m where "lookup (fs w') (resolve H (OutputMetadataLocation C)) =
    Some (File m (Encode encode_StagingResult (staging_result md rel)))"
proof -
  let ?p = "OutputMetadataLocation C"
  from assms obtain u1 w1 where 1: "run_state (OpenCreate H ?p perm_0666) w = (Ok u1, w1)"
    and 2: "run_state (Write H ?p (Encode encode_StagingResult (staging_result md rel))) w1 = (Ok u, w')"
    unfolding saveInfo_def Create_def ok_iffs by (elim exE conjE) (rule that)
  from 1 obtain m where m: "lookup (fs w1) (resolve H ?p) = Some (File m '''')" by (rule OpenCreate_OkE)
  from 2 obtain m' s where "lookup (fs w1) (resolve H ?p) = Some (File m' s)"
    "lookup (fs w') (resolve H ?p) = Some (File m' (s @ Encode encode_StagingResult (staging_result md rel)))"
    by (rule Write_OkE)
  with m that show thesis by simp
qed

lemma saveInfo_effects: "no_runs (saveInfo H C md rel)" "returns (saveInfo H C md rel)"
  unfolding saveInfo_def
  by (intro no_runs.within_intros returns_intros returns_basic_os; rule quiet_no_runs, rule effect_intros)
    (intro returns_intros returns_basic_os)

lemma writeStagingInfoYML_effects:
  "no_runs (writeStagingInfoYML H cmd md)" "md \<noteq> [] \<Longrightarrow> returns (writeStagingInfoYML H cmd md)"
  unfolding writeStagingInfoYML_def Let_def
  by (intro no_runs.within_intros; rule quiet_no_runs, rule effect_intros)
    (simp, intro returns_intros returns_basic_os)

text \<open>The name of the last buildpack and the start command of the web process are written to
  the staging information inside the droplet.\<close>

lemma writeStagingInfoYML_Ok:
  assumes "run_state (writeStagingInfoYML H cmd md) w = (Ok u, w')"
  shows "md \<noteq> [] \<and> (\<exists>m. lookup (fs w') (resolve H (Join [contentsDir w, ''staging_info.yml''])) =
    Some (File m (Encode encode_StagingInfo
      \<lparr>si_DetectedBuildpack = bm_Name (last md), si_StartCommand = cmd\<rparr>)))"
proof -
  let ?p = "Join [contentsDir w, ''staging_info.yml'']"
  let ?s = "Encode encode_StagingInfo \<lparr>si_DetectedBuildpack = bm_Name (last md), si_StartCommand = cmd\<rparr>"
  from assms obtain u1 w1 where 1: "run_state (OpenCreate H ?p perm_0666) w = (Ok u1, w1)"
    and 2: "run_state (if length md = 0 then go_panic ''index out of range'' else Write H ?p ?s) w1 = (Ok u, w')"
    unfolding writeStagingInfoYML_def Create_def Let_def ok_iffs by (elim exE conjE) (rule that)
  from 2 have md: "md \<noteq> []" and 3: "run_state (Write H ?p ?s) w1 = (Ok u, w')" by (auto split: if_splits)
  from 1 obtain m where m: "lookup (fs w1) (resolve H ?p) = Some (File m '''')" by (rule OpenCreate_OkE)
  from 3 obtain m' s where "lookup (fs w1) (resolve H ?p) = Some (File m' s)"
    "lookup (fs w') (resolve H ?p) = Some (File m' (s @ ?s))" by (rule Write_OkE)
  with m md show ?thesis by simp
qed

section \<open>Programs\<close>

definition artifact_commands :: "Config \<Rightarrow> string \<Rightarrow> string \<Rightarrow> command list" where
  "artifact_commands C dir tar =
     [Command ''cp'' [''-a'', BuildDir C, Join [dir, ''app'']],
      tar_command tar (OutputDropletLocation C) dir]"

definition cache_command :: "Config \<Rightarrow> string \<Rightarrow> command" where
  "cache_command C tar = tar_command tar (OutputBuildArtifactsCache C) (BuildArtifactsCacheDir C)"

lemma performs_MkdirAll: "performs d [] (MkdirAll H p m)"
  by (intro performs_nothing returns_dirs quiet_no_runs effect_intros)

lemma performs_copyApp: "performs d [Command ''cp'' [''-a'', a, b]] (copyApp H a b)"
  unfolding copyApp_def by (intro performs_last performs_Run performs_ok)

lemma no_runs_MkdirAll: "no_runs (MkdirAll H p m)"
  by (rule quiet_no_runs, rule effect_intros)

lemma performs_createArtifacts:
  assumes "dir = contentsDir (w0 :: runner)"
  shows "performs (world.more w0) (artifact_commands C dir tar) (createArtifacts H C tar md rel)"
proof -
  have same: "contentsDir w = dir" if "world.more w = world.more w0" for w :: runner
    using runner_fields [OF that] assms by simp
  have mk: "performs (world.more w0) [] (for_each (\<lambda>name. attempt (MkdirAll H (Join [dir, name]) perm_0755)
      (\<lambda>e. Wrap e ''Failed to set up droplet filesystem'') ok) [''tmp'', ''logs''])"
    by (intro performs_nothing no_runs.within_intros no_runs_MkdirAll returns_intros returns_dirs)
  show ?thesis
    unfolding createArtifacts_def artifact_commands_def
    by (rule performs_first [OF performs_nothing [OF saveInfo_effects]], rule performs_get, simp only: same)
      (rule performs_first [OF mk], rule performs_next [OF performs_copyApp],
        rule performs_last [OF performs_Run performs_ok])
qed

lemma performs_createCache: "performs d [cache_command C tar] (createCache H C tar)"
  unfolding createCache_def cache_command_def
  by (intro performs_first [OF performs_MkdirAll] performs_last performs_Run performs_ok)

lemma findTar_effects: "no_runs (findTar H)" "returns (findTar H)"
  unfolding findTar_def
  by (intro no_runs.within_intros; rule quiet_no_runs, rule effect_intros)
    (intro returns_intros returns_external)

end
