(* ===== verification/Readers.thy ===== *)
theory Readers
  imports OSFacts Hashes
begin

text \<open>
  Streams: \<^verbatim>\<open>io.Reader\<close> values, the verifying reader of \<^verbatim>\<open>checksum/verifying_reader.go\<close>, and the
  copy loops of \<^verbatim>\<open>io.Copy\<close> and \<^verbatim>\<open>io.CopyN\<close> into a file.
\<close>

section \<open>Readers\<close>

text \<open>The operations of a \<^verbatim>\<open>hash.Hash\<close> whose state has type \<open>'h\<close>: \<^verbatim>\<open>Write\<close>, which never fails,
  and \<^verbatim>\<open>Sum(nil)\<close>.\<close>

record 'h hash_ops =
  hash_Write :: "'h \<Rightarrow> string \<Rightarrow> 'h"
  hash_Sum :: "'h \<Rightarrow> bytes"

definition sha256_ops :: "bytes hash_ops" where
  "sha256_ops = \<lparr>hash_Write = sha256_Write, hash_Sum = sha256_Sum\<rparr>"

text \<open>A response body, or a verifying reader over another reader with its hash state and the
  expected checksum.\<close>

datatype 'h reader = BodyReader script | VerifyingReader "'h reader" 'h string

definition NewVerifyingReader :: "'h reader \<Rightarrow> 'h \<Rightarrow> string \<Rightarrow> 'h reader" where
  "NewVerifyingReader reader hash checkSum = VerifyingReader reader hash checkSum"

fun BodyRead :: "script \<Rightarrow> (string \<times> go_error option) \<times> script" where
  "BodyRead [] = (('''', Some EOF), [])"
| "BodyRead (x # xs) = (x, xs)"

text \<open>\<^verbatim>\<open>io.TeeReader\<close>: what was read is written to the hash before the read returns.\<close>

definition tee :: "'h hash_ops \<Rightarrow> 'h \<Rightarrow> string \<Rightarrow> 'h" where
  "tee K hash chunk = (if length chunk > 0 then hash_Write K hash chunk else hash)"

definition verifyChecksum :: "string \<Rightarrow> string \<Rightarrow> go_error option" where
  "verifyChecksum checkSum actualCheckSum =
     (if checkSum = actualCheckSum then None else Some (Errorf ''checksum verification failure''))"

definition verify_result :: "'h hash_ops \<Rightarrow> 'h \<Rightarrow> string \<Rightarrow> go_error option \<Rightarrow> go_error option" where
  "verify_result K hash checkSum err =
     (case err of
        None \<Rightarrow> None
      | Some e \<Rightarrow>
          if is_EOF e then
            (case verifyChecksum checkSum (hex_string (hash_Sum K hash)) of
               Some checkSumErr \<Rightarrow> Some checkSumErr
             | None \<Rightarrow> Some EOF)
          else Some (ErrorfW ''reader-error'' e))"

fun Read :: "'h hash_ops \<Rightarrow> 'h reader \<Rightarrow> (string \<times> go_error option) \<times> 'h reader" where
  "Read K (BodyReader s) = (case BodyRead s of (x, s') \<Rightarrow> (x, BodyReader s'))"
| "Read K (VerifyingReader reader hash checkSum) =
     (case Read K reader of
        ((chunk, err), reader') \<Rightarrow>
          let hash' = tee K hash chunk in
          ((chunk, verify_result K hash' checkSum err), VerifyingReader reader' hash' checkSum))"

text \<open>The number of reads before the body is at its end; a read without an error takes one.\<close>

fun pending :: "'h reader \<Rightarrow> nat" where
  "pending (BodyReader s) = length s"
| "pending (VerifyingReader r h c) = pending r"

lemma Read_pending: "Read K r = ((chunk, None), r') \<Longrightarrow> pending r' < pending r"
proof (induction r arbitrary: chunk r')
  case (BodyReader s)
  then show ?case by (cases s) auto
next
  case (VerifyingReader r h c)
  obtain c1 e1 r1 where 1: "Read K r = ((c1, e1), r1)" by (metis prod.exhaust)
  with VerifyingReader.prems have "e1 = None"
    by (auto simp: Let_def verify_result_def verifyChecksum_def split: option.splits if_splits)
  with 1 VerifyingReader show ?case by (auto simp: Let_def)
qed

section \<open>Copying into a file\<close>

text \<open>
  \<^verbatim>\<open>io.Copy\<close> into the open file at a path: the number of bytes written and the error, nil at
  the end of the input. A write error ends the loop before the read error is looked at, and
  the end of the input is recognised by equality with \<^verbatim>\<open>io.EOF\<close>.
\<close>

definition write_chunk :: "host \<Rightarrow> string \<Rightarrow> string \<Rightarrow> ('x world_scheme, unit) go" where
  "write_chunk H path chunk = (if length chunk > 0 then Write H path chunk else ok ())"

function io_Copy ::
  "host \<Rightarrow> 'h hash_ops \<Rightarrow> string \<Rightarrow> 'h reader \<Rightarrow> nat \<Rightarrow> ('x world_scheme, nat \<times> go_error option) go" where
  "io_Copy H K path r written =
     (case Read K r of
        ((chunk, err), r') \<Rightarrow>
          on_err (write_chunk H path chunk)
            (\<lambda>ew. ok (written, Some ew))
            (\<lambda>_. case err of
               None \<Rightarrow> io_Copy H K path r' (written + length chunk)
             | Some e \<Rightarrow> ok (written + length chunk, if e = EOF then None else Some e)))"
  by pat_completeness auto
termination
  by (relation "measure (\<lambda>(H, K, path, r, written). pending r)") (auto dest: Read_pending [OF sym])

declare io_Copy.simps [simp del]

text \<open>\<^verbatim>\<open>io.LimitReader\<close> over a body: a read is cut to the bytes that are left, and at the
  limit the input ends.\<close>

fun limited :: "nat \<Rightarrow> script \<Rightarrow> script" where
  "limited n [] = []"
| "limited n ((chunk, err) # rest) =
     (if n = 0 then []
      else if length chunk \<le> n then (chunk, err) # limited (n - length chunk) rest
      else [(take n chunk, None)])"

text \<open>\<^verbatim>\<open>io.CopyN\<close>: no error exactly when \<open>n\<close> bytes were copied, and \<^verbatim>\<open>io.EOF\<close> when the input ended
  before.\<close>

definition io_CopyN :: "host \<Rightarrow> string \<Rightarrow> script \<Rightarrow> nat \<Rightarrow> ('x world_scheme, nat \<times> go_error option) go" where
  "io_CopyN H path s n =
     attempt (io_Copy H sha256_ops path (BodyReader (limited n s)) 0) id (\<lambda>(written, err).
       ok (written, if written = n then None
                    else if written < n \<and> err = None then Some EOF
                    else err))"

end
