(* ===== verification/Unzip.thy ===== *)
theory Unzip
  imports Readers
begin

text \<open>
  \<^verbatim>\<open>unzip.go\<close>: extraction of an archive into a directory, file by file, each file cut off with
  an error when it reaches the size limit.
\<close>

definition OpenReader :: "host \<Rightarrow> string \<Rightarrow> ('x world_scheme, zip_entry list) go" where
  "OpenReader H src = attempt (ReadFile H src) id (\<lambda>content.
     case h_zip H content of Inl s \<Rightarrow> fail (External s) | Inr entries \<Rightarrow> ok entries)"

definition Open_entry :: "zip_entry \<Rightarrow> ('x world_scheme, script) go" where
  "Open_entry f = (case ze_open f of Some s \<Rightarrow> fail (External s) | None \<Rightarrow> ok (ze_data f))"

definition extractFile :: "host \<Rightarrow> nat \<Rightarrow> zip_entry \<Rightarrow> string \<Rightarrow> ('x world_scheme, unit) go" where
  "extractFile H limit src destPath =
     attempt (MkdirAll H (Dir destPath) perm_0755) (ErrorfW ''failed to create dir'') (\<lambda>_.
     attempt (Open_entry src) (ErrorfW ''failed to open zip'') (\<lambda>reader.
     attempt (Create H destPath) (ErrorfW ''failed to create file'') (\<lambda>_.
     attempt (io_CopyN H destPath reader limit) id (\<lambda>(written, err).
       case err of
         None \<Rightarrow> fail (Errorf (''extracting zip stopped at '' @ show_nat limit @ '' limit''))
       | Some e \<Rightarrow>
           if \<not> is_EOF e then fail (ErrorfW ''failed to write zip'' e)
           else Chmod H destPath (ze_mode src)))))"

definition dest_path :: "string \<Rightarrow> zip_entry \<Rightarrow> string" where
  "dest_path targetDir f = Join [Clean targetDir, Clean (ze_name f)]"

definition extract_entry :: "host \<Rightarrow> nat \<Rightarrow> string \<Rightarrow> zip_entry \<Rightarrow> ('x world_scheme, unit) go" where
  "extract_entry H limit targetDir f =
     (if ze_isDir f then
        attempt (MkdirAll H (dest_path targetDir f) (ze_mode f)) (ErrorfW ''failed to create dir'') ok
      else extractFile H limit f (dest_path targetDir f))"

definition Extract :: "host \<Rightarrow> nat \<Rightarrow> string \<Rightarrow> string \<Rightarrow> ('x world_scheme, unit) go" where
  "Extract H limit src targetDir =
     (if targetDir = '''' then fail (Errorf ''target directory cannot be empty'')
      else attempt (OpenReader H src) (ErrorfW ''failed to open zip reader'')
             (for_each (extract_entry H limit targetDir)))"

text \<open>The limit both users of the unzipper choose.\<close>

definition tenGB :: nat where
  "tenGB = 10 * 1024 * 1024 * 1024"

end
