(* ===== verification/Names.thy ===== *)
theory Names
  imports Prelude
begin

text \<open>The constants of \<^verbatim>\<open>eirini_models.go\<close> that the programs use: environment variables and
  default locations.\<close>

definition EnvDownloadURL :: string where "EnvDownloadURL = ''DOWNLOAD_URL''"
definition EnvBuildpacks :: string where "EnvBuildpacks = ''BUILDPACKS''"
definition EnvDropletUploadURL :: string where "EnvDropletUploadURL = ''DROPLET_UPLOAD_URL''"
definition EnvStagingGUID :: string where "EnvStagingGUID = ''STAGING_GUID''"
definition EnvCompletionCallback :: string where "EnvCompletionCallback = ''COMPLETION_CALLBACK''"
definition EnvEiriniAddress :: string where "EnvEiriniAddress = ''EIRINI_ADDRESS''"
definition EnvCertsPath :: string where "EnvCertsPath = ''EIRINI_CERTS_PATH''"
definition EnvBuildpacksDir :: string where "EnvBuildpacksDir = ''EIRINI_BUILDPACKS_DIR''"
definition EnvWorkspaceDir :: string where "EnvWorkspaceDir = ''EIRINI_WORKSPACE_DIR''"
definition EnvOutputDropletLocation :: string where
  "EnvOutputDropletLocation = ''EIRINI_OUTPUT_DROPLET_LOCATION''"
definition EnvOutputBuildArtifactsCache :: string where
  "EnvOutputBuildArtifactsCache = ''EIRINI_OUTPUT_BUILD_ARTIFACTS_CACHE''"
definition EnvOutputMetadataLocation :: string where
  "EnvOutputMetadataLocation = ''EIRINI_OUTPUT_METADATA_LOCATION''"
definition EnvBuildArtifactsCacheDir :: string where
  "EnvBuildArtifactsCacheDir = ''EIRINI_BUILD_ARTIFACTS_CACHE_DIR''"
definition EnvBuildpackCacheUploadURI :: string where
  "EnvBuildpackCacheUploadURI = ''BUILDPACK_CACHE_UPLOAD_URI''"
definition EnvBuildpackCacheDownloadURI :: string where
  "EnvBuildpackCacheDownloadURI = ''BUILDPACK_CACHE_DOWNLOAD_URI''"
definition EnvBuildpackCacheChecksum :: string where
  "EnvBuildpackCacheChecksum = ''BUILDPACK_CACHE_CHECKSUM''"
definition EnvBuildpackCacheChecksumAlgorithm :: string where
  "EnvBuildpackCacheChecksumAlgorithm = ''BUILDPACK_CACHE_CHECKSUM_ALGORITHM''"

definition AppBits :: string where "AppBits = ''app.zip''"
definition RecipeBuildPacksDir :: string where "RecipeBuildPacksDir = ''/var/lib/buildpacks''"
definition RecipeWorkspaceDir :: string where "RecipeWorkspaceDir = ''/recipe_workspace''"
definition RecipeOutputDropletLocation :: string where
  "RecipeOutputDropletLocation = ''/out/droplet.tgz''"
definition RecipeOutputMetadataLocation :: string where
  "RecipeOutputMetadataLocation = ''/out/result.json''"

definition CACertName :: string where "CACertName = ''internal-ca-cert''"
definition CCCertsMountPath :: string where "CCCertsMountPath = ''/etc/config/certs''"
definition CCAPICertName :: string where "CCAPICertName = ''cc-server-crt''"
definition CCAPIKeyName :: string where "CCAPIKeyName = ''cc-server-crt-key''"
definition EiriniClientCert :: string where "EiriniClientCert = ''eirini-client-crt''"
definition EiriniClientKey :: string where "EiriniClientKey = ''eirini-client-crt-key''"

end
