(* ===== verification/Installers.thy ===== *)
theory Installers
  imports Unzip Config Names
begin

text \<open>
  The installers of the downloader: \<^verbatim>\<open>package_installer.go\<close>, \<^verbatim>\<open>git_buildpack.go\<close> and
  \<^verbatim>\<open>buildpack_manager.go\<close>.
\<close>

section \<open>Package installer\<close>

type_synonym ReaderFrom = "script \<Rightarrow> bytes reader"

record PackageInstaller =
  pi_client :: http_client
  pi_downloadURL :: string
  pi_downloadDir :: string
  pi_readerFrom :: "ReaderFrom option"

definition NewPackageManager ::
  "http_client \<Rightarrow> string \<Rightarrow> string \<Rightarrow> ReaderFrom option \<Rightarrow> PackageInstaller" where
  "NewPackageManager client downloadURL downloadDir readerFrom =
     \<lparr>pi_client = client, pi_downloadURL = downloadURL, pi_downloadDir = downloadDir,
      pi_readerFrom = readerFrom\<rparr>"

definition responseReader :: "ReaderFrom option \<Rightarrow> script \<Rightarrow> bytes reader" where
  "responseReader readerFrom body = (case readerFrom of None \<Rightarrow> BodyReader body | Some f \<Rightarrow> f body)"

definition download :: "host \<Rightarrow> PackageInstaller \<Rightarrow> string \<Rightarrow> string \<Rightarrow> ('x world_scheme, unit) go" where
  "download H d downloadURL filepath =
     attempt (Create H filepath) (ErrorfW ''failed to create file'') (\<lambda>_.
     attempt (Get H (pi_client d) downloadURL)
       (\<lambda>e. Wrap e (''failed to perform get request on: '' @ downloadURL)) (\<lambda>(status, body).
     if status \<noteq> StatusOK
     then fail (Errorf (''download failed. status code '' @ show_nat status))
     else
       attempt (io_Copy H sha256_ops filepath (responseReader (pi_readerFrom d) body) 0) id (\<lambda>(written, err).
         case err of
           None \<Rightarrow> ok ()
         | Some e \<Rightarrow> fail (Wrap e ''failed to copy content to file''))))"

definition PackageInstaller_Install :: "host \<Rightarrow> PackageInstaller \<Rightarrow> ('x world_scheme, unit) go" where
  "PackageInstaller_Install H d =
     (if pi_downloadURL d = '''' then fail (Errorf ''empty downloadURL provided'')
      else if pi_downloadDir d = '''' then fail (Errorf ''empty downloadDir provided'')
      else attempt (download H d (pi_downloadURL d) (Join [pi_downloadDir d, AppBits]))
             (\<lambda>e. Wrap e (''download from '' @ pi_downloadURL d)) ok)"

section \<open>Git\<close>

definition clone_command :: "string \<Rightarrow> string list \<Rightarrow> string \<Rightarrow> command" where
  "clone_command gitPath args branch =
     Command gitPath ([''clone''] @ args @ (if branch \<noteq> '''' then [''-b'', branch] else []))"

definition performGitClone :: "host \<Rightarrow> string \<Rightarrow> string list \<Rightarrow> string \<Rightarrow> ('x world_scheme, unit) go" where
  "performGitClone H gitPath args branch =
     attempt (Run_cmd H (clone_command gitPath args branch)) id (\<lambda>_. ok ())"

definition GitClone :: "host \<Rightarrow> url \<Rightarrow> string \<Rightarrow> ('x world_scheme, unit) go" where
  "GitClone H repo destination =
     attempt (LookPath H ''git'') (ErrorfW ''could not find `git` in path'') (\<lambda>gitPath.
       let branch = Fragment repo; gitURL = url_base repo in
       on_err (performGitClone H gitPath [''--depth'', ''1'', ''--recursive'', gitURL, destination] branch)
         (\<lambda>_. do {
            ignoring (RemoveAll H destination);
            on_err (performGitClone H gitPath [''--recursive'', gitURL, destination] branch)
              (\<lambda>_. fail (Errorf (''failed to clone git repository at '' @ gitURL)))
              ok })
         ok)"

section \<open>Buildpack manager\<close>

record BuildpackManager =
  mgr_internalClient :: http_client
  mgr_defaultClient :: http_client
  mgr_buildpackDir :: string
  mgr_buildpacksJSON :: string
  mgr_limit :: nat

definition NewBuildpackManager :: "http_client \<Rightarrow> http_client \<Rightarrow> string \<Rightarrow> string \<Rightarrow> BuildpackManager" where
  "NewBuildpackManager internalClient defaultClient buildpackDir buildpacksJSON =
     \<lparr>mgr_internalClient = internalClient, mgr_defaultClient = defaultClient,
      mgr_buildpackDir = buildpackDir, mgr_buildpacksJSON = buildpacksJSON, mgr_limit = tenGB\<rparr>"

definition configFileName :: string where
  "configFileName = ''config.json''"

definition OpenBuildpackURL :: "host \<Rightarrow> string \<Rightarrow> http_client \<Rightarrow> ('x world_scheme, string) go" where
  "OpenBuildpackURL H buildpackURL client =
     attempt (Get H client buildpackURL) (\<lambda>e. Wrap e ''failed to request buildpack'') (\<lambda>(status, body).
       if status \<noteq> StatusOK
       then fail (Errorf (''downloading buildpack failed with status code '' @ show_nat status))
       else (case ReadAll body of
           Inl e \<Rightarrow> fail (ErrorfW ''failed to read response body'' e)
         | Inr bytes \<Rightarrow> ok bytes))"

definition fetch_buildpack :: "host \<Rightarrow> BuildpackManager \<Rightarrow> string \<Rightarrow> ('x world_scheme, string) go" where
  "fetch_buildpack H b u =
     on_err (OpenBuildpackURL H u (mgr_internalClient b))
       (\<lambda>e. attempt (OpenBuildpackURL H u (mgr_defaultClient b))
              (\<lambda>e2. Wrap e (''default client also failed: '' @ Error e2)) ok)
       ok"

definition zip_name :: "nat \<Rightarrow> string" where
  "zip_name nanos = ''buildback-'' @ show_nat nanos @ ''-.zip''"

text \<open>The deferred removal of the downloaded file; its assignment to the local error variable
  does not reach the result, which has been evaluated before.\<close>

definition unpack_buildpack :: "host \<Rightarrow> BuildpackManager \<Rightarrow> string \<Rightarrow> string \<Rightarrow> string \<Rightarrow> ('x world_scheme, unit) go" where
  "unpack_buildpack H b fileName bytes buildpackPath =
     deferred (ignoring (Remove H fileName))
       (attempt (WriteFile H fileName bytes perm_0644) (ErrorfW ''failed to write buildpack zip'') (\<lambda>_.
        attempt (MkdirAll H buildpackPath perm_0777) (ErrorfW ''failed to create buildpack directory'') (\<lambda>_.
        attempt (Extract H (mgr_limit b) fileName buildpackPath) NotZipFileError ok)))"

definition installFromArchive :: "host \<Rightarrow> BuildpackManager \<Rightarrow> Buildpack \<Rightarrow> string \<Rightarrow> ('x world_scheme, unit) go" where
  "installFromArchive H b buildpack buildpackPath =
     attempt (TempDir H ''buildpacks'') (ErrorfW ''temp dir creation failed'') (\<lambda>tmpDir.
     attempt (fetch_buildpack H b (bp_URL buildpack)) id (\<lambda>bytes. do {
       i \<leftarrow> get clock;
       unpack_buildpack H b (Join [tmpDir, zip_name (h_nanos H i)]) bytes buildpackPath }))"

definition install_buildpack :: "host \<Rightarrow> BuildpackManager \<Rightarrow> Buildpack \<Rightarrow> ('x world_scheme, unit) go" where
  "install_buildpack H b buildpack =
     (let destination = BuildpackPath (mgr_buildpackDir b) (bp_Name buildpack) in
      on_err (installFromArchive H b buildpack destination)
        (\<lambda>e. if \<not> as_NotZipFileError e then fail e
             else (case h_urlParse H (bp_URL buildpack) of
                 Inl s \<Rightarrow> fail (ErrorfW (''invalid buildpack url ('' @ bp_URL buildpack @ '')'') (External s))
               | Inr buildpackURL \<Rightarrow> GitClone H buildpackURL destination))
        ok)"

definition writeBuildpackJSON :: "host \<Rightarrow> BuildpackManager \<Rightarrow> Buildpack list option \<Rightarrow> ('x world_scheme, unit) go" where
  "writeBuildpackJSON H b buildpacks =
     attempt (WriteFile H (Join [mgr_buildpackDir b, configFileName])
         (Marshal (encode_slice encode_Buildpack) buildpacks) perm_0644)
       (ErrorfW ''failed to write config file'') ok"

definition BuildpackManager_Install :: "host \<Rightarrow> BuildpackManager \<Rightarrow> ('x world_scheme, unit) go" where
  "BuildpackManager_Install H b =
     (case Unmarshal decode_Buildpacks None (mgr_buildpacksJSON b) of
        None \<Rightarrow>
          let text = ''Error unmarshaling environment variable '' @ mgr_buildpacksJSON b;
              e = External (h_jsonError H (mgr_buildpacksJSON b)) in
          attempt (effect (emit (Printed (text @ '': '' @ Error e)))) id (\<lambda>_. fail (ErrorfW text e))
      | Some buildpacks \<Rightarrow>
          attempt (for_each (\<lambda>buildpack.
              attempt (install_buildpack H b buildpack)
                (ErrorfW (''installing buildpack '' @ bp_Name buildpack @ '': '' @ bp_URL buildpack @ '' failed''))
                ok)
            (case buildpacks of None \<Rightarrow> [] | Some bs \<Rightarrow> bs)) id
          (\<lambda>_. writeBuildpackJSON H b buildpacks))"

end
