(* ===== verification/Detect.thy ===== *)
theory Detect
  imports Finalize
begin

text \<open>
  Detection: the first buildpack whose detect script succeeds.
\<close>

section \<open>Detect\<close>

definition detect_command :: "Config \<Rightarrow> string \<Rightarrow> command" where
  "detect_command C path = Command (Join [path, ''bin'', ''detect'']) [BuildDir C]"

text \<open>
  Where a buildpack is in a file tree: in its directory, or in the only entry of that directory;
  in both cases with a \<^verbatim>\<open>bin\<close> entry. It has a detect script when \<^verbatim>\<open>bin/detect\<close> is there.
\<close>

definition entry_at :: "host \<Rightarrow> node \<Rightarrow> string list \<Rightarrow> bool" where
  "entry_at H t ps \<longleftrightarrow> lookup t (resolve H (Join ps)) \<noteq> None"

definition find_buildpack :: "host \<Rightarrow> Config \<Rightarrow> node \<Rightarrow> string \<Rightarrow> string option" where
  "find_buildpack H C t bp =
     (let dir = BuildpackPath (BuildpacksDir C) bp in
      if entry_at H t [dir, ''bin''] then Some dir
      else (case lookup t (resolve H dir) of
          Some (Folder m es) \<Rightarrow> (case remdups (map fst es) of
              [f] \<Rightarrow> if entry_at H t [Join [dir, f], ''bin''] then Some (Join [dir, f]) else None
            | _ \<Rightarrow> None)
        | _ \<Rightarrow> None))"

definition detect_script :: "host \<Rightarrow> Config \<Rightarrow> node \<Rightarrow> string \<Rightarrow> string option" where
  "detect_script H C t bp = (case find_buildpack H C t bp of
       Some p \<Rightarrow> if entry_at H t [p, ''bin'', ''detect''] then Some p else None
     | None \<Rightarrow> None)"

text \<open>One of the looks at this buildpack can fail on this machine.\<close>

definition look_fails :: "host \<Rightarrow> Config \<Rightarrow> string \<Rightarrow> bool" where
  "look_fails H C bp \<longleftrightarrow> (\<exists>p. located C bp p \<and>
     (\<exists>q\<in>{p, Join [p, ''bin''], Join [p, ''bin'', ''detect'']}. \<exists>n op. h_fault H n op q \<noteq> None))"

definition has_detect :: "host \<Rightarrow> Config \<Rightarrow> node \<Rightarrow> string \<Rightarrow> string \<Rightarrow> bool" where
  "has_detect H C t bp p \<longleftrightarrow> detect_script H C t bp = Some p \<or> look_fails H C bp \<and> located C bp p"

definition passed_over :: "host \<Rightarrow> Config \<Rightarrow> node \<Rightarrow> string \<Rightarrow> bool" where
  "passed_over H C t bp \<longleftrightarrow> detect_script H C t bp = None \<or> look_fails H C bp"

lemma look_result:
  assumes "run_state (syscall H op p (look f)) w = (r, w')" and "h_fault H (clock w) op p = None" and "p \<noteq> ''''"
  shows "case lookup (fs w) (resolve H p) of
      Some n \<Rightarrow> (case f n of Inr x \<Rightarrow> r = Ok x | Inl e \<Rightarrow> r = Err (PathError op p e))
    | None \<Rightarrow> \<exists>e. r = Err e"
proof (cases "walk (fs w) (resolve H p)")
  case (Inl e)
  with assms walk_InlD [OF Inl] show ?thesis by (auto simp: syscall_def look_def)
next
  case (Inr n)
  with assms show ?thesis
    by (auto simp: syscall_def look_def walk_Inr [THEN iffD1] split: sum.splits)
qed

lemma pathHasBin_result:
  assumes "run_state (pathHasBinDirectory H p) w = (r, w')"
  shows "fs w' = fs w \<and> (\<exists>b. r = Ok b \<and> ((\<forall>n op. h_fault H n op (Join [p, ''bin'']) = None) \<longrightarrow> b = entry_at H (fs w) [p, ''bin'']))"
proof -
  let ?q = "Join [p, ''bin'']"
  have q: "?q \<noteq> ''''" by (rule Join_two_nonempty) (simp add: plain_def)
  obtain r1 w1 where 1: "run_state (Stat H ?q) w = (r1, w1)" by fastforce
  note f = fs_unchanged(1) [OF 1]
  have look: "h_fault H (clock w) ''stat'' ?q = None \<Longrightarrow> is_Ok r1 = (lookup (fs w) (resolve H ?q) \<noteq> None)"
    using look_result [OF 1 [unfolded Stat_def] _ q] by (auto split: option.splits)
  have "returns (Stat H ?q :: (runner, file_info) go)" by simp
  then show ?thesis using 1
    by (rule returnsE) (use assms 1 f look in \<open>auto simp: pathHasBinDirectory_def entry_at_def\<close>)
qed

lemma sort_single: "sort ys = [f] \<longleftrightarrow> ys = [f]"
proof
  assume s: "sort ys = [f]"
  then have "length ys = 1" by (metis length_sort One_nat_def length_Cons list.size(3))
  then obtain g where "ys = [g]" by (cases ys) auto
  with s show "ys = [f]" by simp
qed simp

lemma buildpackPath_result:
  assumes run: "run_state (buildpackPath H C bp) w = (r, w')" and sound: "\<not> look_fails H C bp"
  shows "case find_buildpack H C (fs w) bp of Some p \<Rightarrow> r = Ok p | None \<Rightarrow> \<exists>e. r = Err e"
proof -
  let ?d = "BuildpackPath (BuildpacksDir C) bp"
  have ok: "h_fault H n op q = None" if "located C bp p" "q \<in> {p, Join [p, ''bin'']}" for n op p q
    using sound that unfolding look_fails_def by blast
  have l: "located C bp ?d" "located C bp (Join [?d, f])" for f by (auto simp: located_def)
  obtain r1 w1 where 1: "run_state (pathHasBinDirectory H ?d) w = (r1, w1)" by fastforce
  from pathHasBin_result [OF 1] ok [OF l(1)] have r1: "r1 = Ok (entry_at H (fs w) [?d, ''bin''])" "fs w1 = fs w" by auto
  show ?thesis
  proof (cases "entry_at H (fs w) [?d, ''bin'']")
    case True
    with run 1 r1 show ?thesis by (simp add: buildpackPath_def find_buildpack_def Let_def)
  next
    case False
    obtain r2 w2 where 2: "run_state (ReadDir H ?d) w1 = (r2, w2)" by fastforce
    note f2 = fs_unchanged(2) [OF 2]
    have c2: "case lookup (fs w) (resolve H ?d) of
        Some n \<Rightarrow> (case entry_names n of Inr x \<Rightarrow> r2 = Ok x | Inl e \<Rightarrow> r2 = Err (PathError ''open'' ?d e))
      | None \<Rightarrow> \<exists>e. r2 = Err e"
      using look_result [OF 2 [unfolded ReadDir_def]] ok [OF l(1)] r1(2) by simp
    from run 1 r1 False have rest: "run_state (attempt (ReadDir H ?d)
          (\<lambda>e. Wrap e (''Failed to read buildpack directory '' @ single_quoted ?d @
             '' for buildpack '' @ single_quoted bp))
          (nested_buildpack H ?d bp)) w1 = (r, w')" by (simp add: buildpackPath_def Let_def)
    show ?thesis
    proof (cases "\<exists>m es f. lookup (fs w) (resolve H ?d) = Some (Folder m es) \<and> remdups (map fst es) = [f]")
      case True
      then obtain m es f where f: "lookup (fs w) (resolve H ?d) = Some (Folder m es)" "remdups (map fst es) = [f]" by blast
      obtain r3 w3 where 3: "run_state (pathHasBinDirectory H (Join [?d, f])) w2 = (r3, w3)" by fastforce
      have "h_fault H n op (Join [Join [?d, f], ''bin'']) = None" for n op using ok [OF l(2)] by blast
      with pathHasBin_result [OF 3] f2 r1(2)
      have "r3 = Ok (entry_at H (fs w) [Join [?d, f], ''bin''])" by auto
      with rest 2 3 c2 f False show ?thesis
        by (simp add: nested_buildpack_def find_buildpack_def Let_def) (auto split: if_splits)
    next
      case none: False
      have "find_buildpack H C (fs w) bp = None"
        using none False by (auto simp: find_buildpack_def Let_def split: option.split node.split list.split)
      moreover have "\<exists>e. r = Err e"
      proof (cases r2)
        case (Ok files)
        with c2 obtain nd where nd: "lookup (fs w) (resolve H ?d) = Some nd" by (cases "lookup (fs w) (resolve H ?d)") simp_all
        with c2 Ok obtain m es where "nd = Folder m es" "files = sort (remdups (map fst es))" by (cases nd) simp_all
        with nd have "lookup (fs w) (resolve H ?d) = Some (Folder m es)" "files = sort (remdups (map fst es))" by simp_all
        then have "files \<noteq> [f]" for f using none sort_single [of "remdups (map fst es)" f] by auto
        then show ?thesis using rest 2 Ok by (auto simp: nested_buildpack_def split: list.splits)
      next
        case (Err e)
        with rest 2 show ?thesis by auto
      qed (use c2 in \<open>auto split: option.splits sum.splits\<close>)
      ultimately show ?thesis by simp
    qed
  qed
qed

lemma warn_result:
  assumes run: "run_state (warnIfDetectNotExecutable H p) w = (r, w')" and sound: "\<not> look_fails H C bp" and p: "located C bp p"
  shows "if entry_at H (fs w) [p, ''bin'', ''detect''] then r = Ok () else \<exists>e. r = Err e"
proof -
  let ?q = "Join [p, ''bin'', ''detect'']"
  have q: "?q \<noteq> ''''" by (rule Join_bin_nonempty) (simp add: plain_def)
  have fault: "h_fault H n op ?q = None" for n op using sound p unfolding look_fails_def by blast
  obtain r1 w1 where 1: "run_state (Stat H ?q) w = (r1, w1)" by fastforce
  from look_result [OF 1 [unfolded Stat_def] fault q] run 1 show ?thesis
    by (cases "lookup (fs w) (resolve H ?q)")
      (auto simp: warnIfDetectNotExecutable_def entry_at_def log_Println_def emit_def split: if_splits)
qed

lemma warn_fs_unchanged: "run_state (warnIfDetectNotExecutable H p) w = (r, w') \<Longrightarrow> fs w' = fs w"
  unfolding warnIfDetectNotExecutable_def
  by (auto simp: log_Println_def emit_def dest: fs_unchanged split: prod.splits result.splits if_splits)

lemma continue_run:
  "run_state (attempt (logError s) id (\<lambda>_. m)) w = (r, w') \<Longrightarrow>
   \<exists>w1. run_state m w1 = (r, w') \<and> runs w1 = runs w \<and> world.more w1 = world.more w \<and> fs w1 = fs w"
  by (auto simp: logError_def log_Println_def emit_def runs_def intro!: exI)

lemma detected_run:
  assumes "run_state (detected H C bp path out) w = (r, w')"
  shows "runs w' = runs w \<and> world.more w' = world.more w \<and> (\<exists>m. r = Ok (path, [m]) \<and> bm_Key m = bp)"
proof -
  obtain r1 w1 where 1: "run_state (buildpacksMetadata H C [bp]) w = (r1, w1)" by fastforce
  from metadata_total [OF 1] obtain ms where r1: "r1 = Ok ms" ..
  from buildpacksMetadata_keys [OF 1 [unfolded r1]] obtain m where ms: "ms = [m]" "bm_Key m = bp"
    by auto
  have "no_runs (buildpacksMetadata H C [bp])" by (rule quiet_no_runs, rule effect_intros)
  from no_runs_eq [OF this 1] no_runs_more [OF this 1] assms 1 r1 ms show ?thesis
    by (auto simp: detected_def name_from_output_def)
qed

lemma located_cases:
  assumes run: "run_state (buildpackPath H C bp) w = (r, w')"
  shows "(\<forall>e. r = Err e \<longrightarrow> find_buildpack H C (fs w) bp = None \<or> look_fails H C bp) \<and>
    (\<forall>p. r = Ok p \<longrightarrow> find_buildpack H C (fs w) bp = Some p \<or> look_fails H C bp)"
  using buildpackPath_result [OF run] by (auto split: option.splits)

interpretation same_files: effect_relation "\<lambda>w w' :: 'x world_scheme. fs w' = fs w"
  by unfold_locales simp_all

lemma same_files_look: "state_io_rel (\<lambda>w w'. fs w' = fs w) (syscall H op p (look f))"
  by (rule state_io_relI) (rule fs_unchanged_look)

lemma buildpackPath_fs:
  assumes "run_state (buildpackPath H C bp) w = (r, w')"
  shows "fs w' = fs w"
proof -
  have "state_io_rel (\<lambda>w w'. fs w' = fs w) (buildpackPath H C bp)"
    unfolding buildpackPath_def pathHasBinDirectory_def nested_buildpack_def Stat_def ReadDir_def
    by (intro same_files.within_intros same_files_look)
  with assms show ?thesis by (auto dest: state_io_relD)
qed

lemma metadata_fs: "run_state (buildpacksMetadata H C bps) w = (r, w') \<Longrightarrow> fs w' = fs w"
proof -
  have "state_io_rel (\<lambda>w w'. fs w' = fs w) (buildpacksMetadata H C bps)"
    unfolding buildpacksMetadata_def metadata_at_def ReadFile_def
    by (intro same_files.within_intros same_files_look)
  then show "run_state (buildpacksMetadata H C bps) w = (r, w') \<Longrightarrow> fs w' = fs w" by (auto dest: state_io_relD)
qed

lemma detected_fs: "run_state (detected H C bp path out) w = (r, w') \<Longrightarrow> fs w' = fs w"
  unfolding detected_def
  by (auto split: prod.splits result.splits list.splits dest: metadata_fs)

text \<open>One buildpack: it is passed over without a run, its detect script fails, or it is detected.\<close>

lemma detect_step:
  assumes run: "run_state (detect_from H C (bp # bps)) w = (r, w')"
  shows "(\<exists>w1. passed_over H C (fs w) bp \<and> run_state (detect_from H C bps) w1 = (r, w') \<and>
       runs w1 = runs w \<and> world.more w1 = world.more w \<and> fs w1 = fs w) \<or>
    (\<exists>p w1 n out e. has_detect H C (fs w) bp p \<and> located C bp p \<and> run_state (detect_from H C bps) w1 = (r, w') \<and>
       h_exec H n (detect_command C p) (fs w) = ((out, Some e), fs w1) \<and>
       runs w1 = runs w @ [(detect_command C p, False)] \<and> world.more w1 = world.more w) \<or>
    (\<exists>p m n out. has_detect H C (fs w) bp p \<and> located C bp p \<and> r = Ok (p, [m]) \<and> bm_Key m = bp \<and>
       h_exec H n (detect_command C p) (fs w) = ((out, None), fs w') \<and>
       runs w' = runs w @ [(detect_command C p, True)] \<and> world.more w' = world.more w)"
proof -
  obtain r1 w1 where 1: "run_state (buildpackPath H C bp) w = (r1, w1)" by fastforce
  note q1 = no_runs_located [OF 1] and f1 = buildpackPath_fs [OF 1] and c1 = located_cases [OF 1]
  have "returns (buildpackPath H C bp :: (runner, string) go)" by simp
  then show ?thesis using 1
  proof (rule returnsE)
    fix e assume r1: "r1 = Err e"
    with c1 have "passed_over H C (fs w) bp" by (auto simp: passed_over_def detect_script_def)
    moreover from continue_run [OF run [unfolded detect_from.simps Let_def run_on_err 1 prod.case r1 result.case]]
    obtain v where "run_state (detect_from H C bps) v = (r, w')" "runs v = runs w1" "world.more v = world.more w1"
      "fs v = fs w1" by blast
    ultimately show ?thesis using q1 f1 by auto
  next
    fix p assume r1: "r1 = Ok p"
    then have p: "located C bp p" using 1 by (auto intro: buildpackPath_located)
    obtain r2 w2 where 2: "run_state (warnIfDetectNotExecutable H p) w1 = (r2, w2)" by fastforce
    note q2 = no_runs_eq [OF no_runs_warn 2] no_runs_more [OF no_runs_warn 2] and f2 = warn_fs_unchanged [OF 2]
    have c2: "\<not> look_fails H C bp \<Longrightarrow> entry_at H (fs w) [p, ''bin'', ''detect''] \<longleftrightarrow> r2 = Ok ()"
      using warn_result [OF 2 _ p] f1 by (auto split: if_splits)
    have "returns (warnIfDetectNotExecutable H p)" by simp
    then show ?thesis using 2
    proof (rule returnsE)
      fix e assume r2: "r2 = Err e"
      with c1 c2 r1 have "passed_over H C (fs w) bp" by (auto simp: passed_over_def detect_script_def)
      moreover from continue_run [OF run [unfolded detect_from.simps Let_def run_on_err 1 prod.case r1 result.case 2 r2]]
      obtain v where "run_state (detect_from H C bps) v = (r, w')" "runs v = runs w2" "world.more v = world.more w2"
        "fs v = fs w2" by blast
      ultimately show ?thesis using q1 q2 f1 f2 by auto
    next
      fix u assume r2: "r2 = Ok u"
      with c1 c2 r1 p have h: "has_detect H C (fs w) bp p" by (auto simp: has_detect_def detect_script_def)
      obtain r3 w3 where 3: "run_state (Run_cmd H (detect_command C p)) w2 = (r3, w3)" by fastforce
      obtain out oe t where x: "h_exec H (clock w2) (detect_command C p) (fs w) = ((out, oe), t)"
        by (metis prod.collapse)
      with 3 f1 f2 have x3: "fs w3 = t" "r3 = (case oe of None \<Rightarrow> Ok out | Some s \<Rightarrow> Err (External s))"
        by (auto simp: Run_cmd_def)
      from Run_cmd_runs [OF 3] show ?thesis
      proof (elim conjE disjE exE)
        fix out' assume o: "r3 = Ok out'" "world.more w3 = world.more w2"
          "runs w3 = runs w2 @ [(detect_command C p, True)]"
        with run 1 2 3 r1 r2 have d: "run_state (detected H C bp p out') w3 = (r, w')"
          by (simp add: detect_command_def Let_def)
        from o x3 have "oe = None" by (cases oe) auto
        with detected_run [OF d] detected_fs [OF d] o p h q1 q2 x x3(1) show ?thesis by auto
      next
        fix e assume e: "r3 = Err e" "world.more w3 = world.more w2"
          "runs w3 = runs w2 @ [(detect_command C p, False)]"
        with run 1 2 3 r1 r2 have d: "run_state (detect_from H C bps) w3 = (r, w')"
          by (simp add: detect_command_def Let_def)
        from e x3 obtain s where "oe = Some s" by (cases oe) auto
        with x x3(1) have "h_exec H (clock w2) (detect_command C p) (fs w) = ((out, Some s), fs w3)" by simp
        moreover have "runs w3 = runs w @ [(detect_command C p, False)]" "world.more w3 = world.more w"
          using e q1 q2 by simp_all
        ultimately show ?thesis using d p h by blast
      qed
    qed
  qed
qed

text \<open>
  Going through the buildpacks without success, from one file tree to another: each of them is
  passed over, or its detect script is run in the tree as it is then, and fails.
\<close>

inductive tried :: "host \<Rightarrow> Config \<Rightarrow> node \<Rightarrow> string list \<Rightarrow> (command \<times> bool) list \<Rightarrow> node \<Rightarrow> bool"
  for H :: host and C :: Config where
  tried_none: "tried H C t [] [] t"
| tried_over: "passed_over H C t bp \<Longrightarrow> tried H C t bps rs t' \<Longrightarrow> tried H C t (bp # bps) rs t'"
| tried_fail: "has_detect H C t bp p \<Longrightarrow> h_exec H n (detect_command C p) t = ((out, Some e), t1) \<Longrightarrow>
    tried H C t1 bps rs t' \<Longrightarrow> tried H C t (bp # bps) ((detect_command C p, False) # rs) t'"

definition detect_trail ::
  "host \<Rightarrow> Config \<Rightarrow> node \<Rightarrow> string list \<Rightarrow> (command \<times> bool) list \<Rightarrow> (string \<times> BuildpackMetadata list) result \<Rightarrow> node \<Rightarrow> bool" where
  "detect_trail H C t bps rs r t' \<longleftrightarrow>
     (case r of
        Ok (path, md) \<Rightarrow> \<exists>pre bp post failed u n out. bps = pre @ bp # post \<and> tried H C t pre failed u \<and>
          has_detect H C u bp path \<and> h_exec H n (detect_command C path) u = ((out, None), t') \<and>
          map bm_Key md = [bp] \<and> rs = failed @ [(detect_command C path, True)]
      | Err e \<Rightarrow> as_DescriptiveError e = Some 222 \<and> tried H C t bps rs t'
      | _ \<Rightarrow> False)"

lemma trail_later:
  assumes "detect_trail H C t1 bps rs r t'"
    and later: "\<And>pre failed u. tried H C t1 pre failed u \<Longrightarrow> tried H C t (bp # pre) (new @ failed) u"
  shows "detect_trail H C t (bp # bps) (new @ rs) r t'"
proof (cases r)
  case (Ok x)
  obtain path md where x: "x = (path, md)" by (cases x)
  from assms(1) [unfolded detect_trail_def Ok x result.case prod.case] obtain pre b post failed u n out where *: "bps = pre @ b # post" "tried H C t1 pre failed u"
    "has_detect H C u b path" "h_exec H n (detect_command C path) u = ((out, None), t')"
    "map bm_Key md = [b]" "rs = failed @ [(detect_command C path, True)]"
    by (elim exE conjE) (rule that)
  from later [OF *(2)] *(1,3-6) show ?thesis
    unfolding detect_trail_def Ok x result.case prod.case
    by (intro exI [of _ "bp # pre"] exI [of _ b] exI [of _ post] exI [of _ "new @ failed"] exI [of _ u] exI [of _ n]
        exI [of _ out]) simp
next
  case (Err e)
  with assms(1) later [of bps rs t'] show ?thesis by (simp add: detect_trail_def)
qed (use assms(1) in \<open>simp_all add: detect_trail_def\<close>)

lemma detect_from_trail:
  "run_state (detect_from H C bps) w = (r, w') \<Longrightarrow>
   \<exists>rs. runs w' = runs w @ rs \<and> detect_trail H C (fs w) bps rs r (fs w')"
proof (induction bps arbitrary: w)
  case Nil
  then show ?case by (auto simp: DetectFailCode_def detect_trail_def intro: tried_none)
next
  case (Cons bp bps)
  from detect_step [OF Cons.prems] show ?case
  proof (elim disjE exE conjE)
    fix w1 assume 1: "passed_over H C (fs w) bp" "run_state (detect_from H C bps) w1 = (r, w')" "runs w1 = runs w" "fs w1 = fs w"
    from Cons.IH [OF 1(2)] 1(3,4) obtain rs where rs: "runs w' = runs w @ rs" "detect_trail H C (fs w) bps rs r (fs w')"
      by auto
    from trail_later [OF rs(2), of _ bp "[]"] tried_over [OF 1(1)] rs(1) show ?thesis by auto
  next
    fix p w1 n out e
    assume 1: "has_detect H C (fs w) bp p" "run_state (detect_from H C bps) w1 = (r, w')"
      "h_exec H n (detect_command C p) (fs w) = ((out, Some e), fs w1)" "runs w1 = runs w @ [(detect_command C p, False)]"
    from Cons.IH [OF 1(2)] 1(4) obtain rs where rs: "runs w' = runs w @ (detect_command C p, False) # rs"
      "detect_trail H C (fs w1) bps rs r (fs w')" by auto
    from trail_later [OF rs(2), of _ bp "[(detect_command C p, False)]"] tried_fail [OF 1(1,3)] rs(1) show ?thesis by auto
  next
    fix p m n out
    assume 1: "has_detect H C (fs w) bp p" "r = Ok (p, [m])" "bm_Key m = bp"
      "h_exec H n (detect_command C p) (fs w) = ((out, None), fs w')" "runs w' = runs w @ [(detect_command C p, True)]"
    then have "detect_trail H C (fs w) (bp # bps) [(detect_command C p, True)] r (fs w')"
      unfolding detect_trail_def 1(2) result.case prod.case
      by (intro exI [of _ "[]"] exI [of _ bp] exI [of _ bps] exI [of _ "fs w"] exI [of _ n] exI [of _ out]) (simp add: tried_none)
    with 1(5) show ?thesis by blast
  qed
qed

text \<open>Failed detect scripts of some of the buildpacks, in order.\<close>

definition detect_attempts :: "Config \<Rightarrow> string list \<Rightarrow> (command \<times> bool) list \<Rightarrow> bool" where
  "detect_attempts C bps rs \<longleftrightarrow>
     (\<exists>tried. subseq tried bps \<and>
        list_all2 (\<lambda>bp (c, b). \<not> b \<and> (\<exists>p. located C bp p \<and> c = detect_command C p)) tried rs)"

lemma detect_attempts_Nil: "detect_attempts C bps []"
  by (auto simp: detect_attempts_def)

lemma detect_attempts_skip: "detect_attempts C bps rs \<Longrightarrow> detect_attempts C (bp # bps) rs"
  by (auto simp: detect_attempts_def)

lemma detect_attempts_Cons:
  "located C bp p \<Longrightarrow> detect_attempts C bps rs \<Longrightarrow>
   detect_attempts C (bp # bps) ((detect_command C p, False) # rs)"
  unfolding detect_attempts_def by (elim exE conjE) (rule exI [of _ "bp # _"], auto)

definition no_detection :: go_error where
  "no_detection = DescriptiveError DetectFailCode (Some (Errorf FullDetectFailMsg)) DetectFailMsg"

definition detect_result ::
  "Config \<Rightarrow> string list \<Rightarrow> (command \<times> bool) list \<Rightarrow> (string \<times> BuildpackMetadata list) result \<Rightarrow> bool" where
  "detect_result C bps rs r \<longleftrightarrow>
     (case r of
        Ok (path, md) \<Rightarrow> (\<exists>pre bp post failed. bps = pre @ bp # post \<and> located C bp path \<and>
          map bm_Key md = [bp] \<and> detect_attempts C pre failed \<and>
          rs = failed @ [(detect_command C path, True)])
      | Err e \<Rightarrow> e = no_detection \<and> detect_attempts C bps rs
      | _ \<Rightarrow> False)"

lemma detect_result_found:
  "located C bp p \<Longrightarrow> bm_Key m = bp \<Longrightarrow> detect_result C (bp # bps) [(detect_command C p, True)] (Ok (p, [m]))"
  unfolding detect_result_def result.case prod.case
  by (intro exI [of _ "[]"] exI [of _ bp] exI [of _ bps] conjI detect_attempts_Nil) simp_all

lemma detect_result_later:
  assumes "detect_result C bps rs r"
    and "\<And>pre failed. detect_attempts C pre failed \<Longrightarrow> detect_attempts C (bp # pre) (new @ failed)"
  shows "detect_result C (bp # bps) (new @ rs) r"
proof (cases r)
  case (Ok x)
  obtain path md where x: "x = (path, md)" by (cases x)
  with assms(1) Ok obtain pre b post failed where *: "bps = pre @ b # post" "located C b path"
    "map bm_Key md = [b]" "detect_attempts C pre failed" "rs = failed @ [(detect_command C path, True)]"
    by (auto simp: detect_result_def)
  with assms(2) [OF *(4)] Ok x show ?thesis
    unfolding detect_result_def
    by (simp, intro exI [of _ "bp # pre"] exI [of _ b] exI [of _ post] exI [of _ "new @ failed"]) simp
qed (use assms in \<open>auto simp: detect_result_def\<close>)

lemma detect_from_outcome:
  "run_state (detect_from H C bps) w = (r, w') \<Longrightarrow>
   world.more w' = world.more w \<and> (\<exists>rs. runs w' = runs w @ rs \<and> detect_result C bps rs r)"
proof (induction bps arbitrary: w)
  case Nil
  then show ?case by (auto simp: detect_result_def no_detection_def detect_attempts_Nil)
next
  case (Cons bp bps)
  from detect_step [OF Cons.prems] show ?case
  proof (elim disjE exE conjE)
    fix w1 assume 1: "run_state (detect_from H C bps) w1 = (r, w')" "runs w1 = runs w" "world.more w1 = world.more w"
    from Cons.IH [OF 1(1)] 1 obtain rs where "runs w' = runs w @ rs" "detect_result C bps rs r"
      "world.more w' = world.more w" by auto
    with detect_result_later [of C bps rs r bp "[]"] detect_attempts_skip show ?thesis by auto
  next
    fix p w1 assume 1: "located C bp p" "run_state (detect_from H C bps) w1 = (r, w')"
      "runs w1 = runs w @ [(detect_command C p, False)]" "world.more w1 = world.more w"
    from Cons.IH [OF 1(2)] 1 obtain rs where "runs w' = runs w @ (detect_command C p, False) # rs"
      "detect_result C bps rs r" "world.more w' = world.more w" by auto
    with detect_result_later [of C bps rs r bp "[(detect_command C p, False)]"] detect_attempts_Cons [OF 1(1)]
    show ?thesis by auto
  next
    fix p m assume "located C bp p" "r = Ok (p, [m])" "bm_Key m = bp"
      "runs w' = runs w @ [(detect_command C p, True)]" "world.more w' = world.more w"
    with detect_result_found show ?thesis by auto
  qed
qed

text \<open>C9: Detection takes the first buildpack, in the configured order, whose detect script
  succeeds. It goes through the buildpacks before it one by one: one that is not found in the
  file tree of that moment, or has no detect script there, is passed over (as is one where the
  machine fails to look), and every other one has its detect script run, which failed. The result
  is the directory of the detected buildpack and its metadata alone. If none is detected, all of
  them have been tried in this way and the error carries the detect exit code 222. It never
  panics.\<close>

theorem detect_first_match:
  "case run_state (detect H C) w of (r, w') \<Rightarrow>
     \<exists>rs. runs w' = runs w @ rs \<and>
       (case r of
          Ok (path, md) \<Rightarrow> \<exists>pre bp post failed t n out. BuildpackOrder C = pre @ bp # post \<and>
            tried H C (fs w) pre failed t \<and> has_detect H C t bp path \<and>
            h_exec H n (detect_command C path) t = ((out, None), fs w') \<and>
            map bm_Key md = [bp] \<and> rs = failed @ [(detect_command C path, True)]
        | Err e \<Rightarrow> as_DescriptiveError e = Some 222 \<and> tried H C (fs w) (BuildpackOrder C) rs (fs w')
        | _ \<Rightarrow> False)"
proof -
  obtain r w' where run: "run_state (detect H C) w = (r, w')" by fastforce
  from detect_from_trail [OF run [unfolded detect_def]] show ?thesis unfolding run prod.case detect_trail_def .
qed

end
