(* ===== verification/Runner.thy ===== *)
theory Runner
  imports Detect Droplet
begin

text \<open>
  A whole staging run: \<^verbatim>\<open>(*Runner).Run\<close> of \<^verbatim>\<open>builder/runner.go\<close>, and \<^verbatim>\<open>execute\<close> of
  \<^verbatim>\<open>cmd/executor/executor.go\<close>, which creates the runner, defers its clean-up and runs it.
\<close>

section \<open>The phases\<close>

definition build_droplet ::
  "host \<Rightarrow> Config \<Rightarrow> BuildpackMetadata list \<Rightarrow> Release \<Rightarrow> (runner, unit) go" where
  "build_droplet H C buildpackMetadata releaseInfo =
     attempt (writeStagingInfoYML H (map_get (DefaultProcessTypes releaseInfo) ''web'') buildpackMetadata)
       (\<lambda>e. Wrap e ''unable to build staging info for the droplet'') (\<lambda>_.
     attempt (findTar H) id (\<lambda>tarPath.
     attempt (effect (log_Println ''Creating app artifact'')) id (\<lambda>_.
     attempt (createArtifacts H C tarPath buildpackMetadata releaseInfo)
       (\<lambda>e. Wrap e ''failed to find runnable app artifact'') (\<lambda>_.
     attempt (createCache H C tarPath)
       (\<lambda>e. Wrap e ''failed to cache runnable app artifact'') ok))))"

definition compile_and_release ::
  "host \<Rightarrow> Config \<Rightarrow> string \<Rightarrow> BuildpackMetadata list \<Rightarrow> (runner, BuildpackMetadata list \<times> Release) go" where
  "compile_and_release H C detectedBuildpackDir buildpackMetadata =
     attempt (runFinalize H C detectedBuildpackDir) id (\<lambda>_.
     attempt (if SkipDetect C then buildpacksMetadata H C (BuildpackOrder C) else ok buildpackMetadata) id
       (\<lambda>buildpackMetadata'.
     attempt (effect (log_Println ''Building droplet release'')) id (\<lambda>_.
     attempt (release H C detectedBuildpackDir)
       (\<lambda>e. NewReleaseFailError (Wrap e ''Failed to build droplet release''))
       (\<lambda>releaseInfo. ok (buildpackMetadata', releaseInfo)))))"

definition Run :: "host \<Rightarrow> Config \<Rightarrow> (runner, unit) go" where
  "Run H C =
     attempt (makeDirectories H C) (\<lambda>e. Wrap e ''Failed to set up filesystem when generating droplet'') (\<lambda>_.
     attempt (effect (log_Println ''Cleaning cache dir'')) id (\<lambda>_.
     attempt (cleanCacheDir H C) (\<lambda>e. Wrap e ''unable to clean cache dir'') (\<lambda>_.
     attempt (effect (log_Println ''Detecting buildpack'')) id (\<lambda>_.
     attempt (supplyOrDetect H C) id (\<lambda>(detectedBuildpackDir, buildpackMetadata).
     attempt (compile_and_release H C detectedBuildpackDir buildpackMetadata) id
       (\<lambda>(buildpackMetadata', releaseInfo).
     build_droplet H C buildpackMetadata' releaseInfo))))))"

definition execute :: "host \<Rightarrow> Config \<Rightarrow> (world, unit) go" where
  "execute H C = State (\<lambda>w.
     (case run_state (deferred (CleanUp H) (Run H C)) (NewRunner w) of
        (res, r) \<Rightarrow> (res, world.truncate r)))"

end
