(* ===== verification/Modifier.thy ===== *)
theory Modifier
  imports Models
begin

text \<open>
  \<^verbatim>\<open>staging_result_modifier.go\<close>: the buildpack keys of a staging result are names; they are
  replaced by the keys under which the cloud controller provides these buildpacks. The result
  is passed by value but its slice of buildpacks is shared with the caller, so \<open>Modify\<close> also
  gives the content of that slice afterwards.
\<close>

definition getProvidedBuildpacks :: "(string \<Rightarrow> string) \<Rightarrow> string \<Rightarrow> go_error + CCBuildpack list" where
  "getProvidedBuildpacks jsonError json =
     (case Unmarshal decode_CCBuildpacks None json of
        None \<Rightarrow> Inl (ErrorfW ''failed to unmarshal buildpacks JSON'' (External (jsonError json)))
      | Some bs \<Rightarrow> Inr (case bs of None \<Rightarrow> [] | Some xs \<Rightarrow> xs))"

fun getBuildpackKey :: "string \<Rightarrow> CCBuildpack list \<Rightarrow> go_error + string" where
  "getBuildpackKey name [] = Inl (Errorf (''could not find buildpack with name: '' @ name))"
| "getBuildpackKey name (b # bs) = (if cc_Name b = name then Inr (cc_Key b) else getBuildpackKey name bs)"

definition modifyBuildpackMetadata :: "BuildpackMetadata \<Rightarrow> CCBuildpack list \<Rightarrow> go_error + BuildpackMetadata" where
  "modifyBuildpackMetadata b provided =
     (case getBuildpackKey (bm_Key b) provided of
        Inl e \<Rightarrow> Inl e
      | Inr key \<Rightarrow> Inr (b\<lparr>bm_Key := key\<rparr>))"

text \<open>The loop writes every element back before it looks at the next one; the result is the
  error, if any, and the slice as the loop leaves it.\<close>

fun modifyBuildpacks :: "CCBuildpack list \<Rightarrow> BuildpackMetadata list \<Rightarrow> go_error option \<times> BuildpackMetadata list" where
  "modifyBuildpacks provided [] = (None, [])"
| "modifyBuildpacks provided (b # bs) =
     (case modifyBuildpackMetadata b provided of
        Inl e \<Rightarrow> (Some e, b # bs)
      | Inr b' \<Rightarrow> (case modifyBuildpacks provided bs of (e, bs') \<Rightarrow> (e, b' # bs')))"

definition modifyBuildpackKey :: "StagingResult \<Rightarrow> CCBuildpack list \<Rightarrow> go_error + StagingResult" where
  "modifyBuildpackKey result provided =
     (case getBuildpackKey (lm_BuildpackKey (sr_LifecycleMetadata result)) provided of
        Inl e \<Rightarrow> Inl e
      | Inr key \<Rightarrow> Inr (result\<lparr>sr_LifecycleMetadata :=
          (sr_LifecycleMetadata result)\<lparr>lm_BuildpackKey := key\<rparr>\<rparr>))"

definition Modify ::
  "(string \<Rightarrow> string) \<Rightarrow> string \<Rightarrow> StagingResult \<Rightarrow> (go_error + StagingResult) \<times> BuildpackMetadata list option" where
  "Modify jsonError ccBuildpacksJSON result =
     (let slice = lm_Buildpacks (sr_LifecycleMetadata result) in
      case getProvidedBuildpacks jsonError ccBuildpacksJSON of
        Inl e \<Rightarrow> (Inl e, slice)
      | Inr provided \<Rightarrow>
          (case modifyBuildpackKey result provided of
             Inl e \<Rightarrow> (Inl e, slice)
           | Inr result' \<Rightarrow>
               (case slice of
                  None \<Rightarrow> (Inr result', None)
                | Some bs \<Rightarrow>
                    (case modifyBuildpacks provided bs of
                       (Some e, bs') \<Rightarrow> (Inl e, Some bs')
                     | (None, bs') \<Rightarrow>
                         (Inr (result'\<lparr>sr_LifecycleMetadata :=
                            (sr_LifecycleMetadata result')\<lparr>lm_Buildpacks := Some bs'\<rparr>\<rparr>), Some bs')))))"

section \<open>Lookup of a key\<close>

definition provided_keys :: "CCBuildpack list \<Rightarrow> (string \<times> string) list" where
  "provided_keys = map (\<lambda>b. (cc_Name b, cc_Key b))"

lemma getBuildpackKey_map_of:
  "getBuildpackKey name bs =
     (case map_of (provided_keys bs) name of
        None \<Rightarrow> Inl (Errorf (''could not find buildpack with name: '' @ name))
      | Some key \<Rightarrow> Inr key)"
  by (induction bs) (auto simp: provided_keys_def)

definition rekey :: "CCBuildpack list \<Rightarrow> BuildpackMetadata \<Rightarrow> BuildpackMetadata" where
  "rekey provided b = b\<lparr>bm_Key := the (map_of (provided_keys provided) (bm_Key b))\<rparr>"

definition is_provided :: "CCBuildpack list \<Rightarrow> string \<Rightarrow> bool" where
  "is_provided provided name \<longleftrightarrow> name \<in> set (map cc_Name provided)"

lemma is_provided_map_of: "is_provided provided name \<longleftrightarrow> map_of (provided_keys provided) name \<noteq> None"
  by (simp add: is_provided_def provided_keys_def map_of_eq_None_iff image_image)

lemma modifyBuildpackMetadata_cases:
  "modifyBuildpackMetadata b provided =
     (if is_provided provided (bm_Key b) then Inr (rekey provided b)
      else Inl (Errorf (''could not find buildpack with name: '' @ bm_Key b)))"
  by (auto simp: modifyBuildpackMetadata_def getBuildpackKey_map_of is_provided_map_of rekey_def
      split: option.splits)

lemma modifyBuildpacks_all:
  "\<forall>b \<in> set bs. is_provided provided (bm_Key b) \<Longrightarrow>
   modifyBuildpacks provided bs = (None, map (rekey provided) bs)"
  by (induction bs) (simp_all add: modifyBuildpackMetadata_cases)

lemma modifyBuildpacks_stop:
  "\<forall>b \<in> set pre. is_provided provided (bm_Key b) \<Longrightarrow> \<not> is_provided provided (bm_Key b) \<Longrightarrow>
   modifyBuildpacks provided (pre @ b # post) =
     (Some (Errorf (''could not find buildpack with name: '' @ bm_Key b)), map (rekey provided) pre @ b # post)"
  by (induction pre) (simp_all add: modifyBuildpackMetadata_cases)

section \<open>The whole modification\<close>

definition not_found :: "string \<Rightarrow> go_error" where
  "not_found name = Errorf (''could not find buildpack with name: '' @ name)"

text \<open>The names that have to be provided: that of the buildpack key and those in the list.\<close>

definition result_names :: "StagingResult \<Rightarrow> string list" where
  "result_names r = lm_BuildpackKey (sr_LifecycleMetadata r) #
     map bm_Key (case lm_Buildpacks (sr_LifecycleMetadata r) of None \<Rightarrow> [] | Some bs \<Rightarrow> bs)"

definition key_of :: "CCBuildpack list \<Rightarrow> string \<Rightarrow> string" where
  "key_of provided name = the (map_of (provided_keys provided) name)"

definition rekey_result :: "CCBuildpack list \<Rightarrow> StagingResult \<Rightarrow> StagingResult" where
  "rekey_result provided r = r\<lparr>sr_LifecycleMetadata := (sr_LifecycleMetadata r)
     \<lparr>lm_BuildpackKey := key_of provided (lm_BuildpackKey (sr_LifecycleMetadata r)),
      lm_Buildpacks := map_option (map (rekey provided)) (lm_Buildpacks (sr_LifecycleMetadata r))\<rparr>\<rparr>"

lemma getBuildpackKey_cases:
  "getBuildpackKey name bs = (if is_provided bs name then Inr (key_of bs name) else Inl (not_found name))"
  by (auto simp: getBuildpackKey_map_of is_provided_map_of key_of_def not_found_def split: option.splits)

lemma modifyBuildpacks_cases:
  "modifyBuildpacks provided bs =
     (map_option not_found (List.find (\<lambda>n. \<not> is_provided provided n) (map bm_Key bs)),
      map (rekey provided) (takeWhile (\<lambda>b. is_provided provided (bm_Key b)) bs) @
      dropWhile (\<lambda>b. is_provided provided (bm_Key b)) bs)"
  by (induction bs) (auto simp: modifyBuildpackMetadata_cases not_found_def)


lemma Modify_result:
  assumes "getProvidedBuildpacks jsonError json = Inr provided"
  shows "fst (Modify jsonError json r) =
    (case List.find (\<lambda>n. \<not> is_provided provided n) (result_names r) of
       Some name \<Rightarrow> Inl (not_found name)
     | None \<Rightarrow> Inr (rekey_result provided r))"
proof (cases "lm_Buildpacks (sr_LifecycleMetadata r)")
  case None
  with assms show ?thesis
    by (simp add: Modify_def modifyBuildpackKey_def getBuildpackKey_cases result_names_def rekey_result_def)
next
  case (Some bs)
  show ?thesis
  proof (cases "List.find (\<lambda>n. \<not> is_provided provided n) (map bm_Key bs)")
    case None
    then have "modifyBuildpacks provided bs = (None, map (rekey provided) bs)"
      by (intro modifyBuildpacks_all) (auto simp: find_None_iff)
    with assms Some None show ?thesis
      by (simp add: Modify_def modifyBuildpackKey_def getBuildpackKey_cases result_names_def rekey_result_def)
  next
    case (Some name)
    with assms \<open>lm_Buildpacks (sr_LifecycleMetadata r) = Some bs\<close> show ?thesis
      by (simp add: Modify_def modifyBuildpackKey_def getBuildpackKey_cases result_names_def
          modifyBuildpacks_cases)
  qed
qed

definition sample_result :: StagingResult where
  "sample_result = NewStagingResult None
     \<lparr>lm_BuildpackKey = ''ruby'', lm_DetectedBuildpack = '''',
      lm_Buildpacks = Some [\<lparr>bm_Key = ''ruby'', bm_Name = '''', bm_Version = ''''\<rparr>,
        \<lparr>bm_Key = ''go'', bm_Name = '''', bm_Version = ''''\<rparr>]\<rparr>"

definition ruby_json :: string where
  "ruby_json = Marshal (encode_slice encode_Buildpack)
     (Some [\<lparr>bp_Name = ''ruby'', bp_Key = ''k1'', bp_URL = '''', bp_SkipDetect = False\<rparr>])"

lemma ruby_provided: "getProvidedBuildpacks je ruby_json =
    Inr [\<lparr>cc_Name = ''ruby'', cc_Key = ''k1'', cc_Url = '''', cc_SkipDetect = False\<rparr>]"
proof -
  have "Unmarshal decode_CCBuildpacks None ruby_json =
      Some (Some [\<lparr>cc_Name = ''ruby'', cc_Key = ''k1'', cc_Url = '''', cc_SkipDetect = False\<rparr>])"
    by code_simp
  then show ?thesis by (simp add: getProvidedBuildpacks_def)
qed

text \<open>C18: When the list of provided buildpacks can be decoded, the modified staging result has the
  provided key in the place of every buildpack name, and nothing else changed; if a name is not
  provided, the error names the first such one, the buildpack key before the list.\<close>

theorem Modify_reference:
  assumes "getProvidedBuildpacks jsonError json = Inr provided"
  shows "fst (Modify jsonError json r) =
    (case List.find (\<lambda>n. \<not> is_provided provided n) (result_names r) of
       Some name \<Rightarrow> Inl (not_found name)
     | None \<Rightarrow> Inr (rekey_result provided r))"
  by (rule Modify_result [OF assms])

lemma Modify_reference_witness: "fst (Modify id ruby_json sample_result) = Inl (not_found ''go'')"
  unfolding Modify_reference [OF ruby_provided] by code_simp

text \<open>C36: The slice of buildpacks is shared with the caller. When the modification fails because
  of a name in the list, the caller's slice has been overwritten up to that element.\<close>

theorem Modify_caller_slice:
  assumes "getProvidedBuildpacks jsonError json = Inr provided"
    and "is_provided provided (lm_BuildpackKey (sr_LifecycleMetadata r))"
    and "lm_Buildpacks (sr_LifecycleMetadata r) = Some bs"
  shows "snd (Modify jsonError json r) =
    Some (map (rekey provided) (takeWhile (\<lambda>b. is_provided provided (bm_Key b)) bs) @
          dropWhile (\<lambda>b. is_provided provided (bm_Key b)) bs)"
  using assms
  by (simp add: Modify_def modifyBuildpackKey_def getBuildpackKey_cases modifyBuildpacks_cases split: option.split)

lemma Modify_caller_slice_witness:
  "snd (Modify id ruby_json sample_result) =
     Some [\<lparr>bm_Key = ''k1'', bm_Name = '''', bm_Version = ''''\<rparr>, \<lparr>bm_Key = ''go'', bm_Name = '''', bm_Version = ''''\<rparr>]"
proof -
  let ?p = "[\<lparr>cc_Name = ''ruby'', cc_Key = ''k1'', cc_Url = '''', cc_SkipDetect = False\<rparr>]"
  have "is_provided ?p (lm_BuildpackKey (sr_LifecycleMetadata sample_result))"
    "lm_Buildpacks (sr_LifecycleMetadata sample_result) = Some [\<lparr>bm_Key = ''ruby'', bm_Name = '''', bm_Version = ''''\<rparr>,
        \<lparr>bm_Key = ''go'', bm_Name = '''', bm_Version = ''''\<rparr>]" by code_simp+
  from Modify_caller_slice [OF ruby_provided this] show ?thesis
    by (simp add: rekey_def provided_keys_def is_provided_def)
qed

section \<open>Well-formed results\<close>

definition wf_keys :: "CCBuildpack list \<Rightarrow> bool" where
  "wf_keys = list_all (\<lambda>b. valid_utf8 (cc_Key b))"

lemma wf_key_of:
  assumes "wf_keys provided" and "is_provided provided name"
  shows "valid_utf8 (key_of provided name)"
proof -
  from assms(2) obtain key where k: "map_of (provided_keys provided) name = Some key"
    by (auto simp: is_provided_map_of)
  then have "(name, key) \<in> set (provided_keys provided)" by (rule map_of_SomeD)
  with assms(1) k show ?thesis by (auto simp: wf_keys_def provided_keys_def key_of_def list_all_iff)
qed

lemma wf_rekey: "wf_keys provided \<Longrightarrow> is_provided provided (bm_Key b) \<Longrightarrow> wf_BuildpackMetadata b \<Longrightarrow>
    wf_BuildpackMetadata (rekey provided b)"
  using wf_key_of [of provided "bm_Key b"] by (simp add: wf_BuildpackMetadata_def rekey_def key_of_def)

lemma wf_rekey_result:
  assumes "wf_keys provided" "list_all (is_provided provided) (result_names r)" "wf_StagingResult r"
  shows "wf_StagingResult (rekey_result provided r)"
  using assms wf_key_of [of provided] wf_rekey [of provided]
  by (cases "lm_Buildpacks (sr_LifecycleMetadata r)")
    (auto simp: wf_StagingResult_def wf_LifecycleMetadata_def rekey_result_def result_names_def list_all_iff)

text \<open>C29: The modification keeps staging results well-formed: all texts of the result are valid
  UTF-8 if those of the given result and the provided keys are. So the JSON that is sent to the
  platform is read back as the modified result.\<close>

theorem Modify_wf:
  assumes "getProvidedBuildpacks jsonError json = Inr provided" and "wf_keys provided"
    and "wf_StagingResult r" and "fst (Modify jsonError json r) = Inr r'"
  shows "wf_StagingResult r' \<and>
    Unmarshal (decode_struct StagingResult_fields) zero_StagingResult (Marshal encode_StagingResult r') =
      Some (norm_StagingResult r')"
proof -
  from assms(4) Modify_result [OF assms(1), of r] have r': "r' = rekey_result provided r"
    and "List.find (\<lambda>n. \<not> is_provided provided n) (result_names r) = None" by (auto split: option.splits)
  then have "list_all (is_provided provided) (result_names r)" by (auto simp: find_None_iff list_all_iff)
  from wf_rekey_result [OF assms(2) this assms(3)] have "wf_StagingResult r'" unfolding r' .
  with StagingResult_codec.Unmarshal_Marshal show ?thesis by blast
qed

lemma Modify_wf_witness:
  "\<exists>r'. fst (Modify id ruby_json (NewStagingResult None
      \<lparr>lm_BuildpackKey = ''ruby'', lm_DetectedBuildpack = '''', lm_Buildpacks = None\<rparr>)) = Inr r' \<and> wf_StagingResult r'"
proof -
  let ?r = "NewStagingResult None \<lparr>lm_BuildpackKey = ''ruby'', lm_DetectedBuildpack = '''', lm_Buildpacks = None\<rparr>"
  have "wf_StagingResult ?r"
    by (simp add: wf_StagingResult_def wf_LifecycleMetadata_def NewStagingResult_def wf_string_map_def wf_map_def map_entries_def)
  moreover obtain r' where "fst (Modify id ruby_json ?r) = Inr r'"
    using Modify_result [OF ruby_provided [of id], of ?r]
    by (simp add: result_names_def NewStagingResult_def is_provided_def)
  moreover have "wf_keys [\<lparr>cc_Name = ''ruby'', cc_Key = ''k1'', cc_Url = '''', cc_SkipDetect = False\<rparr>]"
    by (simp add: wf_keys_def)
  ultimately show ?thesis using Modify_wf [OF ruby_provided] by blast
qed

end
