(* ===== verification/Responder.thy ===== *)
theory Responder
  imports OSFacts Modifier Names
begin

text \<open>
  \<^verbatim>\<open>responder.go\<close> and \<^verbatim>\<open>uploader.go\<close>, with the TLS client of \<^verbatim>\<open>util/http.go\<close> and the environment
  of \<^verbatim>\<open>util/env.go\<close>: how a staging step reports its outcome and uploads its files.
\<close>

section \<open>Environment\<close>

definition Getenv :: "host \<Rightarrow> string \<Rightarrow> string" where
  "Getenv H name = (case h_env H name of None \<Rightarrow> '''' | Some v \<Rightarrow> v)"

definition GetEnvOrDefault :: "host \<Rightarrow> string \<Rightarrow> string \<Rightarrow> string" where
  "GetEnvOrDefault H envVarName defaultValue =
     (case h_env H envVarName of None \<Rightarrow> defaultValue | Some v \<Rightarrow> v)"

definition MustGetEnv :: "host \<Rightarrow> string \<Rightarrow> ('x world_scheme, string) go" where
  "MustGetEnv H envVarName =
     (case h_env H envVarName of
        Some v \<Rightarrow> ok v
      | None \<Rightarrow> log_Fatal (''environment variable '' @ h_quote H envVarName @ '' is not set''))"

section \<open>TLS client\<close>

text \<open>\<open>h_tls\<close> stands for the third-party TLS configuration, built from the certificate files in
  the tree: the text of its error, or none.\<close>

definition CreateTLSHTTPClient ::
  "host \<Rightarrow> (string \<times> string \<times> string) list \<Rightarrow> ('x world_scheme, http_client) go" where
  "CreateTLSHTTPClient H certPaths = State (\<lambda>w.
     (case h_tls H certPaths (fs w) of
        Some s \<Rightarrow> Err (ErrorfW ''failed to build tlsconfig'' (External s))
      | None \<Rightarrow> Ok (TLSClient certPaths), w))"

section \<open>Responder\<close>

record Responder =
  stagingGUID :: string
  completionCallback :: string
  eiriniAddr :: string
  resp_client :: http_client

definition NewResponder ::
  "host \<Rightarrow> string \<Rightarrow> string \<Rightarrow> string \<Rightarrow> string \<Rightarrow> string \<Rightarrow> string \<Rightarrow> ('x world_scheme, Responder) go" where
  "NewResponder H guid callback addr caCert clientCrt clientKey =
     (let responder = \<lambda>client. \<lparr>stagingGUID = guid, completionCallback = callback,
            eiriniAddr = addr, resp_client = client\<rparr> in
      on_err (CreateTLSHTTPClient H [(clientCrt, clientKey, caCert)])
        (\<lambda>_. attempt (effect (log_Println ''mTLS is not configured, falling back to non-secure client'')) id
               (\<lambda>_. ok (responder DefaultClient)))
        (\<lambda>client. ok (responder client)))"

definition annotation_json :: "string \<Rightarrow> string" where
  "annotation_json callback =
     Marshal encode_StagingTaskAnnotation \<lparr>an_Lifecycle = '''', an_CompletionCallback = callback\<rparr>"

definition completed_uri :: "Responder \<Rightarrow> string \<Rightarrow> string" where
  "completed_uri r guid = eiriniAddr r @ ''/stage/'' @ guid @ ''/completed''"

definition complete_request :: "Responder \<Rightarrow> TaskCallbackResponse \<Rightarrow> http_request" where
  "complete_request r response =
     (let responseJSON = Marshal encode_TaskCallbackResponse response in
      \<lparr>req_method = ''PUT'', req_url = completed_uri r (TaskGuid response),
       req_contentType = Some ''application/json'', req_contentLength = Some (length responseJSON),
       req_body = responseJSON\<rparr>)"

definition status_error :: "nat \<Rightarrow> string \<Rightarrow> script \<Rightarrow> go_error" where
  "status_error status guid body =
     Errorf (''request not successful: status='' @ show_nat status @ '' taskGuid='' @ guid @ '' '' @
       (case ReadAll body of Inl e \<Rightarrow> '''' | Inr message \<Rightarrow> message))"

definition sendCompleteResponse :: "host \<Rightarrow> Responder \<Rightarrow> TaskCallbackResponse \<Rightarrow> ('x world_scheme, unit) go" where
  "sendCompleteResponse H r response =
     attempt (NewRequest H ''PUT'' (completed_uri r (TaskGuid response))
         (Marshal encode_TaskCallbackResponse response))
       (\<lambda>e. Wrap e ''failed to create request'') (\<lambda>req.
     attempt (Do H (resp_client r) (req\<lparr>req_contentType := Some ''application/json'',
           req_contentLength := Some (length (req_body req))\<rparr>))
       (\<lambda>e. Wrap e ''request failed'') (\<lambda>(status, body).
     if status \<ge> StatusBadRequest then fail (status_error status (TaskGuid response) body)
     else ok ()))"

definition createFailureResponse :: "go_error \<Rightarrow> string \<Rightarrow> string \<Rightarrow> TaskCallbackResponse" where
  "createFailureResponse failure guid callback =
     \<lparr>TaskGuid = guid, Failed = True, FailureReason = Error failure, tc_Result = '''',
      Annotation = annotation_json callback\<rparr>"

definition RespondWithFailure :: "host \<Rightarrow> Responder \<Rightarrow> go_error \<Rightarrow> ('x world_scheme, unit) go" where
  "RespondWithFailure H r failure =
     attempt (effect (log_Println (Error failure))) id (\<lambda>_.
     on_err (sendCompleteResponse H r (createFailureResponse failure (stagingGUID r) (completionCallback r)))
       (\<lambda>completeErr. effect (fmt_Println
          (''Error while processing failure completion callback: '' @ Error completeErr)))
       ok)"

definition getStagingResult :: "host \<Rightarrow> string \<Rightarrow> ('x world_scheme, StagingResult) go" where
  "getStagingResult H path =
     attempt (ReadFile H (Clean path)) (\<lambda>e. Wrap e ''failed to read result.json'') (\<lambda>contents.
       case Unmarshal (decode_struct StagingResult_fields) zero_StagingResult contents of
         None \<Rightarrow> fail (ErrorfW ''failed to unmarshal staging result'' (External (h_jsonError H contents)))
       | Some stagingResult \<Rightarrow> ok stagingResult)"

definition createSuccessResponse ::
  "host \<Rightarrow> Responder \<Rightarrow> string \<Rightarrow> string \<Rightarrow> ('x world_scheme, TaskCallbackResponse) go" where
  "createSuccessResponse H r outputMetadataLocation buildpackJSON =
     attempt (getStagingResult H outputMetadataLocation) id (\<lambda>stagingResult.
       case fst (Modify (h_jsonError H) buildpackJSON stagingResult) of
         Inl e \<Rightarrow> fail e
       | Inr modified \<Rightarrow>
           ok \<lparr>TaskGuid = stagingGUID r, Failed = False, FailureReason = '''',
               tc_Result = Marshal encode_StagingResult modified,
               Annotation = annotation_json (completionCallback r)\<rparr>)"

definition PrepareSuccessResponse ::
  "host \<Rightarrow> Responder \<Rightarrow> string \<Rightarrow> string \<Rightarrow> ('x world_scheme, TaskCallbackResponse) go" where
  "PrepareSuccessResponse H r outputLocation buildpackCfg =
     attempt (createSuccessResponse H r outputLocation buildpackCfg) id ok"

definition RespondWithSuccess :: "host \<Rightarrow> Responder \<Rightarrow> TaskCallbackResponse \<Rightarrow> ('x world_scheme, unit) go" where
  "RespondWithSuccess H r resp = sendCompleteResponse H r resp"

section \<open>Uploader\<close>

record DropletUploader =
  up_Client :: http_client

definition fileSize :: "host \<Rightarrow> string \<Rightarrow> ('x world_scheme, nat) go" where
  "fileSize H path = attempt (Stat H path) (ErrorfW ''failed to stat file'') (\<lambda>fileInfo. ok (fi_size fileInfo))"

definition upload_do :: "host \<Rightarrow> DropletUploader \<Rightarrow> http_request \<Rightarrow> ('x world_scheme, unit) go" where
  "upload_do H u req =
     attempt (Do H (up_Client u) req) (ErrorfW ''failed to make request'') (\<lambda>(status, body).
       if status \<ge> StatusBadRequest
       then fail (Errorf (''Upload failed: Status code '' @ show_nat status))
       else ok ())"

text \<open>The body of the request is the open file. A folder can be opened and has a size, but reading
  it fails, and with it the exchange: nothing of a folder is ever sent as an upload.\<close>

fun node_bytes :: "node \<Rightarrow> string" where
  "node_bytes (File m s) = s"
| "node_bytes (Folder m es) = ''''"

definition send_file :: "host \<Rightarrow> DropletUploader \<Rightarrow> string \<Rightarrow> node \<Rightarrow> http_request \<Rightarrow> ('x world_scheme, unit) go" where
  "send_file H u path sourceFile req =
     (case file_content sourceFile of
        Inl e \<Rightarrow> fail (ErrorfW ''failed to make request''
          (ErrorfW (''Post '' @ h_quote H (req_url req)) (PathError ''read'' path e)))
      | Inr bytes \<Rightarrow> upload_do H u req)"

definition uploadFile :: "host \<Rightarrow> DropletUploader \<Rightarrow> string \<Rightarrow> string \<Rightarrow> ('x world_scheme, unit) go" where
  "uploadFile H u fileLocation url =
     attempt (Open H (Clean fileLocation)) (ErrorfW ''failed to open file'') (\<lambda>sourceFile.
     attempt (NewRequest H ''POST'' url (node_bytes sourceFile)) (ErrorfW ''failed to create http request'') (\<lambda>request.
     attempt (fileSize H (Clean fileLocation)) id (\<lambda>contentLength.
       send_file H u (Clean fileLocation) sourceFile (request\<lparr>req_contentLength := Some contentLength,
         req_contentType := Some ''application/octet-stream''\<rparr>))))"

definition Upload :: "host \<Rightarrow> DropletUploader \<Rightarrow> string \<Rightarrow> string \<Rightarrow> ('x world_scheme, unit) go" where
  "Upload H u dropletUploadURL dropletLocation =
     (if dropletLocation = '''' then fail (Errorf ''empty path parameter'')
      else if dropletUploadURL = '''' then fail (Errorf ''empty url parameter'')
      else uploadFile H u dropletLocation dropletUploadURL)"

end
