(* ===== verification/Programs.thy ===== *)
theory Programs
  imports Installers Runner Responder
begin

text \<open>
  The three programs of \<^verbatim>\<open>cmd/\<close>: the downloader, the executor and the uploader, each from its
  environment to the exit of the process.
\<close>

section \<open>Common\<close>

definition CreateResponder :: "host \<Rightarrow> string \<Rightarrow> ('x world_scheme, Responder) go" where
  "CreateResponder H certPath =
     NewResponder H (Getenv H EnvStagingGUID) (Getenv H EnvCompletionCallback) (Getenv H EnvEiriniAddress)
       (Join [certPath, CACertName]) (Join [certPath, EiriniClientCert]) (Join [certPath, EiriniClientKey])"

text \<open>\<open>createDownloadHTTPClient\<close> and \<open>createUploaderHTTPClient\<close> are the same code.\<close>

definition createDownloadHTTPClient :: "host \<Rightarrow> string \<Rightarrow> ('x world_scheme, http_client) go" where
  "createDownloadHTTPClient H certPath =
     CreateTLSHTTPClient H
       [(Join [certPath, CCAPICertName], Join [certPath, CCAPIKeyName], Join [certPath, CACertName])]"

definition createUploaderHTTPClient :: "host \<Rightarrow> string \<Rightarrow> ('x world_scheme, http_client) go" where
  "createUploaderHTTPClient H certPath =
     CreateTLSHTTPClient H
       [(Join [certPath, CCAPICertName], Join [certPath, CCAPIKeyName], Join [certPath, CACertName])]"

text \<open>\<^verbatim>\<open>responder.RespondWithFailure(err)\<close> and then \<^verbatim>\<open>log.Fatalf\<close>.\<close>

definition respond_and_die :: "host \<Rightarrow> Responder \<Rightarrow> string \<Rightarrow> go_error \<Rightarrow> ('x world_scheme, 'a) go" where
  "respond_and_die H r text err =
     attempt (RespondWithFailure H r err) id (\<lambda>_. log_Fatal (text @ Error err))"

section \<open>Downloader\<close>

text \<open>An \<^verbatim>\<open>Installer\<close> is one of the two implementations.\<close>

datatype Installer = BuildpackInstaller BuildpackManager | AppInstaller PackageInstaller

fun Install :: "host \<Rightarrow> Installer \<Rightarrow> ('x world_scheme, unit) go" where
  "Install H (BuildpackInstaller b) = BuildpackManager_Install H b"
| "Install H (AppInstaller d) = PackageInstaller_Install H d"

definition checksumAlgorithm :: "host \<Rightarrow> string \<Rightarrow> ('x world_scheme, bytes) go" where
  "checksumAlgorithm H algorithm =
     (if algorithm = ''sha256'' then ok sha256_New
      else log_Fatal (''unsupported checksum verification algorithm: '' @ h_quote H algorithm))"

definition verifyingReader :: "bytes \<Rightarrow> string \<Rightarrow> ReaderFrom" where
  "verifyingReader hash chksum = (\<lambda>body. NewVerifyingReader (BodyReader body) hash chksum)"

definition untarCache :: "host \<Rightarrow> string \<Rightarrow> ('x world_scheme, unit) go" where
  "untarCache H buildpackCacheDir =
     attempt (LookPath H ''tar'') (ErrorfW ''failed to lookup tar path'') (\<lambda>tarPath.
     attempt (Run_cmd H ((Command tarPath [''-xzf'', buildpackCacheDir @ ''/app.zip''])\<lparr>cmd_dir := buildpackCacheDir\<rparr>))
       id (\<lambda>_. ok ()))"

definition cache_installer ::
  "host \<Rightarrow> http_client \<Rightarrow> string \<Rightarrow> string \<Rightarrow> ('x world_scheme, Installer list) go" where
  "cache_installer H downloadClient buildpackCacheURI buildpackCacheDir =
     (if buildpackCacheURI \<noteq> '''' then
        attempt (MustGetEnv H EnvBuildpackCacheChecksum) id (\<lambda>buildpackCacheChecksum.
        attempt (MustGetEnv H EnvBuildpackCacheChecksumAlgorithm) id (\<lambda>algorithm.
        attempt (checksumAlgorithm H algorithm) id (\<lambda>hash.
          ok [AppInstaller (NewPackageManager downloadClient buildpackCacheURI buildpackCacheDir
                (Some (verifyingReader hash buildpackCacheChecksum)))])))
      else ok [])"

definition install_all :: "host \<Rightarrow> Responder \<Rightarrow> Installer list \<Rightarrow> ('x world_scheme, unit) go" where
  "install_all H r installers =
     for_each (\<lambda>installer. on_err (Install H installer) (respond_and_die H r ''error installing: '') ok) installers"

definition downloader_main :: "host \<Rightarrow> (world, unit) go" where
  "downloader_main H =
     (let appBitsDownloadURL = Getenv H EnvDownloadURL;
          buildpacksJSON = Getenv H EnvBuildpacks;
          buildpacksDir = GetEnvOrDefault H EnvBuildpacksDir RecipeBuildPacksDir;
          certPath = GetEnvOrDefault H EnvCertsPath CCCertsMountPath;
          workspaceDir = GetEnvOrDefault H EnvWorkspaceDir RecipeWorkspaceDir in
      attempt (MustGetEnv H EnvBuildArtifactsCacheDir) id (\<lambda>buildpackCacheDir.
      on_err (MkdirAll H buildpackCacheDir perm_0755)
        (\<lambda>err. log_Fatal (''failed to create buildpack cache dir at '' @ buildpackCacheDir @ '': '' @ Error err)) (\<lambda>_.
      attempt (MustGetEnv H EnvBuildpackCacheDownloadURI) id (\<lambda>buildpackCacheURI.
      on_err (CreateResponder H certPath)
        (\<lambda>err. log_Fatal (''failed to initialize responder'' @ Error err)) (\<lambda>responder.
      on_err (createDownloadHTTPClient H certPath)
        (respond_and_die H responder ''error creating http client: '') (\<lambda>downloadClient.
      attempt (cache_installer H downloadClient buildpackCacheURI buildpackCacheDir) id (\<lambda>cacheInstallers.
      attempt (effect (log_Println ''Installing dependencies'')) id (\<lambda>_.
      attempt (install_all H responder
          ([BuildpackInstaller (NewBuildpackManager downloadClient DefaultClient buildpacksDir buildpacksJSON),
            AppInstaller (NewPackageManager downloadClient appBitsDownloadURL workspaceDir None)]
           @ cacheInstallers)) id (\<lambda>_.
      if buildpackCacheURI \<noteq> '''' then
        on_err (untarCache H buildpackCacheDir)
          (\<lambda>err. log_Fatal (''error untarring cache: '' @ Error err)) ok
      else ok ())))))))))"

section \<open>Executor\<close>

definition ExitReason :: string where
  "ExitReason = ''failed to create droplet''"

definition extract_app :: "host \<Rightarrow> string \<Rightarrow> ('x world_scheme, string) go" where
  "extract_app H downloadDir =
     attempt (TempDir H ''app-bits'') (ErrorfW ''failed to create temp dir'') (\<lambda>buildDir.
     attempt (Extract H tenGB (Join [downloadDir, AppBits]) buildDir) (ErrorfW ''extraction failed'')
       (\<lambda>_. ok buildDir))"

definition exit_code :: "go_error \<Rightarrow> int" where
  "exit_code err = (case as_DescriptiveError err of Some code \<Rightarrow> code | None \<Rightarrow> SystemFailCode)"

text \<open>A run of the executor that reports an error ends with the exit code of that error.\<close>

definition respond_with :: "host \<Rightarrow> Responder \<Rightarrow> int \<Rightarrow> go_error \<Rightarrow> (world, int) go" where
  "respond_with H r code err =
     attempt (RespondWithFailure H r (Wrap err ExitReason)) id (\<lambda>_. ok code)"

definition stage :: "host \<Rightarrow> Responder \<Rightarrow> string \<Rightarrow> Config \<Rightarrow> (world, int) go" where
  "stage H responder buildpackCfg config =
     (case InitBuildpacks H buildpackCfg config of
        Inl err \<Rightarrow> respond_with H responder 1 err
      | Inr buildConfig \<Rightarrow>
          on_err (execute H buildConfig) (\<lambda>err. respond_with H responder (exit_code err) err) (\<lambda>_. ok 0))"

definition executor_config :: "host \<Rightarrow> string \<Rightarrow> string \<Rightarrow> string \<Rightarrow> Config" where
  "executor_config H outputBuildArtifactsCache cacheDir buildDir =
     \<lparr>BuildDir = buildDir,
      BuildpacksDir = GetEnvOrDefault H EnvBuildpacksDir RecipeBuildPacksDir,
      OutputDropletLocation = GetEnvOrDefault H EnvOutputDropletLocation RecipeOutputDropletLocation,
      OutputBuildArtifactsCache = outputBuildArtifactsCache,
      OutputMetadataLocation = GetEnvOrDefault H EnvOutputMetadataLocation RecipeOutputMetadataLocation,
      BuildpackOrder = [], SkipDetect = False, BuildArtifactsCache = cacheDir\<rparr>"

definition executor_body :: "host \<Rightarrow> (world, int) go" where
  "executor_body H =
     (let buildpackCfg = Getenv H EnvBuildpacks in
      attempt (MustGetEnv H EnvOutputBuildArtifactsCache) id (\<lambda>outputBuildArtifactsCache.
      attempt (MustGetEnv H EnvBuildArtifactsCacheDir) id (\<lambda>cacheDir.
      let downloadDir = GetEnvOrDefault H EnvWorkspaceDir RecipeWorkspaceDir;
          certPath = GetEnvOrDefault H EnvCertsPath CCCertsMountPath in
      on_err (CreateResponder H certPath)
        (\<lambda>err. attempt (effect (log_Println (''failed to initialize responder: '' @ Error err))) id (\<lambda>_. ok 1)) (\<lambda>responder.
      on_err (extract_app H downloadDir) (respond_with H responder 1) (\<lambda>buildDir.
      deferred (ignoring (RemoveAll H buildDir))
        (stage H responder buildpackCfg
          (executor_config H outputBuildArtifactsCache cacheDir buildDir)))))))"

text \<open>
  \<^verbatim>\<open>defer func() { os.Exit(exitCode) }()\<close> ends the process with the exit code of the body. It
  also runs when the body panics: the code is still 0 then.
\<close>

definition executor_main :: "host \<Rightarrow> (world, unit) go" where
  "executor_main H = do {
     r \<leftarrow> executor_body H;
     case r of
       Ok code \<Rightarrow> go_exit code
     | Err e \<Rightarrow> go_exit 0
     | Panic s \<Rightarrow> go_exit 0
     | Exit n \<Rightarrow> go_exit n }"

section \<open>Uploader\<close>

definition uploader_main :: "host \<Rightarrow> (world, unit) go" where
  "uploader_main H =
     (let buildpacksConfig = Getenv H EnvBuildpacks;
          dropletUploadURL = Getenv H EnvDropletUploadURL;
          certPath = GetEnvOrDefault H EnvCertsPath CCCertsMountPath;
          dropletLocation = GetEnvOrDefault H EnvOutputDropletLocation RecipeOutputDropletLocation;
          metadataLocation = GetEnvOrDefault H EnvOutputMetadataLocation RecipeOutputMetadataLocation in
      attempt (MustGetEnv H EnvOutputBuildArtifactsCache) id (\<lambda>buildpackCacheLocation.
      attempt (MustGetEnv H EnvBuildpackCacheUploadURI) id (\<lambda>buildpackCacheUploadURL.
      on_err (CreateResponder H certPath)
        (\<lambda>err. log_Fatal (''failed to initialize responder'' @ Error err)) (\<lambda>responder.
      on_err (createUploaderHTTPClient H certPath)
        (\<lambda>err. attempt (RespondWithFailure H responder err) id (\<lambda>_. go_exit 1)) (\<lambda>client.
      on_err (Upload H \<lparr>up_Client = client\<rparr> dropletUploadURL dropletLocation)
        (respond_and_die H responder ''failed to upload droplet: '') (\<lambda>_.
      attempt (if buildpackCacheUploadURL \<noteq> '''' then
           on_err (Upload H \<lparr>up_Client = client\<rparr> buildpackCacheUploadURL buildpackCacheLocation)
             (respond_and_die H responder ''failed to upload buildpack cache. '') ok
         else ok ()) id (\<lambda>_.
      on_err (PrepareSuccessResponse H responder metadataLocation buildpacksConfig)
        (respond_and_die H responder ''failed to prepare response: '') (\<lambda>resp.
      on_err (RespondWithSuccess H responder resp)
        (\<lambda>err. log_Fatal (''failed to prepare response: '' @ Error err)) ok))))))))"

end
