(* ===== verification/Pipeline.thy ===== *)
theory Pipeline
  imports Artifacts Programs
begin

text \<open>
  What a whole staging run promises: an abstract machine whose steps are the phases of a run,
  labelled with the programs they execute, and the proof that \<open>Run\<close> of \<^verbatim>\<open>builder/runner.go\<close>
  is one of its executions, ending in a state that carries the exit code of the process.
\<close>

section \<open>The last phases\<close>

definition droplet_commands :: "Config \<Rightarrow> string \<Rightarrow> string \<Rightarrow> command list" where
  "droplet_commands C dir tar = artifact_commands C dir tar @ [cache_command C tar]"

definition undescribed :: "go_error \<Rightarrow> bool" where
  "undescribed e \<longleftrightarrow> as_DescriptiveError e = None"

lemma undescribed_simps [simp]: "undescribed (Wrap e m)" "undescribed (ErrorfW m (External s))"
  by (simp_all add: undescribed_def)

lemma findTar_errs: "errs undescribed (findTar H)"
  unfolding findTar_def
  by (rule errs_attempt [where Q = "\<lambda>e. \<exists>s. e = External s"])
    (auto simp: errs_def LookPath_def split: sum.splits)

lemma build_droplet_errs: "errs undescribed (build_droplet H C md rel)"
  unfolding build_droplet_def
  by (rule errs_attempt [OF errs_True], simp, rule errs_attempt [OF findTar_errs], simp)
    (intro errs_attempt [OF errs_True] errs_attempt [OF errs_basic(2) [where P = "\<lambda>_. False"]] errs_basic; simp)

lemma performs_pack:
  assumes "dir = contentsDir (w0 :: runner)"
  shows "performs (world.more w0) (droplet_commands C dir tar)
    (attempt (effect (log_Println s)) id (\<lambda>_.
     attempt (createArtifacts H C tar md rel) f (\<lambda>_. attempt (createCache H C tar) g ok)))"
  unfolding droplet_commands_def
  by (rule performs_first [OF performs_log], rule performs_attempt [OF performs_createArtifacts [OF assms]],
      rule performs_last [OF performs_createCache performs_ok])

lemma build_droplet_cases:
  assumes run: "run_state (build_droplet H C md rel) w = (r, w')"
  shows "world.more w' = world.more w \<and>
    (\<exists>tar rs. runs w' = runs w @ rs \<and> ran_up_to (droplet_commands C (contentsDir w) tar) rs \<and>
      (case r of
         Ok u \<Rightarrow> rs = all_succeeded (droplet_commands C (contentsDir w) tar)
       | Err e \<Rightarrow> undescribed e
       | Panic s \<Rightarrow> md = []
       | Exit n \<Rightarrow> False))"
proof -
  let ?m = "writeStagingInfoYML H (map_get (DefaultProcessTypes rel) ''web'') md"
  obtain r1 w1 where 1: "run_state ?m w = (r1, w1)" by fastforce
  note q1 = no_runs_eq [OF writeStagingInfoYML_effects(1) 1] no_runs_more [OF writeStagingInfoYML_effects(1) 1]
  show ?thesis
  proof (cases r1)
    case (Err e)
    with run 1 q1 show ?thesis by (auto simp: build_droplet_def intro!: exI [of _ "[]"])
  next
    case (Panic s)
    have "md = []"
    proof (rule ccontr)
      assume "md \<noteq> []"
      from writeStagingInfoYML_effects(2) [OF this] 1 Panic show False by (auto elim: returnsE)
    qed
    with Panic run 1 q1 show ?thesis by (auto simp: build_droplet_def intro!: exI [of _ "[]"])
  next
    case (Exit n)
    have "md \<noteq> [] \<Longrightarrow> False" using writeStagingInfoYML_effects(2) 1 Exit by (auto elim: returnsE)
    moreover have False if "md = []"
    proof -
      have R: "returns (Create H (Join [contentsDir w, ''staging_info.yml'']) :: (runner, unit) go)" by simp
      from 1 Exit that have "run_state (Create H (Join [contentsDir w, ''staging_info.yml''])) w = (Exit n, w1)"
        by (auto simp: writeStagingInfoYML_def Let_def split: prod.splits result.splits)
      with R show False by (rule returnsE) simp_all
    qed
    ultimately show ?thesis by blast
  next
    case (Ok u)
    obtain r2 w2 where 2: "run_state (findTar H) w1 = (r2, w2)" by fastforce
    note q2 = no_runs_eq [OF findTar_effects(1) 2] no_runs_more [OF findTar_effects(1) 2]
    from findTar_effects(2) 2 show ?thesis
    proof (rule returnsE)
      fix e assume r2: "r2 = Err e"
      have "undescribed e" by (rule errsD [OF findTar_errs 2 [unfolded r2]])
      with run 1 2 Ok r2 q1 q2 show ?thesis by (auto simp: build_droplet_def intro!: exI [of _ "[]"])
    next
      fix tar assume r2: "r2 = Ok tar"
      let ?k = "attempt (effect (log_Println ''Creating app artifact'')) id (\<lambda>_.
        attempt (createArtifacts H C tar md rel) (\<lambda>e. Wrap e ''failed to find runnable app artifact'') (\<lambda>_.
        attempt (createCache H C tar) (\<lambda>e. Wrap e ''failed to cache runnable app artifact'') ok))"
      have 3: "run_state ?k w2 = (r, w')"
        using run unfolding build_droplet_def run_attempt 1 2 Ok r2 prod.case result.case .
      have c: "contentsDir w = contentsDir w2" using q1 q2 runner_fields [of w w2] by simp
      from performsD [OF performs_pack [OF c] 3 refl] obtain rs where rs: "world.more w' = world.more w2"
        "runs w' = runs w2 @ rs" "ran_up_to (droplet_commands C (contentsDir w) tar) rs"
        "(\<exists>x. r = Ok x) \<and> rs = all_succeeded (droplet_commands C (contentsDir w) tar) \<or> (\<exists>e. r = Err e)"
        by blast
      have "undescribed e" if "r = Err e" for e
        by (rule errsD [OF build_droplet_errs run [unfolded that]])
      with rs q1 q2 show ?thesis by (intro conjI exI [of _ tar] exI [of _ rs]) auto
    qed
  qed
qed

section \<open>The abstract machine\<close>

text \<open>The states of a staging run. \<open>Selected\<close> and \<open>Compiled\<close> carry the directory of the final
  buildpack; \<open>Stopped\<close> carries an exit code.\<close>

datatype phase = Started | Selected string | Compiled string | Released | Staged | Stopped int

text \<open>The temporary directories of a run.\<close>

type_synonym run_dirs = "string \<times> string \<times> string"

definition dirs_of :: "runner \<Rightarrow> run_dirs" where
  "dirs_of w = (depsDir w, contentsDir w, profileDir w)"

text \<open>The programs of the finalize phase, by the scripts that the buildpack has.\<close>

definition compile_programs :: "host \<Rightarrow> Config \<Rightarrow> run_dirs \<Rightarrow> string \<Rightarrow> bool \<Rightarrow> bool \<Rightarrow> command list" where
  "compile_programs H C = (\<lambda>(deps, contents, profile) path has_finalize has_supply.
     let script = (\<lambda>name args. Command (Join [path, ''bin'', name]) ([BuildDir C, final_cache C] @ args)) in
     if has_finalize then
       (if has_supply then [script ''supply'' [deps, last_index H C]] else []) @
       [script ''finalize'' [deps, last_index H C, profile]]
     else [script ''compile'' []])"

definition pack_programs :: "Config \<Rightarrow> run_dirs \<Rightarrow> string \<Rightarrow> command list" where
  "pack_programs C = (\<lambda>(deps, contents, profile). droplet_commands C contents)"

inductive phase_step ::
  "host \<Rightarrow> Config \<Rightarrow> run_dirs \<Rightarrow> phase \<Rightarrow> (command \<times> bool) list \<Rightarrow> phase \<Rightarrow> bool"
  for H :: host and C :: Config and d :: run_dirs where
  set_up_fails: "phase_step H C d Started [] (Stopped 1)"
| supply_done: "SkipDetect C \<Longrightarrow> supplied H C (fst d) (List.enumerate 0 (SupplyBuildpacks C)) rs \<Longrightarrow>
    length rs = length (SupplyBuildpacks C) \<Longrightarrow> list_all snd rs \<Longrightarrow>
    located C (BuildpackOrder C ! length (SupplyBuildpacks C)) path \<Longrightarrow>
    phase_step H C d Started rs (Selected path)"
| supply_fails: "SkipDetect C \<Longrightarrow> supplied H C (fst d) (List.enumerate 0 (SupplyBuildpacks C)) rs \<Longrightarrow>
    phase_step H C d Started rs (Stopped 225)"
| detect_done: "\<not> SkipDetect C \<Longrightarrow> BuildpackOrder C = pre @ bp # post \<Longrightarrow> located C bp path \<Longrightarrow>
    detect_attempts C pre failed \<Longrightarrow>
    phase_step H C d Started (failed @ [(detect_command C path, True)]) (Selected path)"
| detect_fails: "\<not> SkipDetect C \<Longrightarrow> detect_attempts C (BuildpackOrder C) rs \<Longrightarrow>
    phase_step H C d Started rs (Stopped 222)"
| compile_done: "phase_step H C d (Selected path) (all_succeeded (compile_programs H C d path f s)) (Compiled path)"
| compile_fails: "ran_up_to (compile_programs H C d path f s) rs \<Longrightarrow> code \<in> {223, 225, 227} \<Longrightarrow>
    phase_step H C d (Selected path) rs (Stopped code)"
| release_done: "phase_step H C d (Compiled path) [(release_command C path, True)] Released"
| release_fails: "ran_up_to [release_command C path] rs \<Longrightarrow> phase_step H C d (Compiled path) rs (Stopped 224)"
| pack_done: "phase_step H C d Released (all_succeeded (pack_programs C d tar)) Staged"
| pack_fails: "ran_up_to (pack_programs C d tar) rs \<Longrightarrow> phase_step H C d Released rs (Stopped 1)"

inductive phases ::
  "host \<Rightarrow> Config \<Rightarrow> run_dirs \<Rightarrow> phase \<Rightarrow> (command \<times> bool) list \<Rightarrow> phase \<Rightarrow> bool"
  for H :: host and C :: Config and d :: run_dirs where
  phases_refl: "phases H C d p [] p"
| phases_step: "phase_step H C d p rs q \<Longrightarrow> phases H C d q ss q' \<Longrightarrow> phases H C d p (rs @ ss) q'"

inductive_cases from_Started: "phase_step H C d Started rs q"
inductive_cases from_Selected: "phase_step H C d (Selected path) rs q"
inductive_cases from_Compiled: "phase_step H C d (Compiled path) rs q"
inductive_cases from_Released: "phase_step H C d Released rs q"
inductive_simps from_ended [simp]: "phase_step H C d Staged rs q" "phase_step H C d (Stopped code) rs q"

lemma phases_one: "phase_step H C d p rs q \<Longrightarrow> phases H C d p rs q"
  using phases_step [of H C d p rs q "[]" q] phases_refl by simp

lemma phases_snoc:
  "phases H C d p rs q \<Longrightarrow> phase_step H C d q ss q' \<Longrightarrow> phases H C d p (rs @ ss) q'"
proof (induction rule: phases.induct)
  case (phases_refl p)
  then show ?case by (simp add: phases_one)
next
  case (phases_step p rs q ss' q'')
  then show ?case using phases.phases_step [of H C d p rs q "ss' @ ss" q'] by simp
qed

lemma finalize_commands_programs:
  "finalize_commands H C path w = compile_programs H C (dirs_of w) path
     (script_present H (fs w) path ''finalize'') (script_present H (fs w) path ''supply'')"
  by (simp add: finalize_commands_def compile_programs_def dirs_of_def Let_def)

lemma dirs_of_more: "world.more (w :: runner) = world.more v \<Longrightarrow> dirs_of w = dirs_of v"
  using runner_fields [of w v] by (simp add: dirs_of_def)

section \<open>The phases of a run\<close>

lemma no_runs_metadata: "no_runs (buildpacksMetadata H C bps)"
  by (rule quiet_no_runs, rule effect_intros)

lemma exit_code_simps [simp]:
  "exit_code (NewReleaseFailError e) = 224" "undescribed e \<Longrightarrow> exit_code e = 1"
  by (simp_all add: exit_code_def fail_codes undescribed_def)

text \<open>Collecting the metadata again and logging run nothing and cannot fail.\<close>

lemma refresh_metadata:
  assumes "run_state (if b then buildpacksMetadata H C (BuildpackOrder C) else ok md) w = (r, w')"
  shows "runs w' = runs w \<and> world.more w' = world.more w \<and>
    (\<exists>md'. r = Ok md' \<and> map bm_Key md' = (if b then BuildpackOrder C else map bm_Key md))"
proof (cases b)
  case True
  with assms have run: "run_state (buildpacksMetadata H C (BuildpackOrder C)) w = (r, w')" by simp
  from metadata_total [OF run] obtain md' where r: "r = Ok md'" ..
  from no_runs_eq [OF no_runs_metadata run] no_runs_more [OF no_runs_metadata run]
    buildpacksMetadata_keys [OF run [unfolded r]] r True show ?thesis by simp
qed (use assms in auto)

lemma released_cases:
  assumes "run_state (release H C path) w = (r, w')"
  shows "world.more w' = world.more w \<and>
    (\<exists>rs. runs w' = runs w @ rs \<and> ran_up_to [release_command C path] rs \<and>
      ((\<exists>rel. r = Ok rel) \<and> rs = [(release_command C path, True)] \<or> (\<exists>e. r = Err e)))"
  using performsD [OF performs_release assms refl] by simp

lemma compile_and_release_cases:
  assumes run: "run_state (compile_and_release H C path md) w = (r, w')"
  shows "world.more w' = world.more w \<and>
    (\<exists>rs. runs w' = runs w @ rs \<and>
      (case r of
         Ok (md', rel) \<Rightarrow> phases H C (dirs_of w) (Selected path) rs Released \<and>
           map bm_Key md' = (if SkipDetect C then BuildpackOrder C else map bm_Key md)
       | Err e \<Rightarrow> phases H C (dirs_of w) (Selected path) rs (Stopped (exit_code e))
       | _ \<Rightarrow> False))"
proof -
  obtain r1 w1 where 1: "run_state (runFinalize H C path) w = (r1, w1)" by fastforce
  from runFinalize_cases [OF 1, unfolded finalize_commands_programs] obtain rs f s where
    m1: "world.more w1 = world.more w" and rs: "runs w1 = runs w @ rs"
    "ran_up_to (compile_programs H C (dirs_of w) path f s) rs"
    and r1: "case r1 of Ok u \<Rightarrow> rs = all_succeeded (compile_programs H C (dirs_of w) path f s)
      | Err e \<Rightarrow> as_DescriptiveError e \<in> Some ` {SupplyFailCode, FinalizeFailCode, CompileFailCode}
      | Panic s \<Rightarrow> False | Exit n \<Rightarrow> False" by blast
  show ?thesis
  proof (cases r1)
    case (Err e)
    have "exit_code e \<in> {223, 225, 227}" using r1 Err by (auto simp: exit_code_def fail_codes)
    from phases_one [OF compile_fails [OF rs(2) this]] run 1 Err m1 rs(1) show ?thesis
      by (auto simp: compile_and_release_def)
  next
    case (Ok u)
    obtain r2 w2 where 2: "run_state (if SkipDetect C then buildpacksMetadata H C (BuildpackOrder C) else ok md) w1 = (r2, w2)"
      by fastforce
    from refresh_metadata [OF 2] obtain md' where md: "runs w2 = runs w1" "world.more w2 = world.more w1" "r2 = Ok md'"
      "map bm_Key md' = (if SkipDetect C then BuildpackOrder C else map bm_Key md)" by blast
    obtain w3 where 3: "run_state (effect (log_Println ''Building droplet release'') :: (runner, unit) go) w2 = (Ok (), w3)"
      by (auto simp: log_Println_def emit_def)
    have q3: "runs w3 = runs w2" "world.more w3 = world.more w2"
      using no_runs_eq [OF no_runs.within_effect [OF no_runs_log(1)] 3] no_runs_more [OF no_runs.within_effect [OF no_runs_log(1)] 3]
      by simp_all
    obtain r4 w4 where 4: "run_state (release H C path) w3 = (r4, w4)" by fastforce
    from released_cases [OF 4] obtain rs' where r4: "world.more w4 = world.more w3" "runs w4 = runs w3 @ rs'"
      "ran_up_to [release_command C path] rs'"
      "(\<exists>rel. r4 = Ok rel) \<and> rs' = [(release_command C path, True)] \<or> (\<exists>e. r4 = Err e)" by blast
    have start: "phase_step H C (dirs_of w) (Selected path) rs (Compiled path)"
      using compile_done [of H C "dirs_of w" path f s] r1 Ok by simp
    have res: "r = (case r4 of Ok rel \<Rightarrow> Ok (md', rel)
        | Err e \<Rightarrow> Err (NewReleaseFailError (Wrap e ''Failed to build droplet release''))
        | Panic s \<Rightarrow> Panic s | Exit n \<Rightarrow> Exit n) \<and> w' = w4"
      using run 1 2 3 4 Ok md(3) by (auto simp: compile_and_release_def split: result.splits)
    have seq: "runs w4 = runs w @ (rs @ rs')" "world.more w4 = world.more w"
      using r4 q3 md m1 rs(1) by simp_all
    from r4(4) show ?thesis
    proof (elim disjE exE conjE)
      fix rel assume "r4 = Ok rel" "rs' = [(release_command C path, True)]"
      with phases_step [OF start phases_one [OF release_done]] res seq md(4) show ?thesis
        by (intro conjI exI [of _ "rs @ rs'"]) auto
    next
      fix e assume "r4 = Err e"
      with phases_step [OF start phases_one [OF release_fails [OF r4(3)]]] res seq show ?thesis
        by (intro conjI exI [of _ "rs @ rs'"]) auto
    qed
  qed (use r1 in auto)
qed

lemma supplyOrDetect_cases:
  assumes run: "run_state (supplyOrDetect H C) w = (r, w')"
  shows "world.more w' = world.more w \<and>
    (\<exists>rs. runs w' = runs w @ rs \<and>
      (case r of
         Ok (path, md) \<Rightarrow> phase_step H C (dirs_of w) Started rs (Selected path) \<and>
           (if SkipDetect C then map bm_Key md = BuildpackOrder C else md \<noteq> [])
       | Err e \<Rightarrow> phase_step H C (dirs_of w) Started rs (Stopped (exit_code e))
       | Panic s \<Rightarrow> SkipDetect C \<and> BuildpackOrder C = []
       | Exit n \<Rightarrow> False))"
proof (cases "SkipDetect C")
  case True
  with run have "run_state (runSupplyBuildpacks H C) w = (r, w')" by (simp add: supplyOrDetect_def)
  from runSupplyBuildpacks_cases [OF this] obtain rs where m: "world.more w' = world.more w" "runs w' = runs w @ rs"
    and s: "supplied H C (fst (dirs_of w)) (List.enumerate 0 (SupplyBuildpacks C)) rs"
    and r: "case r of Ok (path, md) \<Rightarrow> length rs = length (SupplyBuildpacks C) \<and> list_all snd rs \<and>
            located C (BuildpackOrder C ! length (SupplyBuildpacks C)) path \<and> map bm_Key md = BuildpackOrder C
        | Err e \<Rightarrow> as_DescriptiveError e = Some SupplyFailCode
        | Panic s \<Rightarrow> length (BuildpackOrder C) \<le> length (SupplyBuildpacks C) | Exit n \<Rightarrow> False"
    by (auto simp: dirs_of_def)
  have "length (SupplyBuildpacks C) = length (BuildpackOrder C) - 1"
    using True by (simp add: SupplyBuildpacks_butlast)
  then have "length (BuildpackOrder C) \<le> length (SupplyBuildpacks C) \<Longrightarrow> BuildpackOrder C = []"
    by (cases "BuildpackOrder C") auto
  with m r supply_done [OF True s] supply_fails [OF True s] True show ?thesis
    by (intro conjI exI [of _ rs]) (auto simp: exit_code_def fail_codes split: result.splits)
next
  case False
  with run have "run_state (detect_from H C (BuildpackOrder C)) w = (r, w')"
    by (simp add: supplyOrDetect_def detect_def)
  from detect_from_outcome [OF this] obtain rs where m: "world.more w' = world.more w" "runs w' = runs w @ rs"
    and r: "detect_result C (BuildpackOrder C) rs r" by blast
  show ?thesis
  proof (cases r)
    case (Ok x)
    obtain path md where x: "x = (path, md)" by (cases x)
    from r Ok x obtain pre bp post failed where *: "BuildpackOrder C = pre @ bp # post" "located C bp path"
      "map bm_Key md = [bp]" "detect_attempts C pre failed" "rs = failed @ [(detect_command C path, True)]"
      by (auto simp: detect_result_def)
    have "phase_step H C (dirs_of w) Started rs (Selected path)"
      unfolding *(5) by (rule detect_done [OF False *(1,2,4)])
    with m Ok x False *(3) show ?thesis by auto
  next
    case (Err e)
    with r have "exit_code e = 222" "detect_attempts C (BuildpackOrder C) rs"
      by (auto simp: detect_result_def no_detection_def exit_code_def DetectFailCode_def)
    with detect_fails [OF False] Err m show ?thesis by auto
  qed (use r in \<open>auto simp: detect_result_def\<close>)
qed

lemma returns_set_up: "returns (makeDirectories H C)" "returns (cleanCacheDir H C)"
  unfolding makeDirectories_def make_supply_caches_def make_deps_dirs_def cleanCacheDir_def cleanCacheEntry_def
  by (intro returns_intros returns_basic_os returns_dirs)+

lemma quiet_cleanCacheDir: "quiet (cleanCacheDir H C)"
  unfolding cleanCacheDir_def cleanCacheEntry_def by (intro quiet.within_intros effect_intros)

lemma log_step:
  assumes "run_state (attempt (effect (log_Println s)) id k) w = (r, w')"
  obtains w1 where "run_state (k ()) w1 = (r, w')" and "runs w1 = runs w" and "world.more w1 = world.more w"
  using assms by (auto simp: log_Println_def emit_def runs_def)

text \<open>\<open>set_up\<close>: the part of \<open>Run\<close> before buildpacks are looked at, with the rest as its
  continuation.\<close>

definition after_set_up :: "host \<Rightarrow> Config \<Rightarrow> (runner, unit) go" where
  "after_set_up H C =
     attempt (supplyOrDetect H C) id (\<lambda>(detectedBuildpackDir, buildpackMetadata).
     attempt (compile_and_release H C detectedBuildpackDir buildpackMetadata) id
       (\<lambda>(buildpackMetadata', releaseInfo).
     build_droplet H C buildpackMetadata' releaseInfo))"

lemma Run_set_up:
  assumes run: "run_state (Run H C) w = (r, w')"
  obtains e where "r = Err e" "undescribed e" "runs w' = runs w"
  | w1 where "run_state (after_set_up H C) w1 = (r, w')" "runs w1 = runs w"
proof -
  obtain r1 w1 where 1: "run_state (makeDirectories H C) w = (r1, w1)" by fastforce
  have t1: "runs w1 = runs w"
    using state_io_relD [OF silent_makeDirectories 1] by (simp add: runs_def)
  from returns_set_up(1) 1 show thesis
  proof (rule returnsE)
    fix e assume "r1 = Err e"
    with run 1 t1 that(1) show thesis by (auto simp: Run_def)
  next
    fix u assume r1: "r1 = Ok u"
    from run [unfolded Run_def run_attempt [of "makeDirectories H C"] 1 prod.case r1 result.case]
    obtain w2 where run2: "run_state (attempt (cleanCacheDir H C) (\<lambda>e. Wrap e ''unable to clean cache dir'') (\<lambda>_.
       attempt (effect (log_Println ''Detecting buildpack'')) id (\<lambda>_. after_set_up H C))) w2 = (r, w')"
      and t2: "runs w2 = runs w1"
      unfolding after_set_up_def by (rule log_step)
    obtain r3 w3 where 3: "run_state (cleanCacheDir H C) w2 = (r3, w3)" by fastforce
    have t3: "runs w3 = runs w2" by (rule no_runs_eq [OF quiet_no_runs [OF quiet_cleanCacheDir] 3])
    from returns_set_up(2) 3 show thesis
    proof (rule returnsE)
      fix e assume "r3 = Err e"
      with run2 3 t1 t2 t3 that(1) show thesis by auto
    next
      fix v assume r3: "r3 = Ok v"
      from run2 [unfolded run_attempt [of "cleanCacheDir H C"] 3 prod.case r3 result.case]
      obtain w4 where "run_state (after_set_up H C) w4 = (r, w')" "runs w4 = runs w3" by (rule log_step)
      with that(2) t1 t2 t3 show thesis by simp
    qed
  qed
qed

section \<open>Refinement\<close>

lemma after_set_up_cases:
  assumes run: "run_state (after_set_up H C) w = (r, w')"
  shows "world.more w' = world.more w \<and> (\<exists>rs. runs w' = runs w @ rs \<and>
      (case r of
         Ok u \<Rightarrow> phases H C (dirs_of w) Started rs Staged
       | Err e \<Rightarrow> phases H C (dirs_of w) Started rs (Stopped (exit_code e))
       | Panic s \<Rightarrow> SkipDetect C \<and> BuildpackOrder C = []
       | Exit n \<Rightarrow> False))"
proof -
  obtain r1 w1 where 1: "run_state (supplyOrDetect H C) w = (r1, w1)" by fastforce
  from supplyOrDetect_cases [OF 1] obtain rs1 where m1: "world.more w1 = world.more w" "runs w1 = runs w @ rs1"
    and r1: "case r1 of Ok (path, md) \<Rightarrow> phase_step H C (dirs_of w) Started rs1 (Selected path) \<and>
           (if SkipDetect C then map bm_Key md = BuildpackOrder C else md \<noteq> [])
       | Err e \<Rightarrow> phase_step H C (dirs_of w) Started rs1 (Stopped (exit_code e))
       | Panic s \<Rightarrow> SkipDetect C \<and> BuildpackOrder C = [] | Exit n \<Rightarrow> False" by blast
  show ?thesis
  proof (cases r1)
    case (Ok x)
    obtain path md where x: "x = (path, md)" by (cases x)
    from r1 Ok x have sel: "phase_step H C (dirs_of w) Started rs1 (Selected path)"
      and md: "if SkipDetect C then map bm_Key md = BuildpackOrder C else md \<noteq> []" by simp_all
    obtain r2 w2 where 2: "run_state (compile_and_release H C path md) w1 = (r2, w2)" by fastforce
    from compile_and_release_cases [OF 2] obtain rs2 where m2: "world.more w2 = world.more w1" "runs w2 = runs w1 @ rs2"
      and r2: "case r2 of Ok (md', rel) \<Rightarrow> phases H C (dirs_of w1) (Selected path) rs2 Released \<and>
           map bm_Key md' = (if SkipDetect C then BuildpackOrder C else map bm_Key md)
       | Err e \<Rightarrow> phases H C (dirs_of w1) (Selected path) rs2 (Stopped (exit_code e)) | _ \<Rightarrow> False" by blast
    show ?thesis
    proof (cases r2)
      case (Err e)
      with r2 phases_step [OF sel] have "phases H C (dirs_of w) Started (rs1 @ rs2) (Stopped (exit_code e))"
        by (simp add: dirs_of_more [OF m1(1)])
      moreover have "r = Err e \<and> w' = w2" using run 1 2 Ok x Err by (simp add: after_set_up_def)
      ultimately show ?thesis using m1 m2 by (intro conjI exI [of _ "rs1 @ rs2"]) simp_all
    next
      case (Ok y)
      obtain md' rel where y: "y = (md', rel)" by (cases y)
      with r2 Ok phases_step [OF sel] have rel: "phases H C (dirs_of w) Started (rs1 @ rs2) Released"
        and md': "map bm_Key md' = (if SkipDetect C then BuildpackOrder C else map bm_Key md)"
        by (simp_all add: dirs_of_more [OF m1(1)])
      have 3: "run_state (build_droplet H C md' rel) w2 = (r, w')"
        using run 1 2 \<open>r1 = Ok x\<close> x Ok y by (simp add: after_set_up_def)
      from build_droplet_cases [OF 3] obtain tar rs3 where m3: "runs w' = runs w2 @ rs3"
        "world.more w' = world.more w2"
        "ran_up_to (droplet_commands C (contentsDir w2) tar) rs3"
        and r: "case r of Ok u \<Rightarrow> rs3 = all_succeeded (droplet_commands C (contentsDir w2) tar)
          | Err e \<Rightarrow> undescribed e | Panic s \<Rightarrow> md' = [] | Exit n \<Rightarrow> False" by blast
      have prog: "droplet_commands C (contentsDir w2) tar = pack_programs C (dirs_of w) tar"
        using dirs_of_more [OF m1(1)] dirs_of_more [OF m2(1)] by (simp add: pack_programs_def dirs_of_def)
      have runs: "runs w' = runs w @ ((rs1 @ rs2) @ rs3)" using m1 m2 m3 by simp
      have empty: "md' = [] \<Longrightarrow> SkipDetect C \<and> BuildpackOrder C = []" using md md' by (auto split: if_splits)
      have "phase_step H C (dirs_of w) Released rs3 Staged" if "r = Ok ()"
        using r pack_done [of H C "dirs_of w" tar] that prog by simp
      moreover have "phase_step H C (dirs_of w) Released rs3 (Stopped (exit_code e))" if "r = Err e" for e
        using r pack_fails [OF m3(3) [unfolded prog]] that by simp
      ultimately show ?thesis
        using r runs empty phases_snoc [OF rel]
        by (intro conjI exI [of _ "(rs1 @ rs2) @ rs3"]) (simp add: m1 m2 m3, simp, cases r, auto)
    qed (use r2 in auto)
  next
    case (Err e)
    with run 1 r1 m1 show ?thesis by (auto simp: after_set_up_def intro: phases_one)
  next
    case (Panic s)
    with run 1 r1 m1 show ?thesis by (auto simp: after_set_up_def)
  qed (use r1 in auto)
qed

lemma Run_cases:
  assumes run: "run_state (Run H C) w = (r, w')"
  shows "\<exists>rs. runs w' = runs w @ rs \<and>
      (case r of
         Ok u \<Rightarrow> phases H C (dirs_of w') Started rs Staged
       | Err e \<Rightarrow> phases H C (dirs_of w') Started rs (Stopped (exit_code e))
       | Panic s \<Rightarrow> SkipDetect C \<and> BuildpackOrder C = []
       | Exit n \<Rightarrow> False)"
  using run
proof (rule Run_set_up)
  fix e assume "r = Err e" "undescribed e" "runs w' = runs w"
  with phases_one [OF set_up_fails [of H C "dirs_of w'"]] show ?thesis
    by (intro exI [of _ "[]"]) simp
next
  fix w1 assume run: "run_state (after_set_up H C) w1 = (r, w')" and "runs w1 = runs w"
  with after_set_up_cases [OF run] show ?thesis by (metis dirs_of_more)
qed

text \<open>C1: A staging run refines the abstract machine. The external programs it executes, in order
  and with their outcomes, are the labels of an execution of the machine from \<open>Started\<close>: to
  \<open>Staged\<close> if the run succeeds, and to \<open>Stopped\<close> with the exit code of its error if it fails.
  It panics at most for a configuration that skips detection and has no buildpack.\<close>

theorem Run_refines:
  "case run_state (Run H C) w of (r, w') \<Rightarrow>
     \<exists>rs. runs w' = runs w @ rs \<and>
       (case r of
          Ok u \<Rightarrow> phases H C (dirs_of w') Started rs Staged
        | Err e \<Rightarrow> phases H C (dirs_of w') Started rs (Stopped (exit_code e))
        | Panic s \<Rightarrow> SkipDetect C \<and> BuildpackOrder C = []
        | Exit n \<Rightarrow> False)"
proof -
  obtain r w' where run: "run_state (Run H C) w = (r, w')" by fastforce
  from Run_cases [OF run] show ?thesis unfolding run prod.case .
qed

section \<open>Invariants of the machine\<close>

text \<open>The exit codes of a stopped machine.\<close>

definition failure_codes :: "int set" where
  "failure_codes = {1, 222, 223, 224, 225, 227}"

lemma phases_codes:
  "phases H C d p rs q \<Longrightarrow> q = Stopped code \<Longrightarrow> p \<noteq> Stopped code \<Longrightarrow> code \<in> failure_codes"
proof (induction arbitrary: code rule: phases.induct)
  case (phases_refl p)
  then show ?case by simp
next
  case (phases_step p rs q ss q')
  show ?case
  proof (cases "q = Stopped code")
    case True
    with phases_step.hyps(1) show ?thesis by (cases rule: phase_step.cases) (auto simp: failure_codes_def)
  next
    case False
    with phases_step show ?thesis by blast
  qed
qed

text \<open>Failed runs of the detect scripts of buildpacks are part of detection; any other failed
  run is the last.\<close>

definition is_detection :: "Config \<Rightarrow> command \<Rightarrow> bool" where
  "is_detection C c \<longleftrightarrow> (\<exists>bp p. located C bp p \<and> c = detect_command C p)"

definition detection_failures :: "Config \<Rightarrow> (command \<times> bool) list \<Rightarrow> bool" where
  "detection_failures C rs \<longleftrightarrow> (\<forall>(c, b) \<in> set rs. \<not> b \<longrightarrow> is_detection C c)"

definition failure_last :: "Config \<Rightarrow> (command \<times> bool) list \<Rightarrow> bool" where
  "failure_last C rs \<longleftrightarrow> detection_failures C (butlast rs)"

lemma detection_failures_append:
  "detection_failures C (rs @ ss) \<longleftrightarrow> detection_failures C rs \<and> detection_failures C ss"
  by (auto simp: detection_failures_def)

lemma detection_failures_all [simp]: "detection_failures C (all_succeeded cs)"
  and detection_failures_Nil [simp]: "detection_failures C []"
  by (auto simp: detection_failures_def)

lemma detection_failures_succeeded: "list_all snd rs \<Longrightarrow> detection_failures C rs"
  by (auto simp: detection_failures_def list_all_iff)

lemma failure_last_stops: "stops_at_failure rs \<Longrightarrow> failure_last C rs"
  by (simp add: failure_last_def stops_at_failure_def detection_failures_succeeded)

lemma failure_last_ran: "ran_up_to cs rs \<Longrightarrow> failure_last C rs"
  by (simp add: ran_up_to_def failure_last_stops)

lemma failure_last_clean: "detection_failures C rs \<Longrightarrow> failure_last C rs"
  by (auto simp: failure_last_def detection_failures_def dest: in_set_butlastD)

lemma detect_attempts_failures: "detect_attempts C bps rs \<Longrightarrow> detection_failures C rs"
  unfolding detect_attempts_def detection_failures_def is_detection_def
  by (fastforce simp: list_all2_conv_all_nth in_set_conv_nth)

lemma phase_step_failures:
  "phase_step H C d p rs q \<Longrightarrow> detection_failures C rs \<or> failure_last C rs \<and> (\<exists>code. q = Stopped code)"
  by (induction rule: phase_step.induct)
    (auto simp: supplied_def detection_failures_append detection_failures_def [of _ "[_]"]
      intro: failure_last_stops failure_last_ran detection_failures_succeeded
      dest: detect_attempts_failures)

lemma phases_failures: "phases H C d p rs q \<Longrightarrow> failure_last C rs"
proof (induction rule: phases.induct)
  case (phases_refl p)
  then show ?case by (simp add: failure_last_clean)
next
  case (phases_step p rs q ss q')
  from phase_step_failures [OF phases_step.hyps(1)] show ?case
  proof (elim disjE exE conjE)
    assume "detection_failures C rs"
    with phases_step.IH show ?thesis
      by (cases "ss = []") (auto simp: failure_last_def butlast_append detection_failures_append
          dest: failure_last_clean [unfolded failure_last_def])
  next
    fix code assume *: "failure_last C rs" "q = Stopped code"
    with phases_step.hyps(2) have "ss = []" by (auto elim: phases.cases)
    with * show ?thesis by simp
  qed
qed

text \<open>C28: However a staging run ends, short of a panic, no program is executed after one that
  failed, except that detection goes on after the detect script of a buildpack failed.\<close>

theorem Run_failure_last:
  "case run_state (Run H C) w of (r, w') \<Rightarrow>
     is_Panic r \<or> (\<exists>rs. runs w' = runs w @ rs \<and> failure_last C rs)"
proof -
  obtain r w' where run: "run_state (Run H C) w = (r, w')" by fastforce
  from Run_cases [OF run] show ?thesis
    unfolding run by (cases r) (auto dest: phases_failures)
qed

lemma phases_Staged:
  assumes "phases H C d Started rs Staged"
  shows "\<exists>sel path f s tar. phase_step H C d Started sel (Selected path) \<and>
    rs = sel @ all_succeeded (compile_programs H C d path f s @ release_command C path # pack_programs C d tar)"
proof -
  from assms obtain sel rs1 q1 where 1: "rs = sel @ rs1" "phase_step H C d Started sel q1" "phases H C d q1 rs1 Staged"
    by (auto elim: phases.cases)
  from 1(2,3) obtain path where q1: "q1 = Selected path"
    by (auto elim!: from_Started elim: phases.cases)
  from 1(3) q1 obtain rs2 rs3 q2 where 2: "rs1 = rs2 @ rs3" "phase_step H C d (Selected path) rs2 q2" "phases H C d q2 rs3 Staged"
    by (auto elim: phases.cases)
  from 2(2,3) obtain f s where q2: "q2 = Compiled path" "rs2 = all_succeeded (compile_programs H C d path f s)"
    by (auto elim!: from_Selected elim: phases.cases)
  from 2(3) q2 obtain rs4 rs5 q3 where 3: "rs3 = rs4 @ rs5" "phase_step H C d (Compiled path) rs4 q3" "phases H C d q3 rs5 Staged"
    by (auto elim: phases.cases)
  from 3(2,3) have q3: "q3 = Released" "rs4 = [(release_command C path, True)]"
    by (auto elim!: from_Compiled elim: phases.cases)
  from 3(3) q3 obtain rs6 rs7 q4 where 4: "rs5 = rs6 @ rs7" "phase_step H C d Released rs6 q4" "phases H C d q4 rs7 Staged"
    by (auto elim: phases.cases)
  from 4(2,3) obtain tar where "q4 = Staged" "rs6 = all_succeeded (pack_programs C d tar)"
    by (auto elim!: from_Released elim: phases.cases)
  moreover from this 4(3) have "rs7 = []" by (auto elim: phases.cases)
  ultimately have "rs = sel @ all_succeeded (compile_programs H C d path f s @ release_command C path # pack_programs C d tar)"
    using 1 2 3 4 q1 q2 q3 by simp
  with 1(2) q1 show ?thesis by blast
qed

text \<open>C3: A run that succeeds has selected a buildpack by detection or by running all supply
  scripts, and then has executed, all with success and in this order: the finalize or compile
  scripts of the final buildpack, its release script, the copy of the application, and \<^verbatim>\<open>tar\<close>
  for the droplet and for the cache.\<close>

theorem Run_success_programs:
  assumes "run_state (Run H C) w = (Ok (), w')"
  shows "\<exists>sel path f s tar. phase_step H C (dirs_of w') Started sel (Selected path) \<and>
    runs w' = runs w @ sel @ all_succeeded (compile_programs H C (dirs_of w') path f s @
      release_command C path # pack_programs C (dirs_of w') tar)"
  using Run_cases [OF assms] phases_Staged by fastforce

definition staging_Config :: Config where
  "staging_Config = sample_Config\<lparr>BuildpackOrder := [''a''], SkipDetect := True\<rparr>"

lemma Run_success_programs_witness:
  "\<exists>w' sel path f s tar. run_state (Run sample_host staging_Config) (NewRunner sample_world) = (Ok (), w') \<and>
    runs w' = runs (NewRunner sample_world) @ sel @ all_succeeded (compile_programs sample_host staging_Config (dirs_of w') path f s @
      release_command staging_Config path # pack_programs staging_Config (dirs_of w') tar)"
proof -
  have "fst (run_state (Run sample_host staging_Config) (NewRunner sample_world)) = Ok ()" by code_simp
  then obtain w' where run: "run_state (Run sample_host staging_Config) (NewRunner sample_world) = (Ok (), w')"
    by (rule run_fst)
  from Run_success_programs [OF run] run show ?thesis by blast
qed

section \<open>Cleaning up\<close>

text \<open>The temporary directory of a runner is none, or a proper absolute path.\<close>

definition contents_ok :: "runner \<Rightarrow> bool" where
  "contents_ok w \<longleftrightarrow> contentsDir w = '''' \<or> rooted (contentsDir w) \<and> path_comps (contentsDir w) \<noteq> []"

abbreviation keeps_contents :: "(runner, 'a) state \<Rightarrow> bool" where
  "keeps_contents m \<equiv> state_io_rel (\<lambda>w w'. contents_ok w \<longrightarrow> contents_ok w') m"

interpretation keeps_contents: effect_relation "\<lambda>w w'. contents_ok w \<longrightarrow> contents_ok w'"
  by unfold_locales auto

lemma no_runs_contents: "no_runs m \<Longrightarrow> keeps_contents m"
proof (rule state_io_relI, rule impI)
  fix w r and w' :: runner
  assume m: "no_runs m" and run: "run_state m w = (r, w')" and w: "contents_ok w"
  from no_runs_runner [OF m run] w show "contents_ok w'" by (simp add: contents_ok_def)
qed

lemma quiet_contents: "quiet m \<Longrightarrow> keeps_contents m"
  by (intro no_runs_contents quiet_no_runs)

lemma assign_contents: "(\<And>w. contentsDir (f w) = contentsDir w) \<Longrightarrow> keeps_contents (assign f)"
  by (rule state_io_relI) (auto simp: contents_ok_def)

lemma TempDir_contents:
  assumes "tmp_ok H" and "plain pre"
    and h: "\<And>e. keeps_contents (h e)"
    and k: "\<And>dir w r w'. rooted dir \<Longrightarrow> path_comps dir \<noteq> [] \<Longrightarrow> run_state (k dir) w = (r, w') \<Longrightarrow> contents_ok w'"
  shows "keeps_contents (on_err (TempDir H pre) h k)"
proof (rule state_io_relI, rule impI)
  fix w r w' assume run: "run_state (on_err (TempDir H pre) h k) w = (r, w')" and w: "contents_ok w"
  obtain r1 w1 where 1: "run_state (TempDir H pre) w = (r1, w1)" by fastforce
  have w1: "contents_ok w1"
    using state_io_relD [OF quiet_contents [OF quiet_TempDir] 1] w by simp
  have "returns (TempDir H pre :: (runner, string) go)" by simp
  then show "contents_ok w'" using 1
  proof (rule returnsE)
    fix e assume "r1 = Err e"
    with run 1 have "run_state (h e) w1 = (r, w')" by simp
    from state_io_relD [OF h this] w1 show ?thesis by simp
  next
    fix dir assume r1: "r1 = Ok dir"
    from TempDir_Ok [OF 1 [unfolded r1] assms(1,2)] obtain n where "rooted dir"
      "path_comps dir = path_comps (TempBase H) @ [n]" by blast
    with k run 1 r1 show ?thesis by auto
  qed
qed

lemma makeDirectories_contents:
  assumes "tmp_ok H"
  shows "keeps_contents (makeDirectories H C)"
proof -
  have tail: "contents_ok w'" if dir: "rooted dir" "path_comps dir \<noteq> []"
    and run: "run_state (do {
         assign (contentsDir_update (\<lambda>_. dir));
         assign (depsDir_update (\<lambda>_. Join [dir, ''deps'']));
         attempt (make_deps_dirs H C) id (\<lambda>_. do {
         assign (profileDir_update (\<lambda>_. Join [dir, ''profile.d'']));
         attempt (MkdirAll H (Join [dir, ''profile.d'']) perm_0755) f ok }) }) w = (r, w')" for dir w r w' f
  proof -
    let ?m = "attempt (make_deps_dirs H C) id (\<lambda>_. do {
         assign (profileDir_update (\<lambda>_. Join [dir, ''profile.d'']));
         attempt (MkdirAll H (Join [dir, ''profile.d'']) perm_0755) f ok })"
    have m: "keeps_contents ?m"
      by (intro keeps_contents.within_intros assign_contents quiet_contents quiet_make quiet_MkdirAll) simp
    from run have "run_state ?m (w\<lparr>contentsDir := dir, depsDir := Join [dir, ''deps'']\<rparr>) = (r, w')"
      by (simp only: assign_bind)
    from state_io_relD [OF m this] dir show ?thesis by (simp add: contents_ok_def)
  qed
  have fails: "keeps_contents (do { assign (contentsDir_update (\<lambda>_. '''')); fail (f e) } :: (runner, unit) go)" for f e
    by (rule state_io_relI) (simp add: contents_ok_def)
  show ?thesis
    unfolding makeDirectories_def
    by (intro keeps_contents.within_attempt TempDir_contents assms fails tail quiet_contents
        quiet_make quiet_MkdirAll quiet.within_ok) (auto simp: plain_def)
qed

text \<open>The rest of a run leaves the runner's directories alone.\<close>

lemma Run_contents:
  assumes H: "tmp_ok H" and run: "run_state (Run H C) (NewRunner w) = (r, s)"
  shows "contents_ok s"
proof -
  obtain r1 w1 where 1: "run_state (makeDirectories H C) (NewRunner w) = (r1, w1)" by fastforce
  have "contents_ok (NewRunner w)" by (simp add: contents_ok_def NewRunner_def world.defs)
  with state_io_relD [OF makeDirectories_contents [OF H] 1] have w1: "contents_ok w1" by simp
  from returns_set_up(1) 1 show ?thesis
  proof (rule returnsE)
    fix e assume "r1 = Err e"
    with run 1 w1 show ?thesis by (auto simp: Run_def)
  next
    fix u assume r1: "r1 = Ok u"
    let ?rest = "attempt (effect (log_Println ''Cleaning cache dir'')) id (\<lambda>_.
     attempt (cleanCacheDir H C) (\<lambda>e. Wrap e ''unable to clean cache dir'') (\<lambda>_.
     attempt (effect (log_Println ''Detecting buildpack'')) id (\<lambda>_. after_set_up H C)))"
    have after: "keeps_contents (after_set_up H C)"
    proof (rule state_io_relI, rule impI)
      fix v x v' assume "run_state (after_set_up H C) v = (x, v')" "contents_ok v"
      with after_set_up_cases [of H C v x v'] runner_fields [of v' v] show "contents_ok v'"
        by (simp add: contents_ok_def)
    qed
    have rest: "keeps_contents ?rest"
      by (intro keeps_contents.within_attempt after no_runs_contents no_runs.within_effect no_runs_log
          quiet_no_runs quiet_cleanCacheDir)
    have "run_state ?rest w1 = (r, s)"
      using run unfolding Run_def run_attempt [of "makeDirectories H C"] 1 prod.case r1 result.case
        after_set_up_def .
    from state_io_relD [OF rest this] w1 show ?thesis by simp
  qed
qed

lemma RemoveAll_gone:
  assumes "\<forall>n p. h_fault H n ''unlinkat'' p = None" and "resolve H d \<noteq> []" and "d \<noteq> ''''"
    and "run_state (RemoveAll H d) w = (r, w')"
  shows "lookup (fs w') (resolve H d) = None \<and> same_outside [resolve H d] (fs w) (fs w')"
proof (cases "walk (fs w) (resolve H d)")
  case (Inl e)
  with assms(1,3,4) have "fs w' = fs w"
    by (auto simp: RemoveAll_def syscall_def remove_tree_def Let_def split: if_splits)
  with walk_InlD [OF Inl] show ?thesis by simp
next
  case (Inr n)
  with assms have "r = Ok ()" by (auto simp: RemoveAll_def syscall_def remove_tree_def Let_def)
  with assms(3,4) show ?thesis by (auto elim: RemoveAll_OkE)
qed

text \<open>C20: The executor's \<^verbatim>\<open>execute\<close> leaves no temporary directory behind: whatever the run
  ended with, a panic included, the directory that it created is gone afterwards if the
  system does not refuse the removal, and nothing outside of it has changed since the run.\<close>

theorem execute_cleans:
  assumes "\<forall>n p. h_fault H n ''unlinkat'' p = None" and H: "tmp_ok H"
  shows "case run_state (Run H C) (NewRunner w) of (r, s) \<Rightarrow>
    case run_state (execute H C) w of (r', w') \<Rightarrow>
      r' = r \<and> (contentsDir s = '''' \<or> lookup (fs w') (resolve H (contentsDir s)) = None) \<and>
      same_outside [resolve H (contentsDir s)] (fs s) (fs w')"
proof -
  obtain r s where run: "run_state (Run H C) (NewRunner w) = (r, s)" by fastforce
  obtain r2 v where cl: "run_state (RemoveAll H (contentsDir s)) s = (r2, v)" by fastforce
  have "r \<noteq> Exit n" for n using Run_cases [OF run] by (cases r) auto
  then have ex: "run_state (execute H C) w = (r, world.truncate (if contentsDir s = '''' then s else v))"
    using run cl by (cases r) (auto simp: execute_def CleanUp_def)
  have tr: "fs (world.truncate x) = fs x" for x :: runner by (simp add: world.defs)
  show ?thesis
  proof (cases "contentsDir s = ''''")
    case True
    then show ?thesis unfolding run ex by (simp add: tr)
  next
    case False
    with Run_contents [OF H run] have "resolve H (contentsDir s) \<noteq> []"
      by (simp add: contents_ok_def resolve_def)
    from RemoveAll_gone [OF assms(1) this False cl] False show ?thesis unfolding run ex by (simp add: tr)
  qed
qed

lemma execute_cleans_witness:
  "case run_state (Run sample_host staging_Config) (NewRunner sample_world) of (r, s) \<Rightarrow>
    case run_state (execute sample_host staging_Config) sample_world of (r', w') \<Rightarrow>
      r' = r \<and> (contentsDir s = '''' \<or> lookup (fs w') (resolve sample_host (contentsDir s)) = None) \<and>
      same_outside [resolve sample_host (contentsDir s)] (fs s) (fs w')"
  by (rule execute_cleans)
    (simp_all add: sample_host_def tmp_ok_def TempBase_def rooted_def)

end
