(* ===== verification/Reports.thy ===== *)
theory Reports
  imports Responder Traces
begin

text \<open>
  What the responder and the uploader send: one request each, with the content that the
  cloud controller relies on.
\<close>

section \<open>Completion callbacks\<close>

lemma CreateTLS_facts:
  "no_runs (CreateTLSHTTPClient H ps)" "offline (CreateTLSHTTPClient H ps)" "returns (CreateTLSHTTPClient H ps)"
  by (auto intro!: state_io_relI returnsI simp: CreateTLSHTTPClient_def split: option.splits)

lemma sendCompleteResponse_cases:
  assumes "run_state (sendCompleteResponse H r response) w = (res, w')"
  shows "fs w' = fs w \<and> returned res \<and>
    (case h_urlParse H (completed_uri r (TaskGuid response)) of
       Inl s \<Rightarrow> sent w' = sent w \<and> \<not> is_Ok res
     | Inr u \<Rightarrow> sent w' = sent w @ [(resp_client r, complete_request r response)] \<and>
         (is_Ok res \<longleftrightarrow> (\<exists>status body. h_http H (clock w) (resp_client r) (complete_request r response) = Inr (status, body) \<and>
            status < StatusBadRequest)))"
  using assms
  by (auto simp: sendCompleteResponse_def NewRequest_def Do_def complete_request_def sent_def Let_def
      split: sum.splits if_splits)

definition failure_request :: "Responder \<Rightarrow> go_error \<Rightarrow> http_request" where
  "failure_request r e = complete_request r
     (createFailureResponse e (stagingGUID r) (completionCallback r))"

definition reportable :: "host \<Rightarrow> Responder \<Rightarrow> bool" where
  "reportable H r \<longleftrightarrow> (\<exists>u. h_urlParse H (completed_uri r (stagingGUID r)) = Inr u)"

lemma RespondWithFailure_cases:
  assumes "run_state (RespondWithFailure H r e) w = (res, w')"
  shows "res = Ok () \<and> fs w' = fs w \<and> runs w' = runs w \<and> world.more w' = world.more w \<and>
     sent w' = sent w @ (if reportable H r then [(resp_client r, failure_request r e)] else [])"
proof -
  let ?resp = "createFailureResponse e (stagingGUID r) (completionCallback r)"
  let ?w1 = "w\<lparr>trace := trace w @ [Logged (Error e)]\<rparr>"
  obtain res1 w2 where 2: "run_state (sendCompleteResponse H r ?resp) ?w1 = (res1, w2)" by fastforce
  note c = sendCompleteResponse_cases [OF 2]
  have s1: "sent ?w1 = sent w" "fs ?w1 = fs w" by (simp_all add: sent_def)
  have run: "run_state (RespondWithFailure H r e) w =
      (case res1 of Ok u \<Rightarrow> (Ok (), w2)
       | Err e' \<Rightarrow> (Ok (), w2\<lparr>trace := trace w2 @ [Printed (''Error while processing failure completion callback: '' @ Error e')]\<rparr>)
       | Panic s \<Rightarrow> (Panic s, w2) | Exit n \<Rightarrow> (Exit n, w2))"
    by (simp add: RespondWithFailure_def log_Println_def fmt_Println_def emit_def 2 split: result.split)
  have "no_runs (RespondWithFailure H r e)"
    unfolding RespondWithFailure_def sendCompleteResponse_def
    by (intro no_runs.within_intros no_runs_log no_runs_Do quiet_no_runs [OF quiet_NewRequest])
  from no_runs_eq [OF this assms] no_runs_more [OF this assms] have n: "runs w' = runs w" "world.more w' = world.more w" .
  have sent_print: "sent (w2\<lparr>trace := trace w2 @ [Printed t]\<rparr>) = sent w2" for t by (simp add: sent_def)
  show ?thesis
    using c s1 sent_print assms n unfolding run reportable_def failure_request_def
    by (cases res1) (auto simp: createFailureResponse_def completed_uri_def split: sum.splits)
qed

text \<open>C25: Reporting a failure always returns without error, whatever the network does, and sends
  exactly one request, a \<^verbatim>\<open>PUT\<close> to \<^verbatim>\<open>/stage/GUID/completed\<close> whose body is the failure response
  with the text of the error as reason; only an address that is no URL keeps it from being
  sent. No file changes.\<close>

theorem RespondWithFailure_reports:
  "case run_state (RespondWithFailure H r e) w of (res, w') \<Rightarrow>
     res = Ok () \<and> fs w' = fs w \<and>
     sent w' = sent w @
       (case h_urlParse H (eiriniAddr r @ ''/stage/'' @ stagingGUID r @ ''/completed'') of
          Inl s \<Rightarrow> []
        | Inr u \<Rightarrow> [(resp_client r, complete_request r
            \<lparr>TaskGuid = stagingGUID r, Failed = True, FailureReason = Error e, tc_Result = '''',
             Annotation = annotation_json (completionCallback r)\<rparr>)])"
proof -
  obtain res w' where run: "run_state (RespondWithFailure H r e) w = (res, w')" by fastforce
  from RespondWithFailure_cases [OF run] show ?thesis
    unfolding run prod.case
    by (simp add: reportable_def failure_request_def createFailureResponse_def completed_uri_def split: sum.split)
qed

text \<open>The body that reports a completion is read back by any JSON decoder as the message that
  was to be sent, for texts that are valid UTF-8.\<close>

theorem complete_request_body:
  assumes "valid_utf8 (TaskGuid resp)" "valid_utf8 (FailureReason resp)" "valid_utf8 (tc_Result resp)"
    "valid_utf8 (Annotation resp)"
  shows "parse_json (req_body (complete_request r resp)) = Some (encode_TaskCallbackResponse resp) \<and>
    req_contentLength (complete_request r resp) = Some (length (req_body (complete_request r resp)))"
  using wf_encode_TaskCallbackResponse [OF assms]
  by (simp add: complete_request_def Let_def Marshal_def parse_print_json)

lemma complete_request_body_witness:
  "parse_json (req_body (complete_request \<lparr>stagingGUID = ''g'', completionCallback = ''c'', eiriniAddr = ''a'', resp_client = DefaultClient\<rparr>
      (createFailureResponse (Errorf ''boom'') ''g'' ''c''))) =
    Some (encode_TaskCallbackResponse (createFailureResponse (Errorf ''boom'') ''g'' ''c''))"
proof -
  let ?r = "createFailureResponse (Errorf ''boom'') ''g'' ''c''"
  have "valid_utf8 (TaskGuid ?r)" "valid_utf8 (FailureReason ?r)" "valid_utf8 (tc_Result ?r)" "valid_utf8 (Annotation ?r)"
    by code_simp+
  from complete_request_body [OF this] show ?thesis by blast
qed

section \<open>Uploads\<close>

definition upload_request :: "string \<Rightarrow> string \<Rightarrow> http_request" where
  "upload_request u s = \<lparr>req_method = ''POST'', req_url = u,
     req_contentType = Some ''application/octet-stream'', req_contentLength = Some (length s),
     req_body = s\<rparr>"

lemma Open_OkE:
  assumes "run_state (Open H p) w = (Ok n, w')"
  shows "lookup (fs w) (resolve H p) = Some n" and "fs w' = fs w" and "sent w' = sent w"
proof -
  from assms show "lookup (fs w) (resolve H p) = Some n" "fs w' = fs w"
    by (auto simp: Open_def look_Inr elim!: syscall_OkE)
  show "sent w' = sent w" by (rule offline_eq [OF quiet_offline assms]) (rule effect_intros)
qed

lemma quiet_NewRequest_fs: "run_state (NewRequest H m u b) w = (r, w') \<Longrightarrow> w' = w"
  by (auto simp: NewRequest_def split: sum.splits)

lemma uploadFile_cases:
  assumes run: "run_state (uploadFile H u loc url) w = (res, w')"
  shows "returned res \<and> fs w' = fs w \<and>
    (sent w' = sent w \<and> \<not> is_Ok res \<or>
     (\<exists>m s. lookup (fs w) (resolve H loc) = Some (File m s) \<and>
        sent w' = sent w @ [(up_Client u, upload_request url s)] \<and>
        (is_Ok res \<longrightarrow> (\<exists>k status body. h_http H k (up_Client u) (upload_request url s) = Inr (status, body) \<and>
           status < StatusBadRequest))))"
proof -
  let ?p = "Clean loc"
  obtain r1 w1 where 1: "run_state (Open H ?p) w = (r1, w1)" by fastforce
  have f1: "fs w1 = fs w" using 1 by (auto simp: Open_def dest: fs_unchanged_look)
  have s1: "sent w1 = sent w" by (rule offline_eq [OF quiet_offline 1]) (rule effect_intros)
  have "returns (Open H ?p :: ('a world_scheme, node) go)" by simp
  then show ?thesis using 1
  proof (rule returnsE)
    fix e assume "r1 = Err e"
    with run 1 f1 s1 show ?thesis by (auto simp: uploadFile_def)
  next
    fix n assume r1: "r1 = Ok n"
    have n: "lookup (fs w) (resolve H loc) = Some n"
      using Open_OkE(1) [OF 1 [unfolded r1]] by (simp add: path_simps)
    show ?thesis
    proof (cases "h_urlParse H url")
      case (Inl s)
      with run 1 r1 f1 s1 show ?thesis by (auto simp: uploadFile_def NewRequest_def)
    next
      case (Inr v)
      obtain r2 w2 where 2: "run_state (Stat H ?p) w1 = (r2, w2)" by fastforce
      note f2 = fs_unchanged(1) [OF 2]
      have s2: "sent w2 = sent w1" by (rule offline_eq [OF quiet_offline 2]) (rule effect_intros)
      have "returns (Stat H ?p :: ('a world_scheme, file_info) go)" by simp
      then show ?thesis using 2
      proof (rule returnsE)
        fix e assume "r2 = Err e"
        with run 1 2 r1 Inr f1 s1 f2 s2 show ?thesis by (auto simp: uploadFile_def NewRequest_def fileSize_def)
      next
        fix i assume r2: "r2 = Ok i"
        from 2 [unfolded r2] obtain n' where "lookup (fs w1) (resolve H ?p) = Some n'" "i = info_of n'"
          by (rule Stat_OkE)
        with n f1 have i: "i = info_of n" by (simp add: path_simps)
        show ?thesis
        proof (cases n)
          case (Folder m es)
          with run 1 2 r1 r2 Inr f1 f2 s1 s2 show ?thesis
            by (auto simp: uploadFile_def NewRequest_def fileSize_def send_file_def)
        next
          case (File m s)
          let ?q = "upload_request url s"
          from run 1 2 r1 r2 Inr i File have 3: "run_state (upload_do H u ?q) w2 = (res, w')"
            by (simp add: uploadFile_def NewRequest_def fileSize_def send_file_def upload_request_def)
          then have "returned res \<and> fs w' = fs w2 \<and> sent w' = sent w2 @ [(up_Client u, ?q)] \<and>
            (is_Ok res \<longrightarrow> (\<exists>status body. h_http H (clock w2) (up_Client u) ?q = Inr (status, body) \<and>
               status < StatusBadRequest))"
            by (auto simp: upload_do_def Do_def sent_def split: sum.splits if_splits)
          with n File f1 f2 s1 s2 show ?thesis by auto
        qed
      qed
    qed
  qed
qed

definition upload_outcome :: "host \<Rightarrow> DropletUploader \<Rightarrow> string \<Rightarrow> string \<Rightarrow> 'x world_scheme \<Rightarrow> unit result \<Rightarrow> 'x world_scheme \<Rightarrow> bool" where
  "upload_outcome H u url loc w res w' \<longleftrightarrow>
     returned res \<and> fs w' = fs w \<and>
     (if is_Ok res then \<exists>m s k status body. lookup (fs w) (resolve H loc) = Some (File m s) \<and>
         sent w' = sent w @ [(up_Client u, upload_request url s)] \<and>
         h_http H k (up_Client u) (upload_request url s) = Inr (status, body) \<and> status < StatusBadRequest
      else sent w' = sent w \<or> (\<exists>m s. lookup (fs w) (resolve H loc) = Some (File m s) \<and>
         sent w' = sent w @ [(up_Client u, upload_request url s)]))"

lemma Upload_cases:
  assumes run: "run_state (Upload H u url loc) w = (res, w')"
  shows "upload_outcome H u url loc w res w'"
proof (cases "loc = '''' \<or> url = ''''")
  case True
  with run show ?thesis by (cases "loc = ''''") (auto simp: Upload_def upload_outcome_def)
next
  case False
  with run have "run_state (uploadFile H u loc url) w = (res, w')" by (simp add: Upload_def)
  from uploadFile_cases [OF this] show ?thesis by (auto simp: upload_outcome_def; blast)
qed

text \<open>C26: An upload sends at most one request, a \<^verbatim>\<open>POST\<close> of the bytes of the file as they are on
  disk, with their number as content length; a folder is never sent. It succeeds only if that request was sent and
  answered with a status below 400; it never panics, and changes no file.\<close>

theorem Upload_sends:
  "case run_state (Upload H u url loc) w of (res, w') \<Rightarrow>
     returned res \<and> fs w' = fs w \<and>
     (if is_Ok res then \<exists>m s k status body. lookup (fs w) (resolve H loc) = Some (File m s) \<and>
         sent w' = sent w @ [(up_Client u, upload_request url s)] \<and>
         h_http H k (up_Client u) (upload_request url s) = Inr (status, body) \<and> status < StatusBadRequest
      else sent w' = sent w \<or> (\<exists>m s. lookup (fs w) (resolve H loc) = Some (File m s) \<and>
         sent w' = sent w @ [(up_Client u, upload_request url s)]))"
proof -
  obtain res w' where run: "run_state (Upload H u url loc) w = (res, w')" by fastforce
  from Upload_cases [OF run] show ?thesis unfolding run prod.case upload_outcome_def .
qed

end
