(* ===== verification/Streams.thy ===== *)
theory Streams
  imports Readers Files
begin

text \<open>
  What is read from a reader to its end, and what the copy loop makes of it: the reference
  against which the chunk-wise reading, hashing and writing are proved correct.
\<close>

section \<open>Reading to the end\<close>

text \<open>All that a body delivers, and the error it ends with.\<close>

fun drain :: "script \<Rightarrow> string \<times> go_error" where
  "drain [] = ('''', EOF)"
| "drain ((chunk, None) # rest) = (chunk @ fst (drain rest), snd (drain rest))"
| "drain ((chunk, Some e) # rest) = (chunk, e)"

text \<open>The error a verifying reader ends with, when everything has been hashed.\<close>

definition verified_end :: "'h hash_ops \<Rightarrow> 'h \<Rightarrow> string \<Rightarrow> go_error \<Rightarrow> go_error" where
  "verified_end K hash checkSum e =
     (if \<not> is_EOF e then ErrorfW ''reader-error'' e
      else if checkSum = hex_string (hash_Sum K hash) then EOF
      else Errorf ''checksum verification failure'')"

lemma verify_result_Some [simp]: "verify_result K h c (Some e) = Some (verified_end K h c e)"
  and verify_result_None [simp]: "verify_result K h c None = None"
  by (simp_all add: verify_result_def verified_end_def verifyChecksum_def)

fun reader_outcome :: "'h hash_ops \<Rightarrow> 'h reader \<Rightarrow> string \<times> go_error" where
  "reader_outcome K (BodyReader s) = drain s"
| "reader_outcome K (VerifyingReader r hash checkSum) =
     (fst (reader_outcome K r),
      verified_end K (hash_Write K hash (fst (reader_outcome K r))) checkSum (snd (reader_outcome K r)))"

lemma write_chunk_cases:
  assumes "lookup (fs w) (resolve H path) = Some (File m s)"
    and run: "run_state (write_chunk H path chunk) w = (res, w1)"
  shows "res = Ok () \<and> lookup (fs w1) (resolve H path) = Some (File m (s @ chunk)) \<or>
    (\<exists>e. res = Err e \<and> \<not> is_EOF e) \<and> lookup (fs w1) (resolve H path) = Some (File m s) \<and>
      \<not> ((\<forall>n. h_fault H n ''write'' path = None) \<and> path \<noteq> '''')"
proof (cases "chunk = ''''")
  case True
  with assms show ?thesis by (auto simp: write_chunk_def)
next
  case False
  with run have 1: "run_state (Write H path chunk) w = (res, w1)" by (simp add: write_chunk_def)
  have e: "enter (\<lambda>_. False) (append_entry chunk) (resolve H path) (fs w) =
      (Inr (), put (resolve H path) (File m (s @ chunk)) (fs w))"
    using assms(1) by (simp add: enter_def walk_Inr [THEN iffD2])
  have "returns (Write H path chunk :: ('a world_scheme, unit) go)" by simp
  then show ?thesis using 1
  proof (rule returnsE)
    fix u assume r: "res = Ok u"
    from 1 [unfolded r] obtain m' s' where "lookup (fs w) (resolve H path) = Some (File m' s')"
      "lookup (fs w1) (resolve H path) = Some (File m' (s' @ chunk))" by (rule Write_OkE)
    with assms(1) r show ?thesis by simp
  next
    fix x assume r: "res = Err x"
    with 1 e have "fs w1 = fs w \<and> \<not> is_EOF x \<and> (h_fault H (clock w) ''write'' path \<noteq> None \<or> path = '''')"
      by (auto simp: Write_def syscall_def Let_def split: option.splits if_splits)
    with assms(1) r show ?thesis by auto
  qed
qed

section \<open>The contract of a hash\<close>

text \<open>What a verifying reader needs of a hash: the digest depends on what was written and not on
  how it was cut into pieces.\<close>

locale streaming_hash =
  fixes K :: "'h hash_ops"
  assumes Write_append: "hash_Write K (hash_Write K h a) b = hash_Write K h (a @ b)"
    and Write_Nil: "hash_Write K h [] = h"
begin

lemma tee_Write: "tee K h c = hash_Write K h c"
  by (simp add: tee_def Write_Nil)

lemma Read_outcome:
  "Read K r = ((chunk, err), r') \<Longrightarrow>
   (case err of
      None \<Rightarrow> reader_outcome K r = (chunk @ fst (reader_outcome K r'), snd (reader_outcome K r'))
    | Some e \<Rightarrow> reader_outcome K r = (chunk, e))"
proof (induction r arbitrary: chunk err r')
  case (BodyReader s)
  then show ?case by (cases s rule: drain.cases) auto
next
  case (VerifyingReader r h c)
  obtain c1 e1 r1 where 1: "Read K r = ((c1, e1), r1)" by (metis prod.exhaust)
  with VerifyingReader.prems have p: "chunk = c1" "err = verify_result K (tee K h c1) c e1"
    "r' = VerifyingReader r1 (tee K h c1) c"
    by (auto simp: Let_def)
  from VerifyingReader.IH [OF 1] show ?case
    by (cases e1) (simp_all add: p tee_Write Write_append)
qed

text \<open>The copy loop appends what the reader delivers, and reports the end of the input as
  success; it stops early only when a write fails.\<close>

lemma io_Copy_outcome:
  "lookup (fs w) (resolve H path) = Some (File m s0) \<Longrightarrow>
   \<exists>data err w'. run_state (io_Copy H K path r written) w = (Ok (written + length data, err), w') \<and>
     prefix data (fst (reader_outcome K r)) \<and>
     lookup (fs w') (resolve H path) = Some (File m (s0 @ data)) \<and>
     (err = None \<longrightarrow> data = fst (reader_outcome K r) \<and> snd (reader_outcome K r) = EOF) \<and>
     (\<forall>e. err = Some e \<and> is_EOF e \<longrightarrow> data = fst (reader_outcome K r) \<and> snd (reader_outcome K r) = e) \<and>
     ((\<forall>n. h_fault H n ''write'' path = None) \<and> path \<noteq> '''' \<longrightarrow> data = fst (reader_outcome K r) \<and>
        err = (if snd (reader_outcome K r) = EOF then None else Some (snd (reader_outcome K r))))"
proof (induction "pending r" arbitrary: r written w s0 rule: less_induct)
  case less
  obtain chunk err r' where rd: "Read K r = ((chunk, err), r')" by (metis prod.exhaust)
  note ro = Read_outcome [OF rd]
  obtain res w1 where wr: "run_state (write_chunk H path chunk) w = (res, w1)" by fastforce
  note step = io_Copy.simps [of H K path r written, unfolded rd prod.case]
  from write_chunk_cases [OF less.prems wr] show ?case
  proof (elim disjE conjE exE)
    fix e assume res: "res = Err e" "\<not> is_EOF e" and same: "lookup (fs w1) (resolve H path) = Some (File m s0)"
      and bad: "\<not> ((\<forall>n. h_fault H n ''write'' path = None) \<and> path \<noteq> '''')"
    have "run_state (io_Copy H K path r written) w = (Ok (written + length '''', Some e), w1)"
      by (simp add: step wr res)
    with same bad res(2) show ?thesis by (intro exI [of _ "''''"] exI [of _ "Some e"] exI [of _ w1]) auto
  next
    assume res: "res = Ok ()" and now: "lookup (fs w1) (resolve H path) = Some (File m (s0 @ chunk))"
    show ?thesis
    proof (cases err)
      case (Some e)
      with ro have o: "reader_outcome K r = (chunk, e)" by simp
      have "run_state (io_Copy H K path r written) w =
          (Ok (written + length chunk, if e = EOF then None else Some e), w1)"
        by (simp add: step wr res Some)
      with now o show ?thesis
        by (intro exI [of _ chunk] exI [of _ "if e = EOF then None else Some e"] exI [of _ w1]) auto
    next
      case None
      with ro have o: "reader_outcome K r = (chunk @ fst (reader_outcome K r'), snd (reader_outcome K r'))" by simp
      have "pending r' < pending r" using Read_pending rd None by blast
      from less.hyps [OF this now, of "written + length chunk"] obtain data err' w' where
        *: "run_state (io_Copy H K path r' (written + length chunk)) w1 =
            (Ok (written + length chunk + length data, err'), w')"
        "prefix data (fst (reader_outcome K r'))"
        "lookup (fs w') (resolve H path) = Some (File m ((s0 @ chunk) @ data))"
        "err' = None \<longrightarrow> data = fst (reader_outcome K r') \<and> snd (reader_outcome K r') = EOF"
        "\<forall>e. err' = Some e \<and> is_EOF e \<longrightarrow> data = fst (reader_outcome K r') \<and> snd (reader_outcome K r') = e"
        "(\<forall>n. h_fault H n ''write'' path = None) \<and> path \<noteq> '''' \<longrightarrow> data = fst (reader_outcome K r') \<and>
          err' = (if snd (reader_outcome K r') = EOF then None else Some (snd (reader_outcome K r')))"
        by (elim exE conjE) (rule that)
      have "run_state (io_Copy H K path r written) w = (Ok (written + length (chunk @ data), err'), w')"
        using *(1) by (simp add: step wr res None add.assoc)
      moreover have "prefix (chunk @ data) (fst (reader_outcome K r))" using *(2) by (simp add: o)
      moreover have "lookup (fs w') (resolve H path) = Some (File m (s0 @ chunk @ data))" using *(3) by simp
      moreover have "err' = None \<longrightarrow> chunk @ data = fst (reader_outcome K r) \<and> snd (reader_outcome K r) = EOF"
        unfolding o fst_conv snd_conv same_append_eq by (rule *(4))
      moreover have "\<forall>e. err' = Some e \<and> is_EOF e \<longrightarrow>
          chunk @ data = fst (reader_outcome K r) \<and> snd (reader_outcome K r) = e"
        unfolding o fst_conv snd_conv same_append_eq by (rule *(5))
      moreover have "(\<forall>n. h_fault H n ''write'' path = None) \<and> path \<noteq> '''' \<longrightarrow>
          chunk @ data = fst (reader_outcome K r) \<and>
          err' = (if snd (reader_outcome K r) = EOF then None else Some (snd (reader_outcome K r)))"
        unfolding o fst_conv snd_conv same_append_eq by (rule *(6))
      ultimately show ?thesis by blast
    qed
  qed
qed

end

section \<open>Effects of the copy loop\<close>

lemma write_chunk_effects:
  "quiet (write_chunk H path chunk)" "touching (resolve H path) (write_chunk H path chunk)"
  "returns (write_chunk H path chunk)"
  unfolding write_chunk_def
  by (auto intro: quiet.within_ok touching.within_ok touching_files effect_intros)

lemma io_Copy_effects:
  "quiet (io_Copy H K path r n) \<and> touching (resolve H path) (io_Copy H K path r n) \<and>
   returns (io_Copy H K path r n)"
proof (induction "pending r" arbitrary: r n rule: less_induct)
  case less
  obtain chunk err r' where rd: "Read K r = ((chunk, err), r')" by (metis prod.exhaust)
  show ?case
  proof (cases err)
    case None
    with Read_pending rd have "pending r' < pending r" by blast
    from less.hyps [OF this] show ?thesis
      unfolding io_Copy.simps [of H K path r n] rd prod.case None option.case
      by (intro conjI quiet.within_on_err touching.within_on_err returns_on_err write_chunk_effects
          quiet.within_ok touching.within_ok returns_basic) simp_all
  next
    case (Some e)
    show ?thesis
      unfolding io_Copy.simps [of H K path r n] rd prod.case Some option.case
      by (intro conjI quiet.within_on_err touching.within_on_err returns_on_err write_chunk_effects
          quiet.within_ok touching.within_ok returns_basic)
  qed
qed

lemmas quiet_io_Copy [effect_intros] = io_Copy_effects [THEN conjunct1]
  and touching_io_Copy = io_Copy_effects [THEN conjunct2, THEN conjunct1]
  and returns_io_Copy [simp, intro] = io_Copy_effects [THEN conjunct2, THEN conjunct2]

section \<open>SHA-256\<close>

lemma sha256_Write_append: "sha256_Write (sha256_Write h a) b = sha256_Write h (a @ b)"
  by (simp add: sha256_Write_def string_to_bytes_def)

interpretation sha256: streaming_hash sha256_ops
  by unfold_locales (simp_all add: sha256_ops_def sha256_Write_append, simp add: sha256_Write_def string_to_bytes_def)

end
