(* ===== verification/Downloads.thy ===== *)
theory Downloads
  imports Programs Streams
begin

text \<open>
  The package installer of the downloader: what is in the downloaded file after a successful
  installation, and that an installation with a checksum only succeeds on a match.
\<close>

section \<open>The request\<close>

definition get_request :: "string \<Rightarrow> http_request" where
  "get_request u = \<lparr>req_method = ''GET'', req_url = u, req_contentType = None,
     req_contentLength = None, req_body = ''''\<rparr>"

lemma Get_OkE:
  assumes "run_state (Get H c u) w = (Ok (status, body), w')"
  obtains "h_http H (clock w) c (get_request u) = Inr (status, body)"
    and "sent w' = sent w @ [(c, get_request u)]" and "fs w' = fs w"
  using assms
  by (auto simp: Get_def NewRequest_def Do_def get_request_def sent_def split: sum.splits)

section \<open>Installation\<close>

definition package_path :: "host \<Rightarrow> PackageInstaller \<Rightarrow> string list" where
  "package_path H d = resolve H (Join [pi_downloadDir d, AppBits])"

abbreviation package_reader :: "PackageInstaller \<Rightarrow> script \<Rightarrow> bytes reader" where
  "package_reader d body \<equiv> responseReader (pi_readerFrom d) body"

lemma download_touching: "touching (resolve H path) (download H d u path)"
proof -
  have get: "touching q (Get H c u')" for q c u'
    by (rule state_io_relI) (auto simp: Get_def NewRequest_def Do_def split: sum.splits)
  show ?thesis
    unfolding download_def
    by (intro touching.within_intros touching_files touching_io_Copy get)
qed

lemma download_Ok:
  assumes "run_state (download H d u path) w = (Ok (), w')"
  shows "\<exists>n body m. h_http H n (pi_client d) (get_request u) = Inr (StatusOK, body) \<and>
    sent w' = sent w @ [(pi_client d, get_request u)] \<and>
    snd (reader_outcome sha256_ops (package_reader d body)) = EOF \<and>
    lookup (fs w') (resolve H path) = Some (File m (fst (reader_outcome sha256_ops (package_reader d body))))"
proof -
  from assms obtain u1 w1 status body w2 where 1: "run_state (OpenCreate H path perm_0666) w = (Ok u1, w1)"
    and 2: "run_state (Get H (pi_client d) u) w1 = (Ok (status, body), w2)"
    and 3: "run_state (if status \<noteq> StatusOK
       then fail (Errorf (''download failed. status code '' @ show_nat status))
       else attempt (io_Copy H sha256_ops path (package_reader d body) 0) id (\<lambda>(written, err).
         case err of None \<Rightarrow> ok () | Some e \<Rightarrow> fail (Wrap e ''failed to copy content to file''))) w2 = (Ok (), w')"
    unfolding download_def Create_def attempt_Ok by (auto split: prod.splits)
  from 3 have st: "status = StatusOK" by (auto split: if_splits)
  from 1 obtain m where "lookup (fs w1) (resolve H path) = Some (File m '''')" by (rule OpenCreate_OkE)
  moreover from 2 have g: "h_http H (clock w1) (pi_client d) (get_request u) = Inr (status, body)"
    "sent w2 = sent w1 @ [(pi_client d, get_request u)]" "fs w2 = fs w1" by (auto elim: Get_OkE)
  ultimately have "lookup (fs w2) (resolve H path) = Some (File m '''')" by simp
  from sha256.io_Copy_outcome [OF this, of "package_reader d body" 0]
  obtain data err w3 where 4: "run_state (io_Copy H sha256_ops path (package_reader d body) 0) w2 = (Ok (length data, err), w3)"
    and c: "lookup (fs w3) (resolve H path) = Some (File m data)"
    "err = None \<longrightarrow> data = fst (reader_outcome sha256_ops (package_reader d body)) \<and>
      snd (reader_outcome sha256_ops (package_reader d body)) = EOF"
    by auto
  from 3 4 st have "err = None" "w' = w3" by (auto split: option.splits)
  moreover have "sent w3 = sent w2" by (rule offline_eq [OF quiet_offline [OF quiet_io_Copy] 4])
  moreover have "sent w1 = sent w"
    by (rule offline_eq [OF quiet_offline 1]) (rule effect_intros)
  ultimately show ?thesis using c g st by auto
qed

text \<open>When the package installer reports success, the server answered the single request
  with status 200 and the file \<^verbatim>\<open>app.zip\<close> in the download directory holds exactly the bytes
  that the reader delivered up to its regular end. No other file has changed.\<close>

theorem Install_content:
  assumes run: "run_state (PackageInstaller_Install H d) w = (Ok (), w')"
  shows "\<exists>n body m. h_http H n (pi_client d) (get_request (pi_downloadURL d)) = Inr (StatusOK, body) \<and>
    sent w' = sent w @ [(pi_client d, get_request (pi_downloadURL d))] \<and>
    snd (reader_outcome sha256_ops (package_reader d body)) = EOF \<and>
    lookup (fs w') (package_path H d) = Some (File m (fst (reader_outcome sha256_ops (package_reader d body)))) \<and>
    touches (package_path H d) (fs w) (fs w')"
proof -
  let ?p = "Join [pi_downloadDir d, AppBits]"
  from run have d: "run_state (download H d (pi_downloadURL d) ?p) w = (Ok (), w')"
    by (auto simp: PackageInstaller_Install_def attempt_ok_Ok simp del: run_attempt split: if_splits)
  with download_Ok [OF d] state_io_relD [OF download_touching d] show ?thesis
    unfolding package_path_def by blast
qed

definition sample_package :: "ReaderFrom option \<Rightarrow> PackageInstaller" where
  "sample_package f = NewPackageManager DefaultClient ''http://h/app'' ''/out'' f"

lemma Install_content_witness:
  "\<exists>w' m. run_state (PackageInstaller_Install sample_host (sample_package None)) sample_world = (Ok (), w') \<and>
     lookup (fs w') [''out'', ''app.zip''] = Some (File m ''data'')"
proof -
  have "fst (run_state (PackageInstaller_Install sample_host (sample_package None)) sample_world) = Ok ()"
    by code_simp
  then obtain w' where run: "run_state (PackageInstaller_Install sample_host (sample_package None)) sample_world = (Ok (), w')"
    by (rule run_fst)
  have p: "package_path sample_host (sample_package None) = [''out'', ''app.zip'']" by code_simp
  from Install_content [OF run] obtain n body m where
    "h_http sample_host n (pi_client (sample_package None)) (get_request (pi_downloadURL (sample_package None))) = Inr (StatusOK, body)"
    and c: "lookup (fs w') [''out'', ''app.zip''] =
      Some (File m (fst (reader_outcome sha256_ops (package_reader (sample_package None) body))))"
    unfolding p by blast
  then have "body = [(''data'', Some EOF)]" by (simp add: sample_host_def)
  with c run show ?thesis by (auto simp: sample_package_def NewPackageManager_def responseReader_def)
qed

section \<open>Checksums\<close>

lemma verifying_outcome:
  "reader_outcome sha256_ops (verifyingReader sha256_New checksum body) =
     (fst (drain body), verified_end sha256_ops (string_to_bytes (fst (drain body))) checksum (snd (drain body)))"
  by (simp add: verifyingReader_def NewVerifyingReader_def sha256_ops_def sha256_Write_def sha256_New_def)

lemma sha256_ops_Sum [simp]: "hash_Sum sha256_ops = sha256_Sum"
  by (simp add: sha256_ops_def)

lemma verified_end_EOF:
  "verified_end K h checksum e = EOF \<longleftrightarrow> is_EOF e \<and> checksum = hex_string (hash_Sum K h)"
  by (simp add: verified_end_def)

text \<open>C6: A cache archive whose installation succeeded is the one that was asked for: the SHA-256
  digest of the file on disk, in hexadecimal, is the given checksum, and the file is the
  complete body of the response.\<close>

theorem Install_verified:
  assumes "run_state (PackageInstaller_Install H
      (NewPackageManager client url dir (Some (verifyingReader sha256_New checksum)))) w = (Ok (), w')"
  shows "\<exists>n body m content. h_http H n client (get_request url) = Inr (StatusOK, body) \<and>
    content = fst (drain body) \<and> is_EOF (snd (drain body)) \<and>
    lookup (fs w') (resolve H (Join [dir, AppBits])) = Some (File m content) \<and>
    hex_string (sha256_Sum (string_to_bytes content)) = checksum"
proof -
  let ?d = "NewPackageManager client url dir (Some (verifyingReader sha256_New checksum))"
  from assms have "run_state (download H ?d url (Join [dir, AppBits])) w = (Ok (), w')"
    by (auto simp: PackageInstaller_Install_def NewPackageManager_def attempt_ok_Ok simp del: run_attempt
        split: if_splits)
  from download_Ok [OF this] show ?thesis
    by (auto simp: NewPackageManager_def responseReader_def verifying_outcome verified_end_EOF)
qed

lemma verified_install:
  fixes w :: "'x world_scheme"
  assumes calm: "\<forall>n op q. h_fault H n op q = None"
    and http: "\<forall>n. h_http H n client (get_request url) = Inr (StatusOK, body)"
    and url: "h_urlParse H url = Inr u" "url \<noteq> ''''" and dir: "dir \<noteq> ''''"
    and place: "folder_at (fs w) (resolve H dir)" "\<not> folder_at (fs w) (resolve H (Join [dir, AppBits]))"
  shows "\<exists>r w' m. run_state (PackageInstaller_Install H
      (NewPackageManager client url dir (Some (verifyingReader sha256_New checksum)))) w = (r, w') \<and>
    (if is_EOF (snd (drain body)) \<and> checksum = hex_string (sha256_Sum (string_to_bytes (fst (drain body))))
     then r = Ok () else \<exists>e. r = Err e) \<and>
    lookup (fs w') (resolve H (Join [dir, AppBits])) = Some (File m (fst (drain body)))"
proof -
  let ?d = "NewPackageManager client url dir (Some (verifyingReader sha256_New checksum))"
  let ?p = "Join [dir, AppBits]"
  have "plain AppBits" by (auto simp: plain_def AppBits_def)
  then have rp: "resolve H ?p = resolve H dir @ [AppBits]" and p: "?p \<noteq> ''''"
    using resolve_Join_plain [of "[AppBits]" H dir] Join_two_nonempty by auto
  obtain w1 m where 1: "run_state (OpenCreate H ?p perm_0666) w = (Ok (), w1)"
    and f1: "lookup (fs w1) (resolve H ?p) = Some (File m '''')"
    using OpenCreate_succeeds [OF calm p, of w perm_0666] place by (auto simp: rp)
  obtain w2 where 2: "run_state (Get H client url) w1 = (Ok (StatusOK, body), w2)" and f2: "fs w2 = fs w1"
    using http url by (auto simp: Get_def NewRequest_def Do_def get_request_def)
  let ?r = "package_reader ?d body"
  have o: "reader_outcome sha256_ops ?r = (fst (drain body),
      verified_end sha256_ops (string_to_bytes (fst (drain body))) checksum (snd (drain body)))"
    by (simp add: NewPackageManager_def responseReader_def verifying_outcome)
  from sha256.io_Copy_outcome [OF f1 [folded f2], of ?r 0] calm p
  obtain w3 where 3: "run_state (io_Copy H sha256_ops ?p ?r 0) w2 = (Ok (length (fst (drain body)),
      if snd (reader_outcome sha256_ops ?r) = EOF then None else Some (snd (reader_outcome sha256_ops ?r))), w3)"
    and f3: "lookup (fs w3) (resolve H ?p) = Some (File m (fst (drain body)))"
    by (auto simp: o)
  from 1 2 3 url dir have "run_state (PackageInstaller_Install H ?d) w =
      (if snd (reader_outcome sha256_ops ?r) = EOF then Ok ()
       else Err (Wrap (Wrap (snd (reader_outcome sha256_ops ?r)) ''failed to copy content to file'')
         (''download from '' @ url)), w3)"
    by (simp add: PackageInstaller_Install_def download_def Create_def NewPackageManager_def)
  with f3 show ?thesis by (auto simp: o verified_end_EOF)
qed

text \<open>C14: On a machine without faults, when the server answers, the installation of a cache
  archive succeeds exactly if the body arrived completely and has the given checksum. A body
  that is rejected stays in the file.\<close>

theorem Install_decides:
  assumes "\<forall>n op q. h_fault H n op q = None"
    and "\<forall>n. h_http H n client (get_request url) = Inr (StatusOK, body)"
    and "h_urlParse H url = Inr u" "url \<noteq> ''''" and "dir \<noteq> ''''"
    and "folder_at (fs w) (resolve H dir)" "\<not> folder_at (fs w) (resolve H (Join [dir, AppBits]))"
  shows "\<exists>r w' m. run_state (PackageInstaller_Install H
      (NewPackageManager client url dir (Some (verifyingReader sha256_New checksum)))) w = (r, w') \<and>
    (if is_EOF (snd (drain body)) \<and> checksum = hex_string (sha256_Sum (string_to_bytes (fst (drain body))))
     then r = Ok () else \<exists>e. r = Err e) \<and>
    lookup (fs w') (resolve H (Join [dir, AppBits])) = Some (File m (fst (drain body)))"
  by (rule verified_install [OF assms])

definition data_checksum :: string where
  "data_checksum = hex_string (sha256_Sum (string_to_bytes ''data''))"

lemma sample_place:
  "\<forall>n op q. h_fault sample_host n op q = None"
  "\<forall>n. h_http sample_host n DefaultClient (get_request ''http://h/c'') = Inr (StatusOK, [(''data'', Some EOF)])"
  "h_urlParse sample_host ''http://h/c'' = Inr \<lparr>url_base = ''http://h/c'', Fragment = ''''\<rparr>"
  "''http://h/c'' \<noteq> ''''" "''/out'' \<noteq> ''''"
  "folder_at (fs sample_world) (resolve sample_host ''/out'')"
  "\<not> folder_at (fs sample_world) (resolve sample_host (Join [''/out'', AppBits]))"
  by (simp_all add: sample_host_def StatusOK_def) code_simp+

lemma Install_decides_witness:
  "\<exists>w' e. run_state (PackageInstaller_Install sample_host
      (NewPackageManager DefaultClient ''http://h/c'' ''/out'' (Some (verifyingReader sha256_New ''bee'')))) sample_world =
      (Err e, w') \<and> file_at (fs w') (resolve sample_host (Join [''/out'', AppBits]))"
proof -
  have "''bee'' \<noteq> hex_string bs" for bs
  proof
    assume "''bee'' = hex_string bs"
    then have "length ''bee'' = length (hex_string bs)" by simp
    then have "3 = 2 * length bs" by simp
    then show False by presburger
  qed
  with Install_decides [OF sample_place, of "''bee''"] show ?thesis by (auto simp: file_at_iff)
qed

lemma Install_verified_witness:
  "\<exists>w' m content. run_state (PackageInstaller_Install sample_host
      (NewPackageManager DefaultClient ''http://h/c'' ''/out'' (Some (verifyingReader sha256_New data_checksum))))
      sample_world = (Ok (), w') \<and>
    lookup (fs w') (resolve sample_host (Join [''/out'', AppBits])) = Some (File m content) \<and>
    hex_string (sha256_Sum (string_to_bytes content)) = data_checksum"
proof -
  let ?d = "NewPackageManager DefaultClient ''http://h/c'' ''/out'' (Some (verifyingReader sha256_New data_checksum))"
  from verified_install [OF sample_place, of data_checksum] obtain w' where
    run: "run_state (PackageInstaller_Install sample_host ?d) sample_world = (Ok (), w')"
    by (auto simp: data_checksum_def)
  from Install_verified [OF run] run show ?thesis by blast
qed

section \<open>Termination\<close>

text \<open>A step of the clock is a system call or an exchange with a server.\<close>

lemma clock_write_chunk: "run_state (write_chunk H path chunk) w = (res, w') \<Longrightarrow> clock w' \<le> Suc (clock w)"
  by (auto simp: write_chunk_def Write_def syscall_def Let_def split: option.splits sum.splits prod.splits if_splits)

lemma write_chunk_Nil: "run_state (write_chunk H path '''') w = (Ok (), w)"
  by (simp add: write_chunk_def)

lemma Read_end: "pending r = 0 \<Longrightarrow> \<exists>e r'. Read K r = (('''', Some e), r')"
proof (induction r)
  case (VerifyingReader r h c)
  then obtain e r' where "Read K r = (('''', Some e), r')" by auto
  then show ?case by (simp add: Let_def)
qed simp

text \<open>The copy loop makes at most one write for each piece that arrives.\<close>

lemma io_Copy_clock:
  "run_state (io_Copy H K path r n) w = (res, w') \<Longrightarrow> clock w' \<le> clock w + pending r"
proof (induction "pending r" arbitrary: r n w rule: less_induct)
  case less
  obtain chunk err r' where rd: "Read K r = ((chunk, err), r')" by (metis prod.exhaust)
  obtain r1 w1 where 1: "run_state (write_chunk H path chunk) w = (r1, w1)" by fastforce
  note run = less.prems [unfolded io_Copy.simps [of H K path r n] rd prod.case run_on_err 1]
  have ret: "returned r1" using write_chunk_effects(3) 1 unfolding returns_def by (metis fst_conv)
  show ?case
  proof (cases "pending r = 0")
    case True
    with Read_end [OF this, of K] rd have "chunk = ''''" "\<exists>e. err = Some e" by auto
    with run 1 True show ?thesis by (auto simp: write_chunk_Nil)
  next
    case False
    show ?thesis
    proof (cases "err = None \<and> r1 = Ok ()")
      case True
      then have p: "pending r' < pending r" using rd Read_pending by blast
      from run True have "run_state (io_Copy H K path r' (n + length chunk)) w1 = (res, w')" by simp
      from less.hyps [OF p this] clock_write_chunk [OF 1] p show ?thesis by simp
    next
      case other: False
      with run ret have "w' = w1" by (cases r1; cases err) auto
      with clock_write_chunk [OF 1] False show ?thesis by simp
    qed
  qed
qed

lemma Get_clock:
  assumes "run_state (Get H c u) w = (r, w')"
  shows "clock w' \<le> Suc (clock w) \<and>
    (\<forall>status body. r = Ok (status, body) \<longrightarrow> (\<exists>n. h_http H n c (get_request u) = Inr (status, body)))"
  using assms by (auto simp: Get_def NewRequest_def Do_def get_request_def split: sum.splits)

lemma download_clock:
  assumes run: "run_state (download H d u path) w = (r, w')"
  shows "clock w' \<le> clock w + 2 \<or>
      (\<exists>n status body. h_http H n (pi_client d) (get_request u) = Inr (status, body) \<and>
         clock w' \<le> clock w + 2 + pending (package_reader d body))"
proof -
  obtain r1 w1 where 1: "run_state (Create H path) w = (r1, w1)" by fastforce
  have c1: "clock w1 \<le> Suc (clock w)"
    using 1 by (auto simp: Create_def OpenCreate_def syscall_def Let_def split: option.splits sum.splits prod.splits if_splits)
  obtain r2 w2 where 2: "run_state (Get H (pi_client d) u) w1 = (r2, w2)" by fastforce
  note g = Get_clock [OF 2]
  note run = run [unfolded download_def run_attempt [of "Create H path"] 1 prod.case]
  show ?thesis
  proof (cases "\<exists>u1 body. r1 = Ok u1 \<and> r2 = Ok (StatusOK, body)")
    case True
    then obtain body where r: "r1 = Ok ()" "r2 = Ok (StatusOK, body)" by auto
    obtain r3 w3 where 3: "run_state (io_Copy H sha256_ops path (package_reader d body) 0) w2 = (r3, w3)" by fastforce
    from run r 2 3 have "w' = w3" by (auto split: result.splits prod.splits option.splits)
    with io_Copy_clock [OF 3] c1 g r show ?thesis by (intro disjI2) fastforce
  next
    case False
    with run 2 have "w' = w1 \<or> w' = w2" by (cases r1; cases r2) (auto split: if_splits)
    with c1 g show ?thesis by auto
  qed
qed

lemma Install_clock:
  assumes "run_state (PackageInstaller_Install H d) w = (r, w')"
  shows "clock w' \<le> clock w + 2 \<or>
      (\<exists>n status body. h_http H n (pi_client d) (get_request (pi_downloadURL d)) = Inr (status, body) \<and>
         clock w' \<le> clock w + 2 + pending (package_reader d body))"
proof -
  obtain r1 w1 where 1: "run_state (download H d (pi_downloadURL d) (Join [pi_downloadDir d, AppBits])) w = (r1, w1)"
    by fastforce
  with assms have "w' = w \<or> w' = w1" by (auto simp: PackageInstaller_Install_def split: if_splits result.splits)
  with download_clock [OF 1] show ?thesis by auto
qed

text \<open>C30: A download always ends, whatever arrives and whatever fails: the installer returns, with
  success or an error, after creating the file, one exchange, and at most one write for every
  piece of the response.\<close>

theorem Install_terminates:
  "case run_state (PackageInstaller_Install H d) w of (r, w') \<Rightarrow> (r = Ok () \<or> (\<exists>e. r = Err e)) \<and>
     (clock w' \<le> clock w + 2 \<or>
      (\<exists>n status body. h_http H n (pi_client d) (get_request (pi_downloadURL d)) = Inr (status, body) \<and>
         clock w' \<le> clock w + 2 + pending (package_reader d body)))"
proof -
  obtain r w' where run: "run_state (PackageInstaller_Install H d) w = (r, w')" by fastforce
  have "returns (PackageInstaller_Install H d)"
    unfolding PackageInstaller_Install_def download_def
    by (intro returns_intros returns_basic_os returns_compound returns_io_Copy)
  then have "returned r" using run unfolding returns_def by (metis fst_conv)
  then have "r = Ok () \<or> (\<exists>e. r = Err e)" by (cases r) auto
  moreover from run have "clock w' \<le> clock w + 2 \<or>
      (\<exists>n status body. h_http H n (pi_client d) (get_request (pi_downloadURL d)) = Inr (status, body) \<and>
         clock w' \<le> clock w + 2 + pending (package_reader d body))"
    by (rule Install_clock)
  ultimately show ?thesis unfolding run by simp
qed

end
