(* ===== verification/Extracting.thy ===== *)
theory Extracting
  imports Unzip Streams Samples
begin

text \<open>
  The unzipper: the size limit, the content of an extracted file, where extraction can write,
  and the archive entries with which it writes elsewhere.
\<close>

section \<open>The limit\<close>

lemma drain_limited_data: "fst (drain (limited n s)) = take n (fst (drain s))"
proof (induction n s rule: limited.induct)
  case (2 n chunk err rest)
  then show ?case by (cases err) auto
qed simp

lemma drain_limited_end: "length (fst (drain s)) < n \<Longrightarrow> drain (limited n s) = drain s"
proof (induction n s rule: limited.induct)
  case (2 n chunk err rest)
  then show ?case by (cases err) auto
qed simp

text \<open>\<open>io_CopyN\<close> gives an error that means the end of the input only when it has copied the
  whole input and that is shorter than the limit.\<close>

lemma io_CopyN_EOF:
  assumes "lookup (fs w) (resolve H path) = Some (File m '''')"
    and run: "run_state (io_CopyN H path s n) w = (Ok (written, Some e), w')" and e: "is_EOF e"
  shows "length (fst (drain s)) < n \<and> is_EOF (snd (drain s)) \<and>
    lookup (fs w') (resolve H path) = Some (File m (fst (drain s)))"
proof -
  let ?r = "BodyReader (limited n s) :: bytes reader"
  from sha256.io_Copy_outcome [OF assms(1), of ?r 0] obtain data err v where
    c: "run_state (io_Copy H sha256_ops path ?r 0) w = (Ok (length data, err), v)"
    "lookup (fs v) (resolve H path) = Some (File m data)"
    "err = None \<longrightarrow> data = fst (drain (limited n s)) \<and> snd (drain (limited n s)) = EOF"
    "\<forall>e. err = Some e \<and> is_EOF e \<longrightarrow> data = fst (drain (limited n s)) \<and> snd (drain (limited n s)) = e"
    by auto
  from run have "(Ok (length data, if length data = n then None
      else if length data < n \<and> err = None then Some EOF else err), v) = (Ok (written, Some e), w')"
    unfolding io_CopyN_def run_attempt c(1) prod.case result.case run_ok .
  then have w': "w' = v" and eq: "(if length data = n then None
      else if length data < n \<and> err = None then Some EOF else err) = Some e"
    by blast+
  have "err = None \<or> err = Some e" using eq by (auto split: if_splits)
  then have d: "data = fst (drain (limited n s))" "is_EOF (snd (drain (limited n s)))" using c(3,4) e by auto
  have "length data \<noteq> n" using eq by auto
  with d(1) have "length (fst (drain s)) < n" by (simp add: drain_limited_data min_def split: if_splits)
  with drain_limited_end [OF this] c(2) d w' show ?thesis by simp
qed

lemma extractFile_cases:
  assumes "run_state (extractFile H limit f dest) w = (Ok (), w')"
  shows "length (fst (drain (ze_data f))) < limit \<and> is_EOF (snd (drain (ze_data f))) \<and>
    lookup (fs w') (resolve H dest) = Some (File (and (ze_mode f) mode_bits) (fst (drain (ze_data f))))"
proof -
  from assms obtain w1 s w2 u3 w3 x w4 where
    2: "run_state (Open_entry f) w1 = (Ok s, w2)" and
    3: "run_state (OpenCreate H dest perm_0666) w2 = (Ok u3, w3)" and
    4: "run_state (io_CopyN H dest s limit) w3 = (Ok x, w4)" and
    5: "run_state (case x of (written, err) \<Rightarrow> (case err of
         None \<Rightarrow> fail (Errorf (''extracting zip stopped at '' @ show_nat limit @ '' limit''))
       | Some e \<Rightarrow>
           if \<not> is_EOF e then fail (ErrorfW ''failed to write zip'' e)
           else Chmod H dest (ze_mode f))) w4 = (Ok (), w')"
    unfolding extractFile_def Create_def attempt_Ok by (elim exE conjE) (rule that)
  obtain written err where x: "x = (written, err)" by (cases x)
  note 4 = 4 [unfolded x] and 5 = 5 [unfolded x prod.case]
  from 2 have s: "s = ze_data f" by (auto simp: Open_entry_def split: option.splits)
  from 3 obtain m where m: "lookup (fs w3) (resolve H dest) = Some (File m '''')" by (rule OpenCreate_OkE)
  from 5 obtain e where e: "err = Some e" "is_EOF e" and ch: "run_state (Chmod H dest (ze_mode f)) w4 = (Ok (), w')"
    by (auto split: option.splits if_splits)
  from io_CopyN_EOF [OF m 4 [unfolded e(1)] e(2)] Chmod_file_OkE [OF ch] show ?thesis by (simp add: s)
qed

text \<open>C17: A file that was extracted without error is shorter than the limit, and on disk it has the
  complete content of the archive entry and its permission bits. A file of exactly the limit is
  refused like a longer one.\<close>

theorem extractFile_complete:
  assumes "run_state (extractFile H limit f dest) w = (Ok (), w')"
  shows "length (fst (drain (ze_data f))) < limit \<and> is_EOF (snd (drain (ze_data f))) \<and>
    lookup (fs w') (resolve H dest) = Some (File (and (ze_mode f) mode_bits) (fst (drain (ze_data f))))"
  by (rule extractFile_cases [OF assms])

definition sample_entry :: "string \<Rightarrow> zip_entry" where
  "sample_entry name = \<lparr>ze_name = name, ze_mode = perm_0755, ze_isDir = False, ze_open = None,
     ze_data = [(''ev'', None), (''il'', Some EOF)]\<rparr>"

lemma extractFile_complete_witness:
  "\<exists>w'. run_state (extractFile sample_host 5 (sample_entry ''x'') ''/app/x'') sample_world = (Ok (), w') \<and>
     lookup (fs w') (resolve sample_host ''/app/x'') = Some (File (and perm_0755 mode_bits) ''evil'')"
proof -
  have "fst (run_state (extractFile sample_host 5 (sample_entry ''x'') ''/app/x'') sample_world) = Ok ()"
    by code_simp
  then obtain w' where run: "run_state (extractFile sample_host 5 (sample_entry ''x'') ''/app/x'') sample_world = (Ok (), w')"
    by (rule run_fst)
  from extractFile_complete [OF run] run show ?thesis by (simp add: sample_entry_def)
qed

section \<open>Where extraction writes\<close>

abbreviation inside :: "string list \<Rightarrow> ('x world_scheme, 'a) state \<Rightarrow> bool" where
  "inside d m \<equiv> state_io_rel (\<lambda>w w'. same_outside [d] (fs w) (fs w')) m"

interpretation inside: effect_relation "\<lambda>w w' :: 'x world_scheme. same_outside [d] (fs w) (fs w')" for d
  by unfold_locales (auto intro: same_outside_trans)

lemma fs_inside: "(\<And>w r w'. run_state m w = (r, w') \<Longrightarrow> fs w' = fs w) \<Longrightarrow> inside d m"
  by (rule state_io_relI) simp

lemma enter_outside:
  assumes "enter absent f p t = (r, t')" and "prefix d p"
  shows "same_outside [d] t t'"
proof (cases r)
  case (Inl e)
  with enter_Inl assms(1) show ?thesis by (metis same_outside_refl)
next
  case (Inr u)
  with enter_Inr assms(1) have "\<exists>v. t' = put p v t" by metis
  with assms(2) show ?thesis by (auto simp: put_def intro: same_outside_upd)
qed

lemma syscall_enter_inside: "prefix d (resolve H p) \<Longrightarrow> inside d (syscall H op p (enter absent f))"
  by (rule state_io_relI, erule syscall_cases) (auto intro: enter_outside)

lemma inside_files:
  assumes "prefix d (resolve H p)"
  shows "inside d (OpenCreate H p m)" "inside d (Create H p)" "inside d (Write H p s)" "inside d (Chmod H p m)"
  using assms by (auto simp: OpenCreate_def Create_def Write_def Chmod_def intro!: syscall_enter_inside)

lemma inside_write_chunk: "prefix d (resolve H p) \<Longrightarrow> inside d (write_chunk H p c)"
  unfolding write_chunk_def by (auto intro: inside.within_ok inside_files)

lemma inside_io_Copy:
  assumes "prefix d (resolve H path)"
  shows "inside d (io_Copy H K path r n)"
proof (induction "pending r" arbitrary: r n rule: less_induct)
  case less
  obtain chunk err r' where rd: "Read K r = ((chunk, err), r')" by (metis prod.exhaust)
  show ?case
  proof (cases err)
    case None
    with Read_pending rd have "pending r' < pending r" by blast
    from less.hyps [OF this] show ?thesis
      unfolding io_Copy.simps [of H K path r n] rd prod.case None option.case
      by (intro inside.within_on_err inside_write_chunk assms inside.within_ok)
  next
    case (Some e)
    show ?thesis
      unfolding io_Copy.simps [of H K path r n] rd prod.case Some option.case
      by (intro inside.within_on_err inside_write_chunk assms inside.within_ok)
  qed
qed

text \<open>Creating a directory below \<open>d\<close>, or a part of the way to \<open>d\<close>.\<close>

lemma dirs_added_outside:
  assumes "dirs_added p t t'" and "prefix d p \<or> prefix p d"
  shows "same_outside [d] t t'"
  unfolding same_outside_def
proof (intro allI impI)
  fix q assume "\<forall>e \<in> set [d]. e \<parallel> q"
  then have "d \<parallel> q" by simp
  then have "\<not> prefix q p" using assms(2)
    by (auto simp: parallel_def dest: prefix_same_cases prefix_order.trans)
  with assms(1) show "lookup t' q = lookup t q" by (simp add: dirs_added_def)
qed

lemma inside_MkdirAll:
  "rooted p \<Longrightarrow> prefix d (resolve H p) \<or> prefix (resolve H p) d \<Longrightarrow> inside d (MkdirAll H p m)"
  by (rule state_io_relI) (metis MkdirAll_effect rooted_plain_comps dirs_added_outside)

text \<open>The destination of an entry whose name does not climb out of its directory.\<close>

definition harmless :: "zip_entry \<Rightarrow> bool" where
  "harmless f \<longleftrightarrow> list_all plain (path_comps (ze_name f))"

lemma clean_split_render:
  assumes "list_all plain cs"
  shows "clean_comps r' base (split_on (CHR ''/'') (render_path r cs)) = base @ cs"
proof (cases "cs = []")
  case True
  then show ?thesis by (simp add: render_path_def clean_comps_def)
next
  case False
  with assms have s: "split_on (CHR ''/'') (join_with (CHR ''/'') cs) = cs"
    by (intro split_join) (auto simp: list_all_iff plain_def)
  with False assms show ?thesis by (simp add: render_path_def clean_comps_plain)
qed

lemma dest_path_inside:
  assumes "rooted targetDir" and "harmless f"
  shows "rooted (dest_path targetDir f)"
    and "path_comps (dest_path targetDir f) = path_comps targetDir @ path_comps (ze_name f)"
  using assms path_comps_join2 [of "Clean targetDir" "Clean (ze_name f)"]
    clean_split_render [of "path_comps (ze_name f)" True "path_comps targetDir" "rooted (ze_name f)"]
  by (simp_all add: dest_path_def path_simps harmless_def Clean_render [of "ze_name f"])

lemma Dir_rendered:
  assumes "normal True cs"
  shows "path_comps (Dir (render_path True cs)) = butlast cs \<and> rooted (Dir (render_path True cs))"
proof (cases cs rule: rev_cases)
  case Nil
  have "path_comps ''/'' = []" "rooted ''/''" by (simp_all add: path_comps_def rooted_def)
  moreover have "Dir (render_path True cs) = Clean ''/''" by (simp add: Nil Dir_def render_path_def)
  ultimately show ?thesis by (simp only: path_simps Nil butlast.simps)
next
  case (snoc bs x)
  have x: "CHR ''/'' \<notin> set x" using normal_no_slash [OF assms] snoc by simp
  define pre where "pre = CHR ''/'' # join_with (CHR ''/'') bs @ (if bs = [] then '''' else ''/'')"
  have "render_path True cs = pre @ x"
    by (simp add: snoc render_path_def pre_def join_with_append)
  moreover have "last pre = CHR ''/''" "pre \<noteq> []" by (auto simp: pre_def)
  ultimately have d: "Dir (render_path True cs) = Clean pre"
    using x by (cases pre rule: rev_cases) (auto simp: Dir_def dropWhile_append)
  have bs: "normal True bs" using assms snoc normal_butlast by blast
  have "path_comps pre = bs"
  proof (cases "bs = []")
    case True
    then show ?thesis by (simp add: pre_def path_comps_def rooted_def)
  next
    case False
    have "split_on (CHR ''/'') (join_with (CHR ''/'') bs) = bs"
      using False normal_no_slash [OF bs] by (intro split_join) auto
    with False have "path_comps pre = clean_comps True [] (bs @ [''''])"
      by (simp add: pre_def path_comps_slash split_on_append)
    also have "\<dots> = bs" using clean_comps_normal [OF bs] by (simp add: clean_comps_append)
    finally show ?thesis .
  qed
  with d snoc show ?thesis by (simp add: path_simps) (simp add: pre_def rooted_def)
qed

lemma Dir_cleaned:
  assumes "rooted p" and "Clean p = p"
  shows "path_comps (Dir p) = butlast (path_comps p) \<and> rooted (Dir p)"
  using Dir_rendered [of "path_comps p"] normal_path_comps [of p] assms Clean_render [of p] by simp

lemma extract_entry_inside:
  assumes t: "rooted targetDir" and f: "harmless f"
  shows "inside (resolve H targetDir) (extract_entry H limit targetDir f)"
proof -
  let ?p = "dest_path targetDir f"
  note d = dest_path_inside [OF t f]
  have p: "prefix (resolve H targetDir) (resolve H ?p)" using d t by (simp add: resolve_def)
  have dir: "rooted (Dir ?p)" "prefix (resolve H targetDir) (resolve H (Dir ?p)) \<or> prefix (resolve H (Dir ?p)) (resolve H targetDir)"
  proof -
    have "Clean targetDir \<noteq> ''''" by simp
    then have "Clean ?p = ?p" by (simp add: dest_path_def Join_def)
    from Dir_cleaned [OF d(1) this] show r: "rooted (Dir ?p)" by simp
    have "resolve H (Dir ?p) = butlast (path_comps targetDir @ path_comps (ze_name f))"
      using Dir_cleaned [OF d(1) \<open>Clean ?p = ?p\<close>] r d(2) by (simp add: resolve_def)
    then show "prefix (resolve H targetDir) (resolve H (Dir ?p)) \<or> prefix (resolve H (Dir ?p)) (resolve H targetDir)"
      using t by (cases "path_comps (ze_name f) = []") (auto simp: resolve_def butlast_append prefixeq_butlast)
  qed
  show ?thesis
    unfolding extract_entry_def extractFile_def io_CopyN_def Open_entry_def
    using p by (intro inside.within_intros inside_MkdirAll inside_files inside_io_Copy d(1) dir) auto
qed

lemma OpenReader_entries:
  assumes "run_state (OpenReader H src) w = (Ok entries, w')"
  shows "fs w' = fs w \<and> (\<exists>m content. lookup (fs w) (resolve H src) = Some (File m content) \<and> h_zip H content = Inr entries)"
proof -
  from assms obtain content w1 where 1: "run_state (ReadFile H src) w = (Ok content, w1)"
    and 2: "run_state (case h_zip H content of Inl s \<Rightarrow> fail (External s) | Inr es \<Rightarrow> ok es) w1 = (Ok entries, w')"
    unfolding OpenReader_def attempt_Ok by (elim exE conjE) (rule that)
  from 1 obtain m where "lookup (fs w) (resolve H src) = Some (File m content)" "fs w1 = fs w" by (rule ReadFile_OkE)
  with 2 show ?thesis by (auto split: sum.splits)
qed

definition archive_harmless :: "host \<Rightarrow> node \<Rightarrow> string \<Rightarrow> bool" where
  "archive_harmless H t src \<longleftrightarrow> (\<forall>m content es. lookup t (resolve H src) = Some (File m content) \<longrightarrow>
     h_zip H content = Inr es \<longrightarrow> list_all harmless es)"

lemma OpenReader_fs: "run_state (OpenReader H src) w = (r, w') \<Longrightarrow> fs w' = fs w"
  unfolding OpenReader_def
  by (auto split: prod.splits result.splits sum.splits dest: fs_unchanged)

lemma returns_OpenReader: "returns (OpenReader H src)"
  unfolding OpenReader_def by (intro returns_intros returns_basic_os)

lemma Extract_inside:
  assumes run: "run_state (Extract H limit src targetDir) w = (r, w')"
    and t: "rooted targetDir" and safe: "archive_harmless H (fs w) src"
  shows "same_outside [resolve H targetDir] (fs w) (fs w')"
proof -
  have "targetDir \<noteq> ''''" using t by (auto simp: rooted_def)
  with run have run: "run_state (attempt (OpenReader H src) (ErrorfW ''failed to open zip reader'')
      (for_each (extract_entry H limit targetDir))) w = (r, w')" by (simp add: Extract_def)
  obtain r1 w1 where 1: "run_state (OpenReader H src) w = (r1, w1)" by fastforce
  note f = OpenReader_fs [OF 1]
  from returns_OpenReader 1 show ?thesis
  proof (rule returnsE)
    fix e assume "r1 = Err e"
    with run 1 f show ?thesis by auto
  next
    fix entries assume r1: "r1 = Ok entries"
    from OpenReader_entries [OF 1 [unfolded r1]] safe have "list_all harmless entries"
      by (auto simp: archive_harmless_def)
    then have "inside (resolve H targetDir) (for_each (extract_entry H limit targetDir) entries)"
      by (intro inside.within_for_each extract_entry_inside t) (auto simp: list_all_iff)
    moreover have "run_state (for_each (extract_entry H limit targetDir) entries) w1 = (r, w')"
      using run 1 r1 by simp
    ultimately show ?thesis using f by (auto dest: state_io_relD)
  qed
qed

text \<open>C15: Extraction into an absolute directory, successful or not, changes nothing beside that
  directory, provided that no name in the archive climbs out of it with \<^verbatim>\<open>..\<close> components.\<close>

theorem Extract_contained:
  assumes "run_state (Extract H limit src targetDir) w = (r, w')"
    and "rooted targetDir" and "archive_harmless H (fs w) src"
  shows "same_outside [resolve H targetDir] (fs w) (fs w')"
  by (rule Extract_inside [OF assms])

definition zip_host :: "string \<Rightarrow> host" where
  "zip_host name = sample_host\<lparr>h_zip := (\<lambda>_. Inr [sample_entry name])\<rparr>"

lemma Extract_contained_witness:
  "\<exists>w'. run_state (Extract (zip_host ''sub/x'') 100 ''/out/d.tgz'' ''/app'') sample_world = (Ok (), w') \<and>
     lookup (fs w') [''app'', ''sub'', ''x''] = Some (File perm_0755 ''evil'') \<and>
     lookup (fs w') [''keep''] = lookup (fs sample_world) [''keep'']"
proof -
  let ?m = "Extract (zip_host ''sub/x'') 100 ''/out/d.tgz'' ''/app''"
  have "(case run_state ?m sample_world of (r, w') \<Rightarrow> r = Ok () \<and>
      lookup (fs w') [''app'', ''sub'', ''x''] = Some (File perm_0755 ''evil''))" by code_simp
  then obtain w' where run: "run_state ?m sample_world = (Ok (), w')"
    and c: "lookup (fs w') [''app'', ''sub'', ''x''] = Some (File perm_0755 ''evil'')"
    by (auto split: prod.splits)
  have "rooted ''/app''" "resolve (zip_host ''sub/x'') ''/app'' = [''app'']" by code_simp+
  moreover have "harmless (sample_entry ''sub/x'')" by code_simp
  then have "archive_harmless (zip_host ''sub/x'') (fs sample_world) ''/out/d.tgz''"
    by (simp add: archive_harmless_def zip_host_def)
  moreover have "[''app''] \<parallel> [''keep'']" by (simp add: parallel_def)
  ultimately show ?thesis using Extract_contained [OF run] run c by (auto simp: same_outside_def)
qed

section \<open>Entries that climb out\<close>







end
