(* ===== verification/Clones.thy ===== *)
theory Clones
  imports Downloads Extracting
begin

text \<open>
  Installing a buildpack: from an archive, or by cloning a git repository when the archive
  cannot be extracted; which programs are run, and with what result.
\<close>

section \<open>Cloning\<close>

definition shallow_clone :: "string \<Rightarrow> url \<Rightarrow> string \<Rightarrow> command" where
  "shallow_clone git repo dest =
     clone_command git [''--depth'', ''1'', ''--recursive'', url_base repo, dest] (Fragment repo)"

definition full_clone :: "string \<Rightarrow> url \<Rightarrow> string \<Rightarrow> command" where
  "full_clone git repo dest = clone_command git [''--recursive'', url_base repo, dest] (Fragment repo)"

text \<open>The ways in which cloning can go.\<close>

definition clone_result :: "string \<Rightarrow> url \<Rightarrow> string \<Rightarrow> (command \<times> bool) list \<Rightarrow> unit result \<Rightarrow> bool" where
  "clone_result git repo dest rs r \<longleftrightarrow>
     (if is_Ok r then rs = [(shallow_clone git repo dest, True)] \<or>
        rs = [(shallow_clone git repo dest, False), (full_clone git repo dest, True)]
      else (\<exists>e. r = Err e) \<and> (rs = [] \<or> rs = [(shallow_clone git repo dest, False), (full_clone git repo dest, False)]))"

lemma performGitClone_cases:
  assumes "run_state (performGitClone H git args branch) w = (r, w')"
  shows "world.more w' = world.more w \<and>
    (r = Ok () \<and> runs w' = runs w @ [(clone_command git args branch, True)] \<or>
     (\<exists>e. r = Err e) \<and> runs w' = runs w @ [(clone_command git args branch, False)])"
  using assms Run_cmd_runs [of H "clone_command git args branch" w]
  by (auto simp: performGitClone_def split: prod.splits result.splits)

lemma GitClone_cases:
  assumes run: "run_state (GitClone H repo dest) w = (r, w')"
  shows "\<exists>git rs. runs w' = runs w @ rs \<and> clone_result git repo dest rs r"
proof -
  obtain r1 w1 where 1: "run_state (LookPath H ''git'') w = (r1, w1)" by fastforce
  have q1: "runs w1 = runs w" by (rule no_runs_eq [OF quiet_no_runs [OF quiet_LookPath] 1])
  have "returns (LookPath H ''git'' :: ('a world_scheme, string) go)" by simp
  then show ?thesis using 1
  proof (rule returnsE)
    fix e assume "r1 = Err e"
    with run 1 q1 show ?thesis by (auto simp: GitClone_def clone_result_def)
  next
    fix git assume r1: "r1 = Ok git"
    let ?a = "[''--depth'', ''1'', ''--recursive'', url_base repo, dest]"
    let ?b = "[''--recursive'', url_base repo, dest]"
    obtain r2 w2 where 2: "run_state (performGitClone H git ?a (Fragment repo)) w1 = (r2, w2)" by fastforce
    from performGitClone_cases [OF 2] show ?thesis
    proof (elim conjE disjE exE)
      assume "r2 = Ok ()" "runs w2 = runs w1 @ [(clone_command git ?a (Fragment repo), True)]"
      with run 1 2 r1 q1 show ?thesis
        by (auto simp: GitClone_def clone_result_def shallow_clone_def Let_def intro!: exI [of _ git])
    next
      fix e assume r2: "r2 = Err e" "runs w2 = runs w1 @ [(clone_command git ?a (Fragment repo), False)]"
      obtain w3 where 3: "snd (run_state (RemoveAll H dest) w2) = w3" by blast
      have q3: "runs w3 = runs w2"
        using no_runs_eq [OF quiet_no_runs [OF quiet_basic(3)] surjective_pairing [of "run_state (RemoveAll H dest) w2"]] 3
        by simp
      obtain r4 w4 where 4: "run_state (performGitClone H git ?b (Fragment repo)) w3 = (r4, w4)" by fastforce
      from run 1 2 3 4 r1 r2 have "r = (case r4 of Ok u \<Rightarrow> Ok ()
          | Err e \<Rightarrow> Err (Errorf (''failed to clone git repository at '' @ url_base repo))
          | Panic s \<Rightarrow> Panic s | Exit n \<Rightarrow> Exit n) \<and> w' = w4"
        by (auto simp: GitClone_def Let_def split: result.splits)
      then have res: "r4 = Ok () \<Longrightarrow> r = Ok ()" "r4 = Err x \<Longrightarrow> \<exists>e. r = Err e" "w' = w4" for x by auto
      let ?c = "\<lambda>b. [(shallow_clone git repo dest, False), (full_clone git repo dest, b)]"
      from performGitClone_cases [OF 4] have "r = Ok () \<and> runs w' = runs w @ ?c True \<or>
          (\<exists>e. r = Err e) \<and> runs w' = runs w @ ?c False"
        using res(1,2) unfolding res(3) shallow_clone_def full_clone_def by (elim conjE disjE exE) (simp_all add: q1 q3 r2(2))
      then show ?thesis
      proof (elim disjE conjE exE)
        assume "r = Ok ()" "runs w' = runs w @ ?c True"
        then show ?thesis by (intro exI [of _ git] exI [of _ "?c True"]) (simp add: clone_result_def)
      next
        fix e assume "r = Err e" "runs w' = runs w @ ?c False"
        then show ?thesis by (intro exI [of _ git] exI [of _ "?c False"]) (simp add: clone_result_def)
      qed
    qed
  qed
qed

text \<open>C21: Cloning a repository runs \<^verbatim>\<open>git\<close> at most twice: a shallow clone, and only after its
  failure a full one, both of the branch in the fragment of the URL. It succeeds exactly when
  the last of them did.\<close>

theorem GitClone_outcome:
  "case run_state (GitClone H repo dest) w of (r, w') \<Rightarrow>
     \<exists>git rs. runs w' = runs w @ rs \<and>
       (if is_Ok r then rs = [(shallow_clone git repo dest, True)] \<or>
          rs = [(shallow_clone git repo dest, False), (full_clone git repo dest, True)]
        else (\<exists>e. r = Err e) \<and>
          (rs = [] \<or> rs = [(shallow_clone git repo dest, False), (full_clone git repo dest, False)]))"
proof -
  obtain r w' where run: "run_state (GitClone H repo dest) w = (r, w')" by fastforce
  from GitClone_cases [OF run] show ?thesis unfolding run prod.case clone_result_def .
qed

section \<open>Archive or clone\<close>

lemma quiet_Extract [effect_intros]: "quiet (Extract H limit src targetDir)"
  unfolding Extract_def OpenReader_def extract_entry_def extractFile_def Open_entry_def io_CopyN_def
  by (intro quiet.within_intros effect_intros)

lemma no_runs_OpenBuildpackURL: "no_runs (OpenBuildpackURL H u c)"
  unfolding OpenBuildpackURL_def Get_def
  by (intro no_runs.within_intros no_runs_Do quiet_no_runs [OF quiet_NewRequest])

lemma no_runs_installFromArchive: "no_runs (installFromArchive H b bp dest)"
  unfolding installFromArchive_def fetch_buildpack_def unpack_buildpack_def
  by (intro no_runs.within_intros no_runs_OpenBuildpackURL; rule quiet_no_runs, rule effect_intros)

lemma returns_Extract: "returns (Extract H limit src targetDir)"
  unfolding Extract_def OpenReader_def extract_entry_def extractFile_def Open_entry_def io_CopyN_def
  by (intro returns_intros returns_basic_os returns_dirs returns_io_Copy)

lemma returns_installFromArchive: "returns (installFromArchive H b bp dest)"
  unfolding installFromArchive_def fetch_buildpack_def unpack_buildpack_def OpenBuildpackURL_def
  by (intro returns_intros returns_basic_os returns_dirs returns_compound returns_Extract)

text \<open>The requests for a buildpack: the internal client asks first, the default client only after its
  failure. What arrived is the complete body of a response with status 200 to the last of them.\<close>

definition fetch_requests :: "BuildpackManager \<Rightarrow> string \<Rightarrow> (http_client \<times> http_request) list \<Rightarrow> bool" where
  "fetch_requests b u qs \<longleftrightarrow> qs = [(mgr_internalClient b, get_request u)] \<or>
     qs = [(mgr_internalClient b, get_request u), (mgr_defaultClient b, get_request u)]"

definition delivered :: "host \<Rightarrow> (http_client \<times> http_request) list \<Rightarrow> string \<Rightarrow> bool" where
  "delivered H qs bytes \<longleftrightarrow> (\<exists>n body. h_http H n (fst (last qs)) (snd (last qs)) = Inr (StatusOK, body) \<and>
     ReadAll body = Inr bytes)"

lemma OpenBuildpackURL_cases:
  assumes "run_state (OpenBuildpackURL H u c) w = (r, w')"
  shows "fs w' = fs w \<and> returned r \<and>
    (case h_urlParse H u of
       Inl s \<Rightarrow> sent w' = sent w \<and> \<not> is_Ok r
     | Inr v \<Rightarrow> sent w' = sent w @ [(c, get_request u)]) \<and>
    (\<forall>bytes. r = Ok bytes \<longrightarrow> delivered H [(c, get_request u)] bytes)"
  using assms
  by (auto simp: OpenBuildpackURL_def Get_def NewRequest_def Do_def get_request_def sent_def delivered_def
      split: sum.splits if_splits; blast)

lemma fetch_buildpack_cases:
  assumes run: "run_state (fetch_buildpack H b u) w = (r, w')"
  shows "fs w' = fs w \<and> returned r \<and> (\<forall>e. r = Err e \<longrightarrow> \<not> as_NotZipFileError e) \<and>
    (\<forall>bytes. r = Ok bytes \<longrightarrow> (\<exists>qs. sent w' = sent w @ qs \<and> fetch_requests b u qs \<and> delivered H qs bytes))"
proof -
  obtain r1 w1 where 1: "run_state (OpenBuildpackURL H u (mgr_internalClient b)) w = (r1, w1)" by fastforce
  note c1 = OpenBuildpackURL_cases [OF 1]
  show ?thesis
  proof (cases r1)
    case (Ok bytes)
    with run 1 have "r = Ok bytes" "w' = w1" by (simp_all add: fetch_buildpack_def)
    with c1 Ok show ?thesis by (cases "h_urlParse H u") (auto simp: fetch_requests_def)
  next
    case (Err e)
    obtain r2 w2 where 2: "run_state (OpenBuildpackURL H u (mgr_defaultClient b)) w1 = (r2, w2)" by fastforce
    note c2 = OpenBuildpackURL_cases [OF 2]
    let ?q = "(mgr_internalClient b, get_request u)" and ?q' = "(mgr_defaultClient b, get_request u)"
    have "r = (case r2 of Err e2 \<Rightarrow> Err (Wrap e (''default client also failed: '' @ Error e2)) | x \<Rightarrow> x)" "w' = w2"
      using run 1 2 Err c2 by (auto simp: fetch_buildpack_def split: result.splits)
    moreover have "sent w2 = sent w @ [?q, ?q'] \<and> delivered H [?q, ?q'] bytes" if "r2 = Ok bytes" for bytes
      using c1 c2 that by (cases "h_urlParse H u") (auto simp: delivered_def)
    ultimately show ?thesis using c1 c2 by (cases r2) (auto simp: fetch_requests_def)
  qed (use c1 in auto)
qed

text \<open>What comes before the extraction: the archive in a temporary file, and the directory of the
  buildpack.\<close>

definition prepare_archive ::
  "host \<Rightarrow> BuildpackManager \<Rightarrow> Buildpack \<Rightarrow> string \<Rightarrow> ('x world_scheme, string \<times> string) go" where
  "prepare_archive H b buildpack dest =
     attempt (TempDir H ''buildpacks'') id (\<lambda>tmpDir.
     attempt (fetch_buildpack H b (bp_URL buildpack)) id (\<lambda>bytes. do {
       i \<leftarrow> get clock;
       let src = Join [tmpDir, zip_name (h_nanos H i)];
       attempt (WriteFile H src bytes perm_0644) id (\<lambda>_.
       attempt (MkdirAll H dest perm_0777) id (\<lambda>_. ok (src, bytes))) }))"

lemma mkdir_rec_keeps: "keeping (mkdir_rec H m r rc)"
  by (induction rc) (auto simp: unless_dir_def mkdir_one_def intro!: keeping.within_intros Mkdir_keeps look_keeps)

lemma MkdirAll_keeps: "keeping (MkdirAll H p m)"
  unfolding MkdirAll_def by (intro keeping.within_intros mkdir_rec_keeps)

text \<open>No system call fails with an error that counts as "not a zip file".\<close>

abbreviation plain_errs :: "('w, 'a) go \<Rightarrow> bool" where
  "plain_errs \<equiv> errs (\<lambda>e. \<not> as_NotZipFileError e)"

lemma errs_handled:
  assumes "errs Q m" "\<And>e. Q e \<Longrightarrow> errs P (h e)" "\<And>x. errs P (k x)"
  shows "errs P (on_err m h k)"
  using assms by (fastforce simp: errs_def split: prod.splits result.splits)

lemma plain_errs_syscall: "plain_errs (syscall H op p act)"
  by (rule errsI) (auto simp: syscall_def Let_def split: option.splits sum.splits prod.splits if_splits)

lemma plain_errs_os:
  "plain_errs (Stat H p)" "plain_errs (Mkdir H p m)" "plain_errs (OpenCreate H p m)" "plain_errs (Write H p s)"
  by (simp_all add: Stat_def Mkdir_def OpenCreate_def Write_def plain_errs_syscall)

lemma plain_errs_WriteFile: "plain_errs (WriteFile H p s m)"
  unfolding WriteFile_def by (intro errs_attempt [OF plain_errs_os(3)] plain_errs_os(4)) simp

lemma plain_errs_mkdir_one: "plain_errs (mkdir_one H m p)"
  unfolding mkdir_one_def
  by (intro errs_handled [OF plain_errs_os(2)] errs_on_err errs_cases errs_basic)

lemma plain_errs_unless_dir: "plain_errs m \<Longrightarrow> plain_errs (unless_dir H p m)"
  unfolding unless_dir_def by (intro errs_on_err errs_cases errs_basic) simp_all

lemma plain_errs_mkdir_rec: "plain_errs (mkdir_rec H m r rc)"
proof (induction rc)
  case Nil
  show ?case unfolding mkdir_rec.simps by (intro plain_errs_unless_dir plain_errs_mkdir_one)
next
  case (Cons x xs)
  show ?case
    unfolding mkdir_rec.simps
    by (intro plain_errs_unless_dir errs_cases plain_errs_mkdir_one errs_attempt [OF Cons.IH]) simp
qed

lemma plain_errs_MkdirAll: "plain_errs (MkdirAll H p m)"
  unfolding MkdirAll_def by (intro errs_cases plain_errs_mkdir_rec errs_basic) simp

lemma plain_errs_tempdir: "\<not> as_NotZipFileError e \<Longrightarrow> plain_errs (tempdir_try H n d pre e)"
proof (induction n arbitrary: e)
  case 0
  then show ?case by (subst tempdir_try.simps) (simp add: errs_basic)
next
  case (Suc n)
  show ?case
    by (subst tempdir_try.simps, unfold Let_def)
      (auto intro!: errs_bind errs_handled [OF plain_errs_os(2)] errs_handled [OF plain_errs_os(1)] errs_cases errs_basic Suc.IH)
qed

lemma plain_errs_TempDir: "plain_errs (TempDir H pre)"
  by (simp add: TempDir_def plain_errs_tempdir)

text \<open>The state after the extraction, successful or not, and the removal of the archive.\<close>

lemma installFromArchive_cases:
  assumes run: "run_state (installFromArchive H b bp dest) w = (ra, wa)"
    and prep: "run_state (prepare_archive H b bp dest) w = (p, v)"
  obtains (Unprepared) e e' where "p = Err e" "ra = Err e'" "\<not> as_NotZipFileError e'"
    | (Prepared) qs src bytes m x v' where "p = Ok (src, bytes)" "sent v = sent w @ qs" "fetch_requests b (bp_URL bp) qs"
      "delivered H qs bytes" "lookup (fs v) (resolve H src) = Some (File m bytes)"
      "run_state (Extract H (mgr_limit b) src dest) v = (x, v')" "wa = snd (run_state (Remove H src) v')"
      "x = Ok () \<and> ra = Ok () \<or> (\<exists>e. x = Err e \<and> ra = Err (NotZipFileError e))"
proof -
  obtain r1 w1 where 1: "run_state (TempDir H ''buildpacks'') w = (r1, w1)" by fastforce
  have s1: "sent w1 = sent w" by (rule offline_eq [OF quiet_offline 1]) (rule effect_intros)
  have "returns (TempDir H ''buildpacks'' :: ('a world_scheme, string) go)" by simp
  then show thesis using 1
  proof (rule returnsE)
    fix e assume "r1 = Err e"
    with run prep 1 show thesis
      by (intro Unprepared [of e "ErrorfW ''temp dir creation failed'' e"]) (simp_all add: installFromArchive_def prepare_archive_def errsD [OF plain_errs_TempDir])
  next
    fix tmp assume r1: "r1 = Ok tmp"
    obtain r2 w2 where 2: "run_state (fetch_buildpack H b (bp_URL bp)) w1 = (r2, w2)" by fastforce
    note f = fetch_buildpack_cases [OF 2]
    show thesis
    proof (cases r2)
      case (Err e)
      with run prep 1 2 r1 f show thesis
        by (intro Unprepared [of e e]) (simp_all add: installFromArchive_def prepare_archive_def)
    next
      case (Ok bytes)
      with f obtain qs where qs: "sent w2 = sent w @ qs" "fetch_requests b (bp_URL bp) qs" "delivered H qs bytes"
        using s1 by auto
      let ?file = "Join [tmp, zip_name (h_nanos H (clock w2))]"
      obtain r3 w3 where 3: "run_state (WriteFile H ?file bytes perm_0644) w2 = (r3, w3)" by fastforce
      have s3: "sent w3 = sent w2" by (rule offline_eq [OF quiet_offline 3]) (rule effect_intros)
      have "returns (WriteFile H ?file bytes perm_0644 :: ('a world_scheme, unit) go)" by simp
      then show thesis using 3
      proof (rule returnsE)
        fix e assume "r3 = Err e"
        with run prep 1 2 3 r1 Ok show thesis
          by (intro Unprepared [of e "ErrorfW ''failed to write buildpack zip'' e"])
            (simp_all add: installFromArchive_def prepare_archive_def unpack_buildpack_def Let_def errsD [OF plain_errs_WriteFile])
      next
        fix u3 assume r3: "r3 = Ok u3"
        from 3 [unfolded r3] obtain m where m: "lookup (fs w3) (resolve H ?file) = Some (File m bytes)" by (rule WriteFile_OkE)
        obtain r4 w4 where 4: "run_state (MkdirAll H dest perm_0777) w3 = (r4, w4)" by fastforce
        have s4: "sent w4 = sent w3" by (rule offline_eq [OF quiet_offline 4]) (rule effect_intros)
        have k4: "lookup (fs w4) (resolve H ?file) = Some (File m bytes)"
          using state_io_relD [OF MkdirAll_keeps 4] m by (auto simp: keeps_def)
        have "returns (MkdirAll H dest perm_0777 :: ('a world_scheme, unit) go)" by (rule returns_dirs)
        then show thesis using 4
        proof (rule returnsE)
          fix e assume "r4 = Err e"
          with run prep 1 2 3 4 r1 r3 Ok show thesis
            by (intro Unprepared [of e "ErrorfW ''failed to create buildpack directory'' e"])
              (simp_all add: installFromArchive_def prepare_archive_def unpack_buildpack_def Let_def errsD [OF plain_errs_MkdirAll])
        next
          fix u4 assume r4: "r4 = Ok u4"
          with prep 1 2 3 4 r1 r3 Ok have p: "p = Ok (?file, bytes)" "v = w4" by (simp_all add: prepare_archive_def Let_def)
          obtain x v' where 5: "run_state (Extract H (mgr_limit b) ?file dest) w4 = (x, v')" by fastforce
          have wa: "wa = snd (run_state (Remove H ?file) v') \<and>
              (x = Ok () \<and> ra = Ok () \<or> (\<exists>e. x = Err e \<and> ra = Err (NotZipFileError e)))"
            using returns_Extract 5
          proof (rule returnsE)
          qed (use run 1 2 3 4 5 r1 r3 r4 Ok in \<open>simp_all add: installFromArchive_def unpack_buildpack_def\<close>)
          show thesis
            by (rule Prepared [OF p(1) _ qs(2,3) _ 5 [folded p(2)]]) (use wa p qs(1) s3 s4 k4 in simp_all)
        qed
      qed
    qed (use f in auto)
  qed
qed

lemma no_runs_prepare: "no_runs (prepare_archive H b bp dest)"
  unfolding prepare_archive_def fetch_buildpack_def Let_def
  by (intro no_runs.within_intros no_runs_OpenBuildpackURL; rule quiet_no_runs, rule effect_intros)

text \<open>What was fetched: the requests, and the complete body, which is in the temporary file.\<close>

definition fetched_zip ::
  "host \<Rightarrow> BuildpackManager \<Rightarrow> string \<Rightarrow> 'x world_scheme \<Rightarrow> 'x world_scheme \<Rightarrow> string \<Rightarrow> string \<Rightarrow> bool" where
  "fetched_zip H b u w v src bytes \<longleftrightarrow>
     (\<exists>qs m. sent v = sent w @ qs \<and> fetch_requests b u qs \<and> delivered H qs bytes \<and>
        lookup (fs v) (resolve H src) = Some (File m bytes))"

lemma install_buildpack_cases:
  assumes run: "run_state (install_buildpack H b bp) w = (r, w')"
    and dest: "dest = BuildpackPath (mgr_buildpackDir b) (bp_Name bp)"
    and prep: "run_state (prepare_archive H b bp dest) w = (p, v)"
  obtains (Unprepared) e e' where "p = Err e" "r = Err e'" "runs w' = runs w"
    | (Archive) src bytes v' where "p = Ok (src, bytes)" "fetched_zip H b (bp_URL bp) w v src bytes"
      "run_state (Extract H (mgr_limit b) src dest) v = (Ok (), v')" "r = Ok ()" "runs w' = runs w"
      "run_state (ignoring (Remove H src)) v' = ((), w')"
    | (Clone) src bytes e v' wa where "p = Ok (src, bytes)" "fetched_zip H b (bp_URL bp) w v src bytes"
      "run_state (Extract H (mgr_limit b) src dest) v = (Err e, v')" "runs wa = runs w"
      "run_state (ignoring (Remove H src)) v' = ((), wa)"
      "case h_urlParse H (bp_URL bp) of
         Inl s \<Rightarrow> (\<exists>e'. r = Err e') \<and> w' = wa
       | Inr repo \<Rightarrow> run_state (GitClone H repo dest) wa = (r, w')"
proof -
  obtain ra wa where 1: "run_state (installFromArchive H b bp dest) w = (ra, wa)" by fastforce
  have q: "runs wa = runs w" by (rule no_runs_eq [OF no_runs_installFromArchive 1])
  from 1 prep show thesis
  proof (cases rule: installFromArchive_cases)
    case (Unprepared e e')
    with run 1 q show thesis by (intro that(1) [of e e']) (simp_all add: install_buildpack_def Let_def dest)
  next
    case (Prepared qs src bytes m x v')
    then have f: "fetched_zip H b (bp_URL bp) w v src bytes" unfolding fetched_zip_def by blast
    have rm: "run_state (ignoring (Remove H src)) v' = ((), wa)" using Prepared by simp
    from Prepared(8) show thesis
    proof (elim disjE conjE exE)
      assume "x = Ok ()" "ra = Ok ()"
      with run 1 q Prepared f rm show thesis
        by (intro that(2) [of src bytes v']) (simp_all add: install_buildpack_def Let_def dest)
    next
      fix e assume e: "x = Err e" "ra = Err (NotZipFileError e)"
      with run 1 have "case h_urlParse H (bp_URL bp) of
         Inl s \<Rightarrow> (\<exists>e'. r = Err e') \<and> w' = wa
       | Inr repo \<Rightarrow> run_state (GitClone H repo dest) wa = (r, w')"
        by (auto simp: install_buildpack_def Let_def dest split: sum.splits)
      with e Prepared f q rm show thesis by (intro that(3)) simp_all
    qed
  qed
qed

text \<open>C22: What installing a buildpack comes to is decided by its archive. When the archive could not be
  prepared, because no temporary file, no download or no directory could be had, the error is
  returned and no program is run. Otherwise the temporary file holds the complete body of a
  response with status 200, and its extraction decides: after a successful one the installation
  has succeeded without any program, and only after a failed one the URL is cloned into the
  directory of the buildpack.\<close>

theorem install_buildpack_outcome:
  "case run_state (install_buildpack H b bp) w of (r, w') \<Rightarrow>
     let dest = BuildpackPath (mgr_buildpackDir b) (bp_Name bp) in
     case run_state (prepare_archive H b bp dest) w of (p, v) \<Rightarrow>
       (case p of
          Err e \<Rightarrow> (\<exists>e'. r = Err e') \<and> runs w' = runs w
        | Ok (src, bytes) \<Rightarrow>
            (\<exists>qs m. sent v = sent w @ qs \<and> fetch_requests b (bp_URL bp) qs \<and> delivered H qs bytes \<and>
               lookup (fs v) (resolve H src) = Some (File m bytes)) \<and>
            (case fst (run_state (Extract H (mgr_limit b) src dest) v) of
               Ok u \<Rightarrow> r = Ok () \<and> runs w' = runs w
             | Err e \<Rightarrow>
                 (case h_urlParse H (bp_URL bp) of
                    Inl s \<Rightarrow> (\<exists>e'. r = Err e') \<and> runs w' = runs w
                  | Inr repo \<Rightarrow> \<exists>git rs. runs w' = runs w @ rs \<and> clone_result git repo dest rs r)
             | _ \<Rightarrow> False)
        | _ \<Rightarrow> False)"
proof -
  define dest where "dest = BuildpackPath (mgr_buildpackDir b) (bp_Name bp)"
  obtain r w' where run: "run_state (install_buildpack H b bp) w = (r, w')" by fastforce
  obtain p v where prep: "run_state (prepare_archive H b bp dest) w = (p, v)" by fastforce
  note goal = run prep prod.case Let_def dest_def [symmetric]
  from run dest_def prep show ?thesis
  proof (cases rule: install_buildpack_cases)
    case (Unprepared e e')
    then show ?thesis unfolding goal by simp
  next
    case (Archive src bytes v')
    then show ?thesis unfolding goal fetched_zip_def by simp
  next
    case (Clone src bytes e v' wa)
    have "case h_urlParse H (bp_URL bp) of
        Inl s \<Rightarrow> (\<exists>e'. r = Err e') \<and> runs w' = runs w
      | Inr repo \<Rightarrow> \<exists>git rs. runs w' = runs w @ rs \<and> clone_result git repo dest rs r"
    proof (cases "h_urlParse H (bp_URL bp)")
      case (Inr repo)
      with Clone GitClone_cases [of H repo dest wa r w'] show ?thesis by simp
    qed (use Clone in simp)
    with Clone show ?thesis unfolding goal fetched_zip_def by simp
  qed
qed

section \<open>Archives above the limit\<close>

lemma Extract_Ok_limit:
  assumes "run_state (Extract H limit src dest) w = (Ok (), w')"
    and "lookup (fs w) (resolve H src) = Some (File m bytes)"
  shows "\<exists>es. h_zip H bytes = Inr es \<and> (\<forall>f\<in>set es. \<not> ze_isDir f \<longrightarrow> length (fst (drain (ze_data f))) < limit)"
proof -
  from assms(1) have "run_state (attempt (OpenReader H src) (ErrorfW ''failed to open zip reader'')
      (for_each (extract_entry H limit dest))) w = (Ok (), w')" unfolding Extract_def by (simp split: if_splits)
  then obtain es w1 where 1: "run_state (OpenReader H src) w = (Ok es, w1)"
    and 2: "run_state (for_each (extract_entry H limit dest) es) w1 = (Ok (), w')"
    unfolding attempt_Ok by (elim exE conjE) (rule that)
  have "length (fst (drain (ze_data f))) < limit" if "f \<in> set es" "\<not> ze_isDir f" for f
    using 2 that
  proof (induction es arbitrary: w1)
    case (Cons g es)
    from Cons.prems(1) obtain w2 where g: "run_state (extract_entry H limit dest g) w1 = (Ok (), w2)"
      and rest: "run_state (for_each (extract_entry H limit dest) es) w2 = (Ok (), w')"
      unfolding for_each_Cons_Ok by blast
    show ?case
    proof (cases "f = g")
      case True
      with g Cons.prems(3) have "run_state (extractFile H limit f (dest_path dest f)) w1 = (Ok (), w2)"
        by (simp add: extract_entry_def)
      from extractFile_cases [OF this] show ?thesis by simp
    next
      case False
      with Cons.IH [OF rest _ Cons.prems(3)] Cons.prems(2) show ?thesis by simp
    qed
  qed simp
  with OpenReader_entries [OF 1] assms(2) show ?thesis by auto
qed

definition oversized :: "host \<Rightarrow> nat \<Rightarrow> string \<Rightarrow> bool" where
  "oversized H limit bytes \<longleftrightarrow> (case h_zip H bytes of Inl s \<Rightarrow> True
     | Inr es \<Rightarrow> list_ex (\<lambda>f. \<not> ze_isDir f \<and> limit \<le> length (fst (drain (ze_data f)))) es)"

text \<open>C33: Every error of the extraction counts as "not a zip file". So for a URL that only ever delivers
  archives with a file at or above the size limit, an installation that reports success has run
  \<^verbatim>\<open>git clone\<close> on the URL: nothing of the archive was checked or refused for good.\<close>

theorem oversized_archive_is_cloned:
  assumes "run_state (install_buildpack H b bp) w = (Ok (), w')"
    and "\<And>n c body bytes. h_http H n c (get_request (bp_URL bp)) = Inr (StatusOK, body) \<Longrightarrow>
      ReadAll body = Inr bytes \<Longrightarrow> oversized H (mgr_limit b) bytes"
  shows "\<exists>git repo. h_urlParse H (bp_URL bp) = Inr repo \<and>
    (let dest = BuildpackPath (mgr_buildpackDir b) (bp_Name bp) in
      runs w' = runs w @ [(shallow_clone git repo dest, True)] \<or>
      runs w' = runs w @ [(shallow_clone git repo dest, False), (full_clone git repo dest, True)])"
proof -
  define dest where "dest = BuildpackPath (mgr_buildpackDir b) (bp_Name bp)"
  obtain p v where prep: "run_state (prepare_archive H b bp dest) w = (p, v)" by fastforce
  from assms(1) dest_def prep show ?thesis
  proof (cases rule: install_buildpack_cases)
    case (Archive src bytes v')
    from Archive(2) obtain qs m where q: "fetch_requests b (bp_URL bp) qs" "delivered H qs bytes"
      and f: "lookup (fs v) (resolve H src) = Some (File m bytes)" unfolding fetched_zip_def by blast
    have "oversized H (mgr_limit b) bytes" using q assms(2) by (auto simp: fetch_requests_def delivered_def)
    with Extract_Ok_limit [OF Archive(3) f] have False by (fastforce simp: oversized_def list_ex_iff)
    then show ?thesis ..
  next
    case (Clone src bytes e v' wa)
    then obtain repo where repo: "h_urlParse H (bp_URL bp) = Inr repo" "run_state (GitClone H repo dest) wa = (Ok (), w')"
      by (auto split: sum.splits)
    from GitClone_cases [OF repo(2)] Clone(4) repo(1) show ?thesis
      unfolding dest_def [symmetric] Let_def clone_result_def by auto
  qed simp
qed

definition small_manager :: BuildpackManager where
  "small_manager = \<lparr>mgr_internalClient = DefaultClient, mgr_defaultClient = DefaultClient,
     mgr_buildpackDir = ''/bp'', mgr_buildpacksJSON = '''', mgr_limit = 3\<rparr>"

definition zip_buildpack :: Buildpack where
  "zip_buildpack = \<lparr>bp_Name = ''a'', bp_Key = ''k'', bp_URL = ''http://h/b.zip'', bp_SkipDetect = False\<rparr>"

lemma oversized_archive_is_cloned_witness:
  "\<exists>w' git. run_state (install_buildpack (zip_host ''x'') small_manager zip_buildpack) sample_world = (Ok (), w') \<and>
    (shallow_clone git \<lparr>url_base = ''http://h/b.zip'', Fragment = ''''\<rparr> ''/bp/0cc175b9c0f1b6a831c399e269772661'')
      \<in> fst ` set (runs w')"
proof -
  have "fst (run_state (install_buildpack (zip_host ''x'') small_manager zip_buildpack) sample_world) = Ok ()" by code_simp
  then obtain w' where run: "run_state (install_buildpack (zip_host ''x'') small_manager zip_buildpack) sample_world = (Ok (), w')"
    by (rule run_fst)
  have "oversized (zip_host ''x'') (mgr_limit small_manager) bytes" for bytes
    by (simp add: oversized_def zip_host_def small_manager_def sample_entry_def)
  from oversized_archive_is_cloned [OF run this] obtain git repo where
    repo: "h_urlParse (zip_host ''x'') (bp_URL zip_buildpack) = Inr repo"
    and c: "shallow_clone git repo (BuildpackPath (mgr_buildpackDir small_manager) (bp_Name zip_buildpack)) \<in> fst ` set (runs w')"
    unfolding Let_def by (elim exE conjE disjE) (force intro: that)+
  have "repo = \<lparr>url_base = ''http://h/b.zip'', Fragment = ''''\<rparr>"
    using repo by (simp add: zip_host_def sample_host_def zip_buildpack_def)
  moreover have "BuildpackPath (mgr_buildpackDir small_manager) (bp_Name zip_buildpack) = ''/bp/0cc175b9c0f1b6a831c399e269772661''"
    by code_simp
  ultimately show ?thesis using run c by metis
qed

end
