(* ===== verification/Processes.thy ===== *)
theory Processes
  imports Pipeline Reports Clones
begin

text \<open>
  The executor, uploader and downloader as processes: the exit status they end with, what they
  have run and what they have reported by then.
\<close>

section \<open>The runner sends nothing\<close>

lemma offline_logError: "offline (logError s)"
  unfolding logError_def by (intro offline.within_effect offline_log)

lemma offline_run_cmd: "offline (run_cmd H c)"
  unfolding run_cmd_def by (intro offline.within_intros offline_Run_cmd)

lemma offline_fileExists: "offline (hasSupply H p)" "offline (hasFinalize H p)"
  by (rule quiet_offline, rule quiet_has)+

lemma offline_supply: "offline (runSupplyBuildpacks H C)"
  unfolding runSupplyBuildpacks_def validateSupplyBuildpacks_def validateSupplyBuildpack_def
    runSupplyBuildpack_def finalBuildpack_def
  by (intro offline.within_intros offline_logError offline_run_cmd offline_fileExists;
      rule quiet_offline, rule effect_intros)

lemma offline_detect_from: "offline (detect_from H C bps)"
proof (induction bps)
  case Nil
  show ?case by (simp add: offline.within_fail)
next
  case (Cons bp bps)
  show ?case
    unfolding detect_from.simps Let_def detected_def warnIfDetectNotExecutable_def
    by (intro Cons.IH offline.within_intros offline_logError offline_Run_cmd offline_log;
        rule quiet_offline, rule effect_intros)
qed

lemma offline_finalize: "offline (runFinalize H C path)"
  unfolding runFinalize_def handleFinalize_def handleNoFinalize_def handleSupply_def
  by (intro offline.within_intros offline_logError offline_run_cmd offline_fileExists;
      rule quiet_offline, rule effect_intros)

lemma offline_release: "offline (release H C path)"
  unfolding release_def readProcfile_def parse_release_def warn_no_start_command_def
  by (intro offline.within_intros offline_logError offline_Run_cmd; rule quiet_offline, rule effect_intros)

lemma offline_build: "offline (build_droplet H C md rel)"
  unfolding build_droplet_def writeStagingInfoYML_def findTar_def createArtifacts_def createCache_def
    saveInfo_def copyApp_def
  by (intro offline.within_intros offline_log offline_Run_cmd; rule quiet_offline, rule effect_intros)

lemma offline_Run: "offline (Run H C)"
  unfolding Run_def supplyOrDetect_def detect_def compile_and_release_def
  by (intro offline.within_intros offline_supply offline_detect_from offline_finalize offline_release
      offline_build offline_log silent_offline [OF silent_makeDirectories] quiet_offline [OF quiet_cleanCacheDir]
      quiet_offline [OF quiet_metadata])

section \<open>The executor\<close>

lemma sent_NewRunner [simp]: "sent (NewRunner w) = sent w" and runs_NewRunner [simp]: "runs (NewRunner w) = runs w"
  by (simp_all add: NewRunner_def sent_def runs_def world.defs)

lemma sent_truncate [simp]: "sent (world.truncate w) = sent w"
  and runs_truncate [simp]: "runs (world.truncate w) = runs w"
  by (simp_all add: sent_def runs_def world.defs)

lemma quiet_CleanUp: "quiet (CleanUp H)"
  unfolding CleanUp_def by (intro quiet.within_intros effect_intros)

text \<open>\<open>staging d rs code\<close>: the programs \<open>rs\<close> are those of an execution of the abstract machine
  that ends with the exit code.\<close>

definition staging :: "host \<Rightarrow> Config \<Rightarrow> (command \<times> bool) list \<Rightarrow> int \<Rightarrow> bool" where
  "staging H C rs code \<longleftrightarrow> (\<exists>d. phases H C d Started rs (if code = 0 then Staged else Stopped code))"

lemma staging_code: "staging H C rs code \<Longrightarrow> code \<in> insert 0 failure_codes"
  unfolding staging_def by (cases "code = 0") (auto dest: phases_codes)

lemma staging_none: "staging H C [] 1"
  using phases_one [OF set_up_fails] by (auto simp: staging_def)

lemma execute_cases:
  assumes run: "run_state (execute H C) w = (r, w')" and C: "SkipDetect C \<Longrightarrow> BuildpackOrder C \<noteq> []"
  shows "sent w' = sent w \<and> (\<exists>rs. runs w' = runs w @ rs \<and>
    (r = Ok () \<and> staging H C rs 0 \<or> (\<exists>e. r = Err e \<and> exit_code e \<noteq> 0 \<and> staging H C rs (exit_code e))))"
proof -
  obtain r1 s where 1: "run_state (Run H C) (NewRunner w) = (r1, s)" by fastforce
  obtain v where 2: "run_state (CleanUp H) s = ((), v)" by (metis surj_pair old.unit.exhaust)
  have q: "runs v = runs s" "sent v = sent s"
    using no_runs_eq [OF quiet_no_runs [OF quiet_CleanUp] 2] offline_eq [OF quiet_offline [OF quiet_CleanUp] 2] .
  have o: "sent s = sent w" using offline_eq [OF offline_Run 1] by simp
  from Run_cases [OF 1] obtain rs where rs: "runs s = runs w @ rs"
    and r1: "case r1 of Ok u \<Rightarrow> phases H C (dirs_of s) Started rs Staged
       | Err e \<Rightarrow> phases H C (dirs_of s) Started rs (Stopped (exit_code e))
       | Panic s \<Rightarrow> SkipDetect C \<and> BuildpackOrder C = [] | Exit n \<Rightarrow> False" by auto
  show ?thesis
  proof (cases r1)
    case (Ok x)
    with r1 Ok have "staging H C rs 0" unfolding staging_def by (intro exI [of _ "dirs_of s"]) simp
    with Ok run 1 2 q o rs show ?thesis by (auto simp: execute_def)
  next
    case (Err e)
    then have "exit_code e \<in> failure_codes" using r1 phases_codes by fastforce
    then have c: "exit_code e \<noteq> 0" by (auto simp: failure_codes_def)
    with Err r1 have "staging H C rs (exit_code e)" unfolding staging_def by (intro exI [of _ "dirs_of s"]) simp
    with c Err run 1 2 q o rs show ?thesis by (auto simp: execute_def)
  qed (use r1 C in auto)
qed

text \<open>A failure report, or none for an address that is no URL.\<close>

definition report :: "host \<Rightarrow> Responder \<Rightarrow> go_error \<Rightarrow> (http_client \<times> http_request) list" where
  "report H r e = (if reportable H r then [(resp_client r, failure_request r e)] else [])"

lemma respond_with_cases:
  assumes "run_state (respond_with H r code e) w = (res, w')"
  shows "res = Ok code \<and> runs w' = runs w \<and> sent w' = sent w @ report H r (Wrap e ExitReason)"
proof -
  obtain r1 w1 where 1: "run_state (RespondWithFailure H r (Wrap e ExitReason)) w = (r1, w1)" by fastforce
  from RespondWithFailure_cases [OF this] assms 1 show ?thesis
    by (auto simp: respond_with_def report_def)
qed

text \<open>What the executor has done when it ends with a code, for a configuration and a responder.\<close>

definition executed :: "host \<Rightarrow> Config \<Rightarrow> Responder \<Rightarrow> world \<Rightarrow> world \<Rightarrow> int \<Rightarrow> bool" where
  "executed H C r w w' code \<longleftrightarrow>
     (\<exists>rs. runs w' = runs w @ rs \<and> staging H C rs code) \<and>
     (if code = 0 then sent w' = sent w else \<exists>e. sent w' = sent w @ report H r e)"

lemma InitBuildpacks_order:
  "InitBuildpacks H json s = Inr C \<Longrightarrow> \<not> SkipDetect s \<Longrightarrow> SkipDetect C \<Longrightarrow> BuildpackOrder C \<noteq> []"
  by (auto dest!: InitBuildpacks_Inr)

lemma stage_cases:
  assumes run: "run_state (stage H r json s) w = (res, w')" and s: "\<not> SkipDetect s"
  shows "\<exists>code C. res = Ok code \<and> executed H C r w w' code \<and> (code = 0 \<longrightarrow> InitBuildpacks H json s = Inr C)"
proof (cases "InitBuildpacks H json s")
  case (Inl e)
  with run have "run_state (respond_with H r 1 e) w = (res, w')" by (simp add: stage_def)
  from respond_with_cases [OF this] staging_none show ?thesis
    by (auto simp: executed_def)
next
  case (Inr C)
  obtain r1 w1 where 1: "run_state (execute H C) w = (r1, w1)" by fastforce
  from execute_cases [OF 1] InitBuildpacks_order [OF Inr s] obtain rs where
    "sent w1 = sent w" "runs w1 = runs w @ rs"
    "r1 = Ok () \<and> staging H C rs 0 \<or> (\<exists>e. r1 = Err e \<and> exit_code e \<noteq> 0 \<and> staging H C rs (exit_code e))" by blast
  note c = this
  from c(3) show ?thesis
  proof (elim disjE conjE exE)
    assume "r1 = Ok ()" "staging H C rs 0"
    with run 1 c Inr show ?thesis by (auto simp: stage_def executed_def)
  next
    fix e assume e: "r1 = Err e" "exit_code e \<noteq> 0" "staging H C rs (exit_code e)"
    with run 1 Inr have "run_state (respond_with H r (exit_code e) e) w1 = (res, w')" by (simp add: stage_def)
    from respond_with_cases [OF this] c e show ?thesis by (auto simp: executed_def)
  qed
qed

lemma MustGetEnv_cases:
  assumes "run_state (MustGetEnv H n) w = (r, w')"
  shows "(case h_env H n of Some v \<Rightarrow> r = Ok v | None \<Rightarrow> r = Exit 1) \<and>
    runs w' = runs w \<and> sent w' = sent w \<and> fs w' = fs w"
  using assms
  by (auto simp: MustGetEnv_def log_Fatal_def log_Println_def emit_def runs_def sent_def split: option.splits)

text \<open>The responder that a process creates from its environment.\<close>

definition own_responder :: "host \<Rightarrow> Responder \<Rightarrow> bool" where
  "own_responder H r \<longleftrightarrow> stagingGUID r = Getenv H EnvStagingGUID \<and>
     completionCallback r = Getenv H EnvCompletionCallback \<and> eiriniAddr r = Getenv H EnvEiriniAddress"

lemma CreateResponder_cases:
  assumes "run_state (CreateResponder H certPath) w = (r, w')"
  shows "(\<exists>resp. r = Ok resp \<and> own_responder H resp) \<and> runs w' = runs w \<and> sent w' = sent w \<and> fs w' = fs w"
  using assms
  by (auto simp: CreateResponder_def NewResponder_def CreateTLSHTTPClient_def own_responder_def
      log_Println_def emit_def runs_def sent_def Let_def split: option.splits)

lemma extract_app_effects: "quiet (extract_app H dir)" "returns (extract_app H dir)"
  unfolding extract_app_def
  by (intro quiet.within_intros effect_intros, intro returns_intros returns_dirs returns_Extract)

lemma executor_body_cases:
  assumes run: "run_state (executor_body H) w = (r, w')"
  shows "if h_env H EnvOutputBuildArtifactsCache = None \<or> h_env H EnvBuildArtifactsCacheDir = None
    then r = Exit 1 \<and> runs w' = runs w \<and> sent w' = sent w
    else \<exists>code C resp dir. r = Ok code \<and> own_responder H resp \<and> executed H C resp w w' code \<and>
      (code = 0 \<longrightarrow> InitBuildpacks H (Getenv H EnvBuildpacks) (executor_config H
         (Getenv H EnvOutputBuildArtifactsCache) (Getenv H EnvBuildArtifactsCacheDir) dir) = Inr C)"
proof (cases "h_env H EnvOutputBuildArtifactsCache = None \<or> h_env H EnvBuildArtifactsCacheDir = None")
  case True
  obtain r1 w1 where 1: "run_state (MustGetEnv H EnvOutputBuildArtifactsCache) w = (r1, w1)" by fastforce
  obtain r2 w2 where 2: "run_state (MustGetEnv H EnvBuildArtifactsCacheDir) w1 = (r2, w2)" by fastforce
  from MustGetEnv_cases [OF 1] MustGetEnv_cases [OF 2] True run 1 2 show ?thesis
    by (auto simp: executor_body_def Let_def split: option.splits)
next
  case False
  then obtain out cache where env: "h_env H EnvOutputBuildArtifactsCache = Some out"
    "h_env H EnvBuildArtifactsCacheDir = Some cache" by auto
  let ?cert = "GetEnvOrDefault H EnvCertsPath CCCertsMountPath"
  let ?dl = "GetEnvOrDefault H EnvWorkspaceDir RecipeWorkspaceDir"
  let ?json = "Getenv H EnvBuildpacks"
  have E: "MustGetEnv H EnvOutputBuildArtifactsCache = ok out" "MustGetEnv H EnvBuildArtifactsCacheDir = ok cache"
    using env by (simp_all add: MustGetEnv_def)
  obtain r3 w3 where 3: "run_state (CreateResponder H ?cert) w = (r3, w3)" by fastforce
  from CreateResponder_cases [OF 3] obtain resp where resp: "r3 = Ok resp" "own_responder H resp"
    and q3: "runs w3 = runs w" "sent w3 = sent w" by blast
  obtain r4 w4 where 4: "run_state (extract_app H ?dl) w3 = (r4, w4)" by fastforce
  have q4: "runs w4 = runs w3" "sent w4 = sent w3"
    using no_runs_eq [OF quiet_no_runs [OF extract_app_effects(1)] 4]
      offline_eq [OF quiet_offline [OF extract_app_effects(1)] 4] .
  note run = run [unfolded executor_body_def Let_def E run_attempt [of "ok _"] run_ok prod.case result.case]
  from extract_app_effects(2) 4 have "\<exists>code C dir. r = Ok code \<and> executed H C resp w w' code \<and>
      (code = 0 \<longrightarrow> InitBuildpacks H ?json (executor_config H out cache dir) = Inr C)"
  proof (rule returnsE)
    fix e assume "r4 = Err e"
    with run 3 4 resp have "run_state (respond_with H resp 1 e) w4 = (r, w')" by simp
    from respond_with_cases [OF this] q3 q4 staging_none show ?thesis by (auto simp: executed_def)
  next
    fix dir assume r4: "r4 = Ok dir"
    obtain r5 w5 where 5: "run_state (stage H resp ?json (executor_config H out cache dir)) w4 = (r5, w5)" by fastforce
    have "\<not> SkipDetect (executor_config H out cache dir)" by (simp add: executor_config_def)
    from stage_cases [OF 5 this] obtain code C where c: "r5 = Ok code" "executed H C resp w4 w5 code"
      "code = 0 \<longrightarrow> InitBuildpacks H ?json (executor_config H out cache dir) = Inr C" by blast
    let ?fin = "ignoring (RemoveAll H dir) :: (world, unit) state"
    obtain w6 where 6: "run_state ?fin w5 = ((), w6)" by simp
    have f: "quiet ?fin" by (intro quiet.within_ignoring effect_intros)
    have "runs w6 = runs w5" "sent w6 = sent w5"
      using no_runs_eq [OF quiet_no_runs [OF f] 6] offline_eq [OF quiet_offline [OF f] 6] .
    moreover have "r = Ok code" "w' = w6" using run 3 4 5 6 r4 c(1) resp by simp_all
    ultimately show ?thesis using c(2,3) q3 q4 unfolding executed_def by auto
  qed
  moreover have "Getenv H EnvOutputBuildArtifactsCache = out" "Getenv H EnvBuildArtifactsCacheDir = cache"
    by (simp_all add: Getenv_def env)
  ultimately show ?thesis unfolding if_not_P [OF False] using resp(2) by blast
qed

text \<open>C2: The executor always ends the process, and its exit code tells what happened. Without the
  two required environment variables it is 1 and nothing was done. Otherwise the programs that
  were executed are those of a staging run that ended with this code, 0 for a droplet that was
  built; with 0 nothing has been reported, with any other code exactly one failure has, by the
  responder made from the environment, if its address is a URL. A panic never occurs, so 0 is
  never the exit code of a crashed run.\<close>

theorem executor_outcome:
  "case run_state (executor_main H) w of (r, w') \<Rightarrow>
     if h_env H EnvOutputBuildArtifactsCache = None \<or> h_env H EnvBuildArtifactsCacheDir = None
     then r = Exit 1 \<and> runs w' = runs w \<and> sent w' = sent w
     else \<exists>code C resp rs d. r = Exit code \<and> own_responder H resp \<and> runs w' = runs w @ rs \<and>
       phases H C d Started rs (if code = 0 then Staged else Stopped code) \<and>
       (if code = 0 then sent w' = sent w \<and>
          (\<exists>dir. InitBuildpacks H (Getenv H EnvBuildpacks) (executor_config H
             (Getenv H EnvOutputBuildArtifactsCache) (Getenv H EnvBuildArtifactsCacheDir) dir) = Inr C)
        else \<exists>e. sent w' = sent w @ report H resp e)"
proof -
  obtain r w' where 1: "run_state (executor_body H) w = (r, w')" by fastforce
  note c = executor_body_cases [OF 1]
  show ?thesis
  proof (cases "h_env H EnvOutputBuildArtifactsCache = None \<or> h_env H EnvBuildArtifactsCacheDir = None")
    case True
    with c 1 show ?thesis by (auto simp: executor_main_def)
  next
    case False
    with c obtain code C resp dir where *: "r = Ok code" "own_responder H resp" "executed H C resp w w' code"
      "code = 0 \<longrightarrow> InitBuildpacks H (Getenv H EnvBuildpacks) (executor_config H
         (Getenv H EnvOutputBuildArtifactsCache) (Getenv H EnvBuildArtifactsCacheDir) dir) = Inr C" by auto
    from *(3) obtain rs d where rs: "runs w' = runs w @ rs" "phases H C d Started rs (if code = 0 then Staged else Stopped code)"
      "if code = 0 then sent w' = sent w else \<exists>e. sent w' = sent w @ report H resp e"
      unfolding executed_def staging_def by blast
    have "run_state (executor_main H) w = (Exit code, w')" using 1 *(1) by (simp add: executor_main_def)
    then show ?thesis
      using False rs *(2,4) by (simp only: prod.case if_False) (intro exI conjI; auto)
  qed
qed

end
