(* ===== verification/Uploading.thy ===== *)
theory Uploading
  imports Processes
begin

text \<open>
  The uploader: the success message that is built from the staging result on disk, and the
  order of uploads and completion messages of the whole process.
\<close>

section \<open>The success message\<close>

definition stored_result :: "node \<Rightarrow> string list \<Rightarrow> StagingResult option" where
  "stored_result t p = (case lookup t p of
     Some (File m s) \<Rightarrow> Unmarshal (decode_struct StagingResult_fields) zero_StagingResult s
   | _ \<Rightarrow> None)"

lemma quiet_getStagingResult [effect_intros]: "quiet (getStagingResult H p)"
  unfolding getStagingResult_def
  by (intro quiet.within_intros effect_intros)

lemma getStagingResult_Ok:
  assumes "run_state (getStagingResult H p) w = (Ok res, w')"
  shows "fs w' = fs w \<and> stored_result (fs w) (resolve H p) = Some res"
proof -
  from assms obtain s w1 where 1: "run_state (ReadFile H (Clean p)) w = (Ok s, w1)"
    and 2: "run_state (case Unmarshal (decode_struct StagingResult_fields) zero_StagingResult s of
         None \<Rightarrow> fail (ErrorfW ''failed to unmarshal staging result'' (External (h_jsonError H s)))
       | Some stagingResult \<Rightarrow> ok stagingResult) w1 = (Ok res, w')"
    unfolding getStagingResult_def attempt_Ok by (elim exE conjE) (rule that)
  from 1 obtain m where "lookup (fs w) (resolve H (Clean p)) = Some (File m s)" "fs w1 = fs w" by (rule ReadFile_OkE)
  with 2 show ?thesis by (auto simp: stored_result_def path_simps split: option.splits)
qed

lemma getStagingResult_fs: "run_state (getStagingResult H p) w = (r, w') \<Longrightarrow> fs w' = fs w"
  unfolding getStagingResult_def
  by (auto split: prod.splits result.splits option.splits dest: fs_unchanged)

lemma returns_getStagingResult: "returns (getStagingResult H p)"
  unfolding getStagingResult_def by (intro returns_intros returns_basic_os)

definition success_message :: "Responder \<Rightarrow> StagingResult \<Rightarrow> TaskCallbackResponse" where
  "success_message r res = \<lparr>TaskGuid = stagingGUID r, Failed = False, FailureReason = '''',
     tc_Result = Marshal encode_StagingResult res, Annotation = annotation_json (completionCallback r)\<rparr>"

lemma PrepareSuccessResponse_cases:
  assumes run: "run_state (PrepareSuccessResponse H r loc cfg) w = (res, w')"
  shows "fs w' = fs w \<and> sent w' = sent w \<and> returned res \<and>
    (\<forall>m. res = Ok m \<longrightarrow> (\<exists>sr sr'. stored_result (fs w) (resolve H loc) = Some sr \<and>
       fst (Modify (h_jsonError H) cfg sr) = Inr sr' \<and> m = success_message r sr'))"
proof -
  obtain r1 w1 where 1: "run_state (getStagingResult H loc) w = (r1, w1)" by fastforce
  note f = getStagingResult_fs [OF 1] offline_eq [OF quiet_offline [OF quiet_getStagingResult] 1]
  from returns_getStagingResult 1 show ?thesis
  proof (rule returnsE)
    fix e assume "r1 = Err e"
    with run 1 f show ?thesis by (auto simp: PrepareSuccessResponse_def createSuccessResponse_def)
  next
    fix sr assume r1: "r1 = Ok sr"
    from getStagingResult_Ok [OF 1 [unfolded r1]] run 1 r1 f show ?thesis
      by (auto simp: PrepareSuccessResponse_def createSuccessResponse_def success_message_def split: sum.splits)
  qed
qed

section \<open>The process\<close>

lemma respond_and_die_cases:
  assumes "run_state (respond_and_die H r text e) w = (res, w')"
  shows "res = Exit 1 \<and> fs w' = fs w \<and> sent w' = sent w @ report H r e \<and> runs w' = runs w"
proof -
  obtain r1 w1 where 1: "run_state (RespondWithFailure H r e) w = (r1, w1)" by fastforce
  from RespondWithFailure_cases [OF 1] assms 1 show ?thesis
    by (auto simp: respond_and_die_def report_def log_Fatal_def log_Println_def emit_def sent_def runs_def)
qed

lemma die_cases:
  assumes "run_state (log_Fatal t) w = (res, w')"
  shows "res = Exit 1 \<and> fs w' = fs w \<and> sent w' = sent w \<and> runs w' = runs w"
  using assms by (auto simp: log_Fatal_def log_Println_def emit_def sent_def runs_def)

abbreviation is_post :: "http_client \<times> http_request \<Rightarrow> bool" where
  "is_post \<equiv> \<lambda>(c, q). req_method q = ''POST''"

abbreviation is_put :: "http_client \<times> http_request \<Rightarrow> bool" where
  "is_put \<equiv> \<lambda>(c, q). req_method q = ''PUT''"

text \<open>A process that failed: at most \<open>n\<close> uploads, and at most one completion message behind them.\<close>

definition gave_up :: "nat \<Rightarrow> world \<Rightarrow> world \<Rightarrow> bool" where
  "gave_up n w w' \<longleftrightarrow> (\<exists>posts tail. sent w' = sent w @ posts @ tail \<and>
     list_all is_post posts \<and> length posts \<le> n \<and> list_all is_put tail \<and> length tail \<le> 1)"

lemma gave_up_nothing: "sent w' = sent w \<Longrightarrow> gave_up n w w'"
  unfolding gave_up_def by (intro exI [of _ "[]"]) simp

lemma gave_up_put: "sent w' = sent w @ [q] \<Longrightarrow> is_put q \<Longrightarrow> gave_up n w w'"
  unfolding gave_up_def by (intro exI [of _ "[]"] exI [of _ "[q]"]) simp

lemma gave_up_report: "sent w' = sent w @ report H r e \<Longrightarrow> gave_up n w w'"
  unfolding gave_up_def
  by (intro exI [of _ "[]"] exI [of _ "report H r e"])
    (auto simp: report_def failure_request_def complete_request_def Let_def)

lemma gave_up_posts:
  assumes "sent w1 = sent w @ rs" "list_all is_post rs" "length rs \<le> k" "gave_up n w1 w'"
  shows "gave_up (k + n) w w'"
proof -
  from assms(4) obtain posts tail where "sent w' = sent w1 @ posts @ tail" "list_all is_post posts"
    "length posts \<le> n" "list_all is_put tail" "length tail \<le> 1" unfolding gave_up_def by blast
  with assms(1-3) show ?thesis
    unfolding gave_up_def by (intro exI [of _ "rs @ posts"] exI [of _ tail]) auto
qed

definition confirm :: "host \<Rightarrow> Responder \<Rightarrow> string \<Rightarrow> string \<Rightarrow> (world, unit) go" where
  "confirm H responder metadataLocation buildpacksConfig =
     on_err (PrepareSuccessResponse H responder metadataLocation buildpacksConfig)
        (respond_and_die H responder ''failed to prepare response: '') (\<lambda>resp.
      on_err (RespondWithSuccess H responder resp)
        (\<lambda>err. log_Fatal (''failed to prepare response: '' @ Error err)) ok)"

definition confirmed :: "host \<Rightarrow> Responder \<Rightarrow> string \<Rightarrow> string \<Rightarrow> node \<Rightarrow> (http_client \<times> http_request) list \<Rightarrow> bool" where
  "confirmed H r loc cfg t rs \<longleftrightarrow>
     (\<exists>sr sr'. stored_result t (resolve H loc) = Some sr \<and> fst (Modify (h_jsonError H) cfg sr) = Inr sr' \<and>
        rs = [(resp_client r, complete_request r (success_message r sr'))])"

lemma confirm_cases:
  assumes run: "run_state (confirm H r loc cfg) w = (res, w')"
  shows "fs w' = fs w \<and>
    (res = Ok () \<and> (\<exists>rs. sent w' = sent w @ rs \<and> confirmed H r loc cfg (fs w) rs) \<or>
     res = Exit 1 \<and> gave_up 0 w w')"
proof -
  obtain r1 w1 where 1: "run_state (PrepareSuccessResponse H r loc cfg) w = (r1, w1)" by fastforce
  note p = PrepareSuccessResponse_cases [OF 1]
  show ?thesis
  proof (cases r1)
    case (Err e)
    with run 1 have "run_state (respond_and_die H r ''failed to prepare response: '' e) w1 = (res, w')"
      by (simp add: confirm_def)
    from respond_and_die_cases [OF this] p show ?thesis by (auto intro: gave_up_report)
  next
    case (Ok m)
    obtain r2 w2 where 2: "run_state (sendCompleteResponse H r m) w1 = (r2, w2)" by fastforce
    note s = sendCompleteResponse_cases [OF 2]
    from p Ok obtain sr sr' where m: "stored_result (fs w) (resolve H loc) = Some sr"
      "fst (Modify (h_jsonError H) cfg sr) = Inr sr'" "m = success_message r sr'" by blast
    have put: "is_put (resp_client r, complete_request r m)" by (simp add: complete_request_def Let_def)
    show ?thesis
    proof (cases r2)
      case (Ok u)
      with s have "sent w2 = sent w1 @ [(resp_client r, complete_request r m)]" by (auto split: sum.splits)
      moreover have "res = Ok ()" "w' = w2" using run 1 2 \<open>r1 = Ok m\<close> Ok
        by (auto simp: confirm_def RespondWithSuccess_def)
      ultimately show ?thesis using p s m unfolding confirmed_def by auto
    next
      case (Err e)
      with run 1 2 \<open>r1 = Ok m\<close> have "run_state (log_Fatal (''failed to prepare response: '' @ Error e)) w2 = (res, w')"
        by (simp add: confirm_def RespondWithSuccess_def)
      note d = die_cases [OF this]
      from s have "sent w2 = sent w1 \<or> sent w2 = sent w1 @ [(resp_client r, complete_request r m)]"
        by (auto split: sum.splits)
      with d s p show ?thesis by (auto intro: gave_up_nothing gave_up_put [OF _ put])
    qed (use s in auto)
  qed (use p in auto)
qed

definition cache_upload :: "host \<Rightarrow> Responder \<Rightarrow> http_client \<Rightarrow> string \<Rightarrow> string \<Rightarrow> (world, unit) go" where
  "cache_upload H responder client url loc =
     (if url \<noteq> '''' then
        on_err (Upload H \<lparr>up_Client = client\<rparr> url loc)
          (respond_and_die H responder ''failed to upload buildpack cache. '') ok
      else ok ())"

text \<open>The upload of a file: one request with its content.\<close>

definition uploaded :: "host \<Rightarrow> http_client \<Rightarrow> string \<Rightarrow> string \<Rightarrow> node \<Rightarrow> (http_client \<times> http_request) list \<Rightarrow> bool" where
  "uploaded H client url loc t rs \<longleftrightarrow>
     (\<exists>m s. lookup t (resolve H loc) = Some (File m s) \<and> rs = [(client, upload_request url s)])"

text \<open>The build cache is uploaded only if there is an address for it.\<close>

definition cached :: "host \<Rightarrow> http_client \<Rightarrow> string \<Rightarrow> string \<Rightarrow> node \<Rightarrow> (http_client \<times> http_request) list \<Rightarrow> bool" where
  "cached H client url loc t rs \<longleftrightarrow> (if url = '''' then rs = [] else uploaded H client url loc t rs)"

lemma uploaded_posts: "uploaded H client url loc t rs \<Longrightarrow> list_all is_post rs \<and> length rs = 1"
  by (auto simp: uploaded_def upload_request_def)

lemma upload_step:
  assumes run: "run_state (on_err (Upload H \<lparr>up_Client = client\<rparr> url loc) (respond_and_die H r text) k) w = (res, w')"
  shows "(\<exists>w1 rs. run_state (k ()) w1 = (res, w') \<and> fs w1 = fs w \<and> sent w1 = sent w @ rs \<and> uploaded H client url loc (fs w) rs) \<or>
    res = Exit 1 \<and> fs w' = fs w \<and> gave_up 1 w w'"
proof -
  obtain r1 w1 where 1: "run_state (Upload H \<lparr>up_Client = client\<rparr> url loc) w = (r1, w1)" by fastforce
  note u = Upload_cases [OF 1, unfolded upload_outcome_def]
  show ?thesis
  proof (cases r1)
    case (Ok x)
    with u obtain m s where "lookup (fs w) (resolve H loc) = Some (File m s)" "sent w1 = sent w @ [(client, upload_request url s)]"
      by auto
    with u run 1 Ok show ?thesis by (auto simp: uploaded_def)
  next
    case (Err e)
    with run 1 have "run_state (respond_and_die H r text e) w1 = (res, w')" by simp
    note d = respond_and_die_cases [OF this]
    have "gave_up 0 w1 w'" using d by (intro gave_up_report) simp
    moreover obtain posts where "sent w1 = sent w @ posts" "list_all is_post posts" "length posts \<le> 1"
      using u Err that [of "[]"] that [of "[(client, upload_request url s)]" for s]
      by (auto simp: upload_request_def)
    ultimately have "gave_up 1 w w'" using gave_up_posts by fastforce
    with d u show ?thesis by simp
  qed (use u in auto)
qed

text \<open>What follows the droplet: the build cache and the success message.\<close>

lemma cache_and_confirm:
  assumes run: "run_state (attempt (cache_upload H r client uri loc) id (\<lambda>_. confirm H r ml cfg)) w = (res, w')"
  shows "fs w' = fs w \<and> (if res = Ok () then \<exists>cache success. sent w' = sent w @ cache @ success \<and>
       cached H client uri loc (fs w) cache \<and>
       confirmed H r ml cfg (fs w) success
     else res = Exit 1 \<and> gave_up 1 w w')"
proof (cases "uri = ''''")
  case True
  with run have "run_state (confirm H r ml cfg) w = (res, w')" by (simp add: cache_upload_def)
  from confirm_cases [OF this] gave_up_posts [of w w "[]" 1 0 w'] True show ?thesis by (auto simp: cached_def)
next
  case False
  have "run_state (on_err (Upload H \<lparr>up_Client = client\<rparr> uri loc)
      (respond_and_die H r ''failed to upload buildpack cache. '') (\<lambda>_. confirm H r ml cfg)) w = (res, w')"
    using run False
    by (auto simp: cache_upload_def split: prod.splits result.splits dest: respond_and_die_cases)
  from upload_step [OF this] show ?thesis
  proof (elim disjE conjE exE)
    fix w1 rs
    assume a: "run_state (confirm H r ml cfg) w1 = (res, w')" "fs w1 = fs w" "sent w1 = sent w @ rs"
      "uploaded H client uri loc (fs w) rs"
    from confirm_cases [OF a(1)] gave_up_posts [of w1 w rs 1 0 w'] uploaded_posts [OF a(4)] a False
    show ?thesis by (auto simp: cached_def)
  qed auto
qed

lemma all_uploads:
  assumes run: "run_state (on_err (Upload H \<lparr>up_Client = client\<rparr> du dl) (respond_and_die H r text)
      (\<lambda>_. attempt (cache_upload H r client uri loc) id (\<lambda>_. confirm H r ml cfg))) w = (res, w')"
  shows "fs w' = fs w \<and> (if res = Ok () then \<exists>droplet cache success. sent w' = sent w @ droplet @ cache @ success \<and>
       uploaded H client du dl (fs w) droplet \<and>
       cached H client uri loc (fs w) cache \<and>
       confirmed H r ml cfg (fs w) success
     else res = Exit 1 \<and> gave_up 2 w w')"
  using upload_step [OF run]
proof (elim disjE conjE exE)
  fix w1 rs
  assume a: "run_state (attempt (cache_upload H r client uri loc) id (\<lambda>_. confirm H r ml cfg)) w1 = (res, w')"
    "fs w1 = fs w" "sent w1 = sent w @ rs" "uploaded H client du dl (fs w) rs"
  show ?thesis
  proof (cases "res = Ok ()")
    case True
    with cache_and_confirm [OF a(1)] a(2-4) show ?thesis by auto
  next
    case False
    with cache_and_confirm [OF a(1)] gave_up_posts [of w1 w rs 1 1 w'] uploaded_posts [OF a(4)] a(2,3)
    show ?thesis by (simp add: numeral_2_eq_2)
  qed
next
  assume "res = Exit 1" "fs w' = fs w" "gave_up 1 w w'"
  with gave_up_posts [of w w "[]" 1 1 w'] show ?thesis by (simp add: numeral_2_eq_2)
qed

lemma client_and_uploads:
  assumes "run_state (on_err (createUploaderHTTPClient H cert)
      (\<lambda>err. attempt (RespondWithFailure H resp err) id (\<lambda>_. go_exit 1))
      (\<lambda>client. on_err (Upload H \<lparr>up_Client = client\<rparr> du dl) (respond_and_die H resp ''failed to upload droplet: '')
        (\<lambda>_. attempt (cache_upload H resp client uri loc) id (\<lambda>_. confirm H resp ml bps)))) w = (r, w')"
  shows "fs w' = fs w \<and> (if r = Ok () then \<exists>client droplet cache success. sent w' = sent w @ droplet @ cache @ success \<and>
      uploaded H client du dl (fs w) droplet \<and> cached H client uri loc (fs w) cache \<and>
      confirmed H resp ml bps (fs w) success
    else r = Exit 1 \<and> gave_up 2 w w')"
proof -
  obtain r1 w1 where 1: "run_state (createUploaderHTTPClient H cert) w = (r1, w1)" by fastforce
  then have q: "w1 = w" "returned r1"
    by (auto simp: createUploaderHTTPClient_def CreateTLSHTTPClient_def split: option.splits)
  show ?thesis
  proof (cases r1)
    case (Ok client)
    with assms 1 q all_uploads show ?thesis by (fastforce simp: gave_up_def)
  next
    case (Err e)
    obtain r2 w2 where 2: "run_state (RespondWithFailure H resp e) w = (r2, w2)" by fastforce
    with Err assms 1 q RespondWithFailure_cases [OF 2] show ?thesis
      by (auto simp: report_def intro!: gave_up_report [of _ _ H resp e])
  qed (use q in auto)
qed

text \<open>C5: The uploader, in every outcome. It changes no file, and ends normally or with exit code 1.
  If it ends normally it has sent, in this order, the droplet, the build cache if there is an
  address for it, and the success message with the modified staging result read from the
  disk. Otherwise it has sent at most two uploads and behind them at most one completion
  message.\<close>

theorem uploader_outcome:
  "case run_state (uploader_main H) w of (r, w') \<Rightarrow> fs w' = fs w \<and>
     (if r = Ok () then \<exists>client resp droplet cache success.
        own_responder H resp \<and> sent w' = sent w @ droplet @ cache @ success \<and>
        uploaded H client (Getenv H EnvDropletUploadURL)
          (GetEnvOrDefault H EnvOutputDropletLocation RecipeOutputDropletLocation) (fs w) droplet \<and>
        cached H client (Getenv H EnvBuildpackCacheUploadURI) (Getenv H EnvOutputBuildArtifactsCache) (fs w) cache \<and>
        confirmed H resp (GetEnvOrDefault H EnvOutputMetadataLocation RecipeOutputMetadataLocation)
          (Getenv H EnvBuildpacks) (fs w) success
      else r = Exit 1 \<and> gave_up 2 w w')"
proof -
  let ?cert = "GetEnvOrDefault H EnvCertsPath CCCertsMountPath"
  let ?dl = "GetEnvOrDefault H EnvOutputDropletLocation RecipeOutputDropletLocation"
  let ?ml = "GetEnvOrDefault H EnvOutputMetadataLocation RecipeOutputMetadataLocation"
  let ?du = "Getenv H EnvDropletUploadURL"
  obtain r w' where run: "run_state (uploader_main H) w = (r, w')" by fastforce
  obtain r1 w1 where 1: "run_state (MustGetEnv H EnvOutputBuildArtifactsCache) w = (r1, w1)" by fastforce
  obtain r2 w2 where 2: "run_state (MustGetEnv H EnvBuildpackCacheUploadURI) w1 = (r2, w2)" by fastforce
  note m = MustGetEnv_cases [OF 1] MustGetEnv_cases [OF 2]
  show ?thesis
  proof (cases "h_env H EnvOutputBuildArtifactsCache = None \<or> h_env H EnvBuildpackCacheUploadURI = None")
    case True
    then have "(r, w') = (Exit 1, w1) \<or> (r, w') = (Exit 1, w2)"
      using m run 1 2 by (auto simp: uploader_main_def Let_def split: option.splits)
    with m have "r = Exit 1 \<and> fs w' = fs w \<and> gave_up 2 w w'" by (auto intro: gave_up_nothing)
    then show ?thesis unfolding run by simp
  next
    case False
    then obtain loc uri where env: "h_env H EnvOutputBuildArtifactsCache = Some loc"
      "h_env H EnvBuildpackCacheUploadURI = Some uri" by auto
    have G: "Getenv H EnvOutputBuildArtifactsCache = loc" "Getenv H EnvBuildpackCacheUploadURI = uri"
      by (simp_all add: Getenv_def env)
    have E: "MustGetEnv H EnvOutputBuildArtifactsCache = ok loc" "MustGetEnv H EnvBuildpackCacheUploadURI = ok uri"
      using env by (simp_all add: MustGetEnv_def)
    obtain r3 w3 where 3: "run_state (CreateResponder H ?cert) w = (r3, w3)" by fastforce
    from CreateResponder_cases [OF 3] obtain resp where resp: "r3 = Ok resp" "own_responder H resp"
      and q3: "sent w3 = sent w" "fs w3 = fs w" by blast
    have "run_state (on_err (createUploaderHTTPClient H ?cert)
        (\<lambda>err. attempt (RespondWithFailure H resp err) id (\<lambda>_. go_exit 1))
        (\<lambda>client. on_err (Upload H \<lparr>up_Client = client\<rparr> ?du ?dl) (respond_and_die H resp ''failed to upload droplet: '')
          (\<lambda>_. attempt (cache_upload H resp client uri loc) id (\<lambda>_. confirm H resp ?ml (Getenv H EnvBuildpacks))))) w3 = (r, w')"
      using run unfolding uploader_main_def Let_def E run_attempt [of "ok _"] run_ok prod.case result.case
        run_on_err [of "CreateResponder H ?cert"] 3 resp(1) cache_upload_def confirm_def by simp
    from client_and_uploads [OF this]
    have "fs w' = fs w \<and> (if r = Ok () then \<exists>client droplet cache success. sent w' = sent w @ droplet @ cache @ success \<and>
        uploaded H client ?du ?dl (fs w) droplet \<and> cached H client uri loc (fs w) cache \<and>
        confirmed H resp ?ml (Getenv H EnvBuildpacks) (fs w) success
      else r = Exit 1 \<and> gave_up 2 w w')" unfolding gave_up_def q3 .
    with resp(2) show ?thesis unfolding run G by (cases "r = Ok ()") (simp_all, blast)
  qed
qed

section \<open>Success\<close>

text \<open>A machine and a network that serve the requests to some addresses: no system call fails, and
  each address is a URL whose requests are answered with a status below 400. Nothing is asked of
  other addresses.\<close>

definition serving :: "host \<Rightarrow> string set \<Rightarrow> bool" where
  "serving H urls \<longleftrightarrow> (\<forall>n op p. h_fault H n op p = None) \<and>
     (\<forall>u\<in>urls. (\<exists>v. h_urlParse H u = Inr v) \<and>
        (\<forall>n c q. req_url q = u \<longrightarrow> (\<exists>status body. h_http H n c q = Inr (status, body) \<and> status < StatusBadRequest)))"

lemma serving_url: "serving H urls \<Longrightarrow> u \<in> urls \<Longrightarrow> \<exists>v. h_urlParse H u = Inr v"
  unfolding serving_def by blast

lemma serving_look:
  assumes "serving H urls" "p \<noteq> ''''" "lookup (fs w) (resolve H p) = Some n" "f n = Inr x"
  shows "run_state (syscall H op p (look f)) w = (Ok x, w\<lparr>clock := Suc (clock w)\<rparr>)"
  using assms by (simp add: serving_def syscall_def look_def walk_Inr [THEN iffD2])

lemma serving_Do:
  assumes "serving H urls" "req_url q \<in> urls"
  obtains status body where "h_http H (clock w) c q = Inr (status, body)" "run_state (Do H c q) w =
    (Ok (status, body), w\<lparr>clock := Suc (clock w), trace := trace w @ [Sent c q]\<rparr>)" "status < StatusBadRequest"
proof -
  from assms obtain status body where "h_http H (clock w) c q = Inr (status, body)" "status < StatusBadRequest"
    unfolding serving_def by blast
  then show thesis by (intro that) (simp_all add: Do_def)
qed

lemma Upload_succeeds:
  assumes "serving H urls" "url \<in> urls" "url \<noteq> ''''" "loc \<noteq> ''''" "lookup (fs w) (resolve H loc) = Some (File m s)"
  obtains w' where "run_state (Upload H \<lparr>up_Client = c\<rparr> url loc) w = (Ok (), w')" "fs w' = fs w"
proof -
  have p: "Clean loc \<noteq> ''''" "lookup (fs w) (resolve H (Clean loc)) = Some (File m s)"
    using assms(5) by (simp_all add: path_simps)
  let ?w1 = "w\<lparr>clock := Suc (clock w)\<rparr>"
  let ?w2 = "w\<lparr>clock := Suc (Suc (clock w))\<rparr>"
  have 1: "run_state (Open H (Clean loc)) w = (Ok (File m s), ?w1)"
    unfolding Open_def by (rule serving_look [OF assms(1) p]) simp
  have 2: "run_state (Stat H (Clean loc)) ?w1 = (Ok (info_of (File m s)), ?w2)"
    unfolding Stat_def using serving_look [OF assms(1) p(1), of ?w1 "File m s" "\<lambda>n. Inr (info_of n)"] p(2) by simp
  from serving_url [OF assms(1,2)] obtain v where v: "h_urlParse H url = Inr v" by blast
  let ?q = "\<lparr>req_method = ''POST'', req_url = url, req_contentType = Some ''application/octet-stream'',
    req_contentLength = Some (length s), req_body = s\<rparr>"
  obtain status body where 3: "run_state (Do H c ?q) ?w2 =
    (Ok (status, body), ?w2\<lparr>clock := Suc (clock ?w2), trace := trace ?w2 @ [Sent c ?q]\<rparr>)" "status < StatusBadRequest"
    by (rule serving_Do [OF assms(1), of ?q ?w2 c]) (use assms(2) in simp_all)
  from 1 2 3 v assms(3,4) show thesis
    by (intro that [of "?w2\<lparr>clock := Suc (clock ?w2), trace := trace ?w2 @ [Sent c ?q]\<rparr>"])
      (simp_all add: Upload_def uploadFile_def fileSize_def send_file_def upload_do_def NewRequest_def)
qed

lemma PrepareSuccessResponse_succeeds:
  assumes "serving H urls" "stored_result (fs w) (resolve H loc) = Some sr"
    "fst (Modify (h_jsonError H) cfg sr) = Inr sr'"
  shows "run_state (PrepareSuccessResponse H r loc cfg) w = (Ok (success_message r sr'), w\<lparr>clock := Suc (clock w)\<rparr>)"
proof -
  from assms(2) obtain m s where f: "lookup (fs w) (resolve H (Clean loc)) = Some (File m s)"
    "Unmarshal (decode_struct StagingResult_fields) zero_StagingResult s = Some sr"
    by (auto simp: stored_result_def path_simps split: option.splits node.splits)
  have "run_state (ReadFile H (Clean loc)) w = (Ok s, w\<lparr>clock := Suc (clock w)\<rparr>)"
    unfolding ReadFile_def by (rule serving_look [OF assms(1) _ f(1)]) (simp_all add: path_simps)
  with f assms(3) show ?thesis
    by (simp add: PrepareSuccessResponse_def createSuccessResponse_def getStagingResult_def success_message_def)
qed

lemma confirm_succeeds:
  assumes "serving H urls" "completed_uri r (stagingGUID r) \<in> urls"
    "stored_result (fs w) (resolve H loc) = Some sr" "fst (Modify (h_jsonError H) cfg sr) = Inr sr'"
  shows "\<exists>w'. run_state (confirm H r loc cfg) w = (Ok (), w')"
proof -
  let ?w = "w\<lparr>clock := Suc (clock w)\<rparr>"
  let ?m = "success_message r sr'"
  have u: "req_url (complete_request r ?m) \<in> urls" "completed_uri r (TaskGuid ?m) \<in> urls"
    using assms(2) by (simp_all add: complete_request_def Let_def success_message_def)
  obtain r2 w2 where 2: "run_state (sendCompleteResponse H r ?m) ?w = (r2, w2)" by fastforce
  from serving_url [OF assms(1) u(2)] obtain v where v: "h_urlParse H (completed_uri r (TaskGuid ?m)) = Inr v" by blast
  obtain status body where "h_http H (clock ?w) (resp_client r) (complete_request r ?m) = Inr (status, body)"
    "status < StatusBadRequest" by (rule serving_Do [OF assms(1) u(1), of ?w])
  then have "is_Ok r2" using sendCompleteResponse_cases [OF 2] v by simp
  then have "r2 = Ok ()" by (cases r2) simp_all
  with 2 PrepareSuccessResponse_succeeds [OF assms(1,3,4), of r] show ?thesis
    by (simp add: confirm_def RespondWithSuccess_def)
qed

text \<open>The addresses the uploader uses, and the key pair and authority of its client, which the downloader
  shares; those of the responder may be missing.\<close>

definition uploader_urls :: "host \<Rightarrow> string set" where
  "uploader_urls H = {Getenv H EnvDropletUploadURL,
     Getenv H EnvEiriniAddress @ ''/stage/'' @ Getenv H EnvStagingGUID @ ''/completed''} \<union>
     {u. h_env H EnvBuildpackCacheUploadURI = Some u \<and> u \<noteq> ''''}"

definition client_certs :: "host \<Rightarrow> (string \<times> string \<times> string) list" where
  "client_certs H = (let certPath = GetEnvOrDefault H EnvCertsPath CCCertsMountPath in
     [(Join [certPath, CCAPICertName], Join [certPath, CCAPIKeyName], Join [certPath, CACertName])])"

text \<open>C27: Where nothing fails, the uploader does succeed: with the required environment, a droplet, a build
  cache if there is an address for it, a staging result whose buildpacks were all provided, its
  own key pair and authority in the tree, and its two or three addresses served, it sends
  everything and ends normally.\<close>

theorem uploader_succeeds:
  assumes "serving H (uploader_urls H)" and "h_tls H (client_certs H) (fs w) = None"
    and "h_env H EnvOutputBuildArtifactsCache = Some cache" and "h_env H EnvBuildpackCacheUploadURI = Some uri"
    and "Getenv H EnvDropletUploadURL \<noteq> ''''"
    and "GetEnvOrDefault H EnvOutputDropletLocation RecipeOutputDropletLocation = droplet" and "droplet \<noteq> ''''"
    and "lookup (fs w) (resolve H droplet) = Some (File m s)"
    and "uri = '''' \<or> cache \<noteq> '''' \<and> lookup (fs w) (resolve H cache) = Some (File m' s')"
    and "stored_result (fs w) (resolve H (GetEnvOrDefault H EnvOutputMetadataLocation RecipeOutputMetadataLocation)) = Some sr"
    and "fst (Modify (h_jsonError H) (Getenv H EnvBuildpacks) sr) = Inr sr'"
  shows "fst (run_state (uploader_main H) w) = Ok ()"
proof -
  let ?cert = "GetEnvOrDefault H EnvCertsPath CCCertsMountPath"
  let ?ml = "GetEnvOrDefault H EnvOutputMetadataLocation RecipeOutputMetadataLocation"
  let ?cfg = "Getenv H EnvBuildpacks"
  let ?c = "TLSClient (client_certs H)"
  have E: "MustGetEnv H EnvOutputBuildArtifactsCache = ok cache" "MustGetEnv H EnvBuildpackCacheUploadURI = ok uri"
    using assms(3,4) by (simp_all add: MustGetEnv_def)
  obtain r1 w1 where 1: "run_state (CreateResponder H ?cert) w = (r1, w1)" by fastforce
  from CreateResponder_cases [OF 1] obtain resp where r1: "r1 = Ok resp" and f1: "fs w1 = fs w"
    and o: "own_responder H resp" by blast
  from o have completed: "completed_uri resp (stagingGUID resp) \<in> uploader_urls H"
    by (simp add: own_responder_def completed_uri_def uploader_urls_def)
  have 2: "run_state (createUploaderHTTPClient H ?cert) w1 = (Ok ?c, w1)"
    using assms(2) f1 by (simp add: createUploaderHTTPClient_def CreateTLSHTTPClient_def client_certs_def Let_def)
  have d: "lookup (fs w1) (resolve H droplet) = Some (File m s)" "Getenv H EnvDropletUploadURL \<in> uploader_urls H"
    using assms(8) f1 by (simp_all add: uploader_urls_def)
  obtain w2 where 3: "run_state (Upload H \<lparr>up_Client = ?c\<rparr> (Getenv H EnvDropletUploadURL) droplet) w1 = (Ok (), w2)"
    and "fs w2 = fs w1" by (rule Upload_succeeds [OF assms(1) d(2) assms(5,7) d(1)])
  with f1 have f2: "fs w2 = fs w" by simp
  obtain w3 where 4: "run_state (cache_upload H resp ?c uri cache) w2 = (Ok (), w3)" and f3: "fs w3 = fs w"
  proof (cases "uri = ''''")
    case True
    with f2 that [of w2] show thesis by (simp add: cache_upload_def)
  next
    case False
    with assms(4) have "uri \<in> uploader_urls H" by (simp add: uploader_urls_def)
    moreover have "cache \<noteq> ''''" "lookup (fs w2) (resolve H cache) = Some (File m' s')" using False assms(9) f2 by simp_all
    ultimately obtain v where "run_state (Upload H \<lparr>up_Client = ?c\<rparr> uri cache) w2 = (Ok (), v)" "fs v = fs w2"
      by (rule Upload_succeeds [OF assms(1) _ False])
    with f2 False that [of v] show thesis by (simp add: cache_upload_def)
  qed
  obtain w4 where 5: "run_state (confirm H resp ?ml ?cfg) w3 = (Ok (), w4)"
    using confirm_succeeds [OF assms(1) completed _ assms(11)] assms(10) f3 by metis
  have "run_state (uploader_main H) w =
      run_state (attempt (cache_upload H resp ?c uri cache) id (\<lambda>_. confirm H resp ?ml ?cfg)) w2"
    using 1 2 3 r1 assms(6)
    unfolding uploader_main_def Let_def E run_attempt [of "ok _"] run_ok prod.case result.case
      run_on_err [of "CreateResponder H ?cert"] cache_upload_def confirm_def by simp
  with 4 5 show ?thesis by simp
qed

definition uploading_host :: host where
  "uploading_host = sample_host\<lparr>h_env := (\<lambda>n.
     if n = EnvOutputBuildArtifactsCache then Some ''/out/cache.tgz''
     else if n = EnvBuildpackCacheUploadURI then Some ''''
     else if n = EnvDropletUploadURL then Some ''http://h/droplet''
     else if n = EnvEiriniAddress then Some ''http://e''
     else if n = EnvStagingGUID then Some ''g''
     else if n = EnvCertsPath then Some ''/certs''
     else if n = EnvOutputDropletLocation then Some ''/out/d.tgz''
     else if n = EnvOutputMetadataLocation then Some ''/out/result.json''
     else if n = EnvBuildpacks then Some ruby_json else None),
   h_urlParse := (\<lambda>u. if u = ''%&'' then Inl ''invalid URL escape'' else Inr \<lparr>url_base = u, Fragment = ''''\<rparr>),
   h_http := (\<lambda>n c q. if req_url q \<in> {''http://h/droplet'', ''http://e/stage/g/completed''} then Inr (200, []) else Inr (404, [])),
   h_tls := (\<lambda>ps t. if list_all (\<lambda>(crt, key, ca). list_all (\<lambda>p. \<not> Option.is_none (lookup t (path_comps p))) [crt, key, ca]) ps
     then None else Some ''no such file'')\<rparr>"

definition uploading_world :: world where
  "uploading_world = sample_world\<lparr>fs := Folder perm_0755 [(''out'', Folder perm_0755
     [(''d.tgz'', File perm_0644 ''droplet''), (''result.json'', File perm_0644
       (Encode encode_StagingResult (NewStagingResult None
         \<lparr>lm_BuildpackKey = ''ruby'', lm_DetectedBuildpack = '''', lm_Buildpacks = None\<rparr>)))]),
     (''certs'', Folder perm_0755 (map (\<lambda>n. (n, File perm_0644 ''pem'')) [CACertName, CCAPICertName, CCAPIKeyName]))]\<rparr>"

lemma uploader_succeeds_witness:
  "fst (run_state (uploader_main uploading_host) uploading_world) = Ok ()"
proof -
  let ?H = uploading_host
  have "Getenv ?H EnvDropletUploadURL = ''http://h/droplet''" "h_env ?H EnvBuildpackCacheUploadURI = Some ''''"
    "Getenv ?H EnvEiriniAddress @ ''/stage/'' @ Getenv ?H EnvStagingGUID @ ''/completed'' = ''http://e/stage/g/completed''"
    by code_simp+
  then have urls: "uploader_urls ?H = {''http://h/droplet'', ''http://e/stage/g/completed''}"
    by (auto simp: uploader_urls_def)
  have 1: "serving ?H (uploader_urls ?H)"
    unfolding urls by (auto simp: serving_def uploading_host_def sample_host_def StatusBadRequest_def)
  have tls: "h_tls ?H (client_certs ?H) (fs uploading_world) = None" by code_simp
  have 2: "h_env ?H EnvOutputBuildArtifactsCache = Some ''/out/cache.tgz''"
    "h_env ?H EnvBuildpackCacheUploadURI = Some ''''" "Getenv ?H EnvDropletUploadURL \<noteq> ''''"
    "GetEnvOrDefault ?H EnvOutputDropletLocation RecipeOutputDropletLocation = ''/out/d.tgz''" by code_simp+
  have 3: "lookup (fs uploading_world) (resolve ?H ''/out/d.tgz'') = Some (File perm_0644 ''droplet'')" by code_simp
  have "case stored_result (fs uploading_world) (resolve ?H (GetEnvOrDefault ?H EnvOutputMetadataLocation RecipeOutputMetadataLocation)) of
      None \<Rightarrow> False | Some sr \<Rightarrow> (case fst (Modify (h_jsonError ?H) (Getenv ?H EnvBuildpacks) sr) of Inl e \<Rightarrow> False | Inr sr' \<Rightarrow> True)"
    by code_simp
  then obtain sr sr' where
    "stored_result (fs uploading_world) (resolve ?H (GetEnvOrDefault ?H EnvOutputMetadataLocation RecipeOutputMetadataLocation)) = Some sr"
    "fst (Modify (h_jsonError ?H) (Getenv ?H EnvBuildpacks) sr) = Inr sr'" by (auto split: option.splits sum.splits)
  from uploader_succeeds [OF 1 tls 2 _ 3 _ this] show ?thesis by simp
qed

end
