(* ===== verification/Downloading.thy ===== *)
theory Downloading
  imports Uploading Downloads
begin

text \<open>
  The downloader: which addresses an installer asks and which programs it runs, and the
  order of the requests, of the clones and of the unpacking of the build cache in the whole
  process.
\<close>

section \<open>Requests and programs of an installer\<close>

text \<open>\<open>fetched U\<close>: only \<^verbatim>\<open>GET\<close> requests to addresses of \<open>U\<close> are sent; \<open>ran_only P\<close>: only programs of the
  kind \<open>P\<close> are run.\<close>

definition gets_of :: "string set \<Rightarrow> (http_client \<times> http_request) list \<Rightarrow> bool" where
  "gets_of U qs \<longleftrightarrow> (\<forall>q\<in>set qs. \<exists>u\<in>U. snd q = get_request u)"

definition fetched :: "string set \<Rightarrow> 'x world_scheme \<Rightarrow> 'x world_scheme \<Rightarrow> bool" where
  "fetched U w w' \<longleftrightarrow> (\<exists>qs. sent w' = sent w @ qs \<and> gets_of U qs)"

definition ran_only :: "(command \<Rightarrow> bool) \<Rightarrow> 'x world_scheme \<Rightarrow> 'x world_scheme \<Rightarrow> bool" where
  "ran_only P w w' \<longleftrightarrow> (\<exists>rs. runs w' = runs w @ rs \<and> list_all (P \<circ> fst) rs)"

abbreviation fetching :: "string set \<Rightarrow> ('x world_scheme, 'a) state \<Rightarrow> bool" where
  "fetching U \<equiv> state_io_rel (fetched U)"

abbreviation running :: "(command \<Rightarrow> bool) \<Rightarrow> ('x world_scheme, 'a) state \<Rightarrow> bool" where
  "running P \<equiv> state_io_rel (ran_only P)"

lemma gets_Nil [simp]: "gets_of U []"
  and gets_append [simp]: "gets_of U (xs @ ys) \<longleftrightarrow> gets_of U xs \<and> gets_of U ys"
  by (auto simp: gets_of_def)

lemma gets_mono: "gets_of U qs \<Longrightarrow> U \<subseteq> V \<Longrightarrow> gets_of V qs"
  by (auto simp: gets_of_def)

interpretation fetching: effect_relation "fetched U" for U
proof
  fix w :: "'x world_scheme"
  show "fetched U w w" unfolding fetched_def by (intro exI [of _ "[]"]) simp
next
  fix w1 w2 w3 :: "'x world_scheme"
  assume "fetched U w1 w2" "fetched U w2 w3"
  then show "fetched U w1 w3" by (auto simp: fetched_def)
qed

interpretation running: effect_relation "ran_only P" for P
proof
  fix w :: "'x world_scheme"
  show "ran_only P w w" unfolding ran_only_def by (intro exI [of _ "[]"]) simp
next
  fix w1 w2 w3 :: "'x world_scheme"
  assume "ran_only P w1 w2" "ran_only P w2 w3"
  then show "ran_only P w1 w3" by (auto simp: ran_only_def)
qed

lemma offline_fetching: "offline m \<Longrightarrow> fetching U m"
  by (auto simp: state_io_rel_def fetched_def gets_of_def split: prod.splits)

lemma no_runs_running: "no_runs m \<Longrightarrow> running P m"
  by (auto simp: state_io_rel_def ran_only_def split: prod.splits)

lemma quiet_fetching: "quiet m \<Longrightarrow> fetching U m"
  by (intro offline_fetching quiet_offline)

lemma quiet_running: "quiet m \<Longrightarrow> running P m"
  by (intro no_runs_running quiet_no_runs)

lemma fetching_Get: "u \<in> U \<Longrightarrow> fetching U (Get H c u)"
  by (rule state_io_relI)
    (auto simp: Get_def NewRequest_def Do_def fetched_def sent_def get_request_def gets_of_def split: sum.splits)

lemma running_cmd: "P c \<Longrightarrow> running P (Run_cmd H c)"
  by (rule state_io_relI) (auto simp: Run_cmd_def ran_only_def runs_def split: prod.splits)

lemma offline_GitClone: "offline (GitClone H repo dest)"
  unfolding GitClone_def performGitClone_def Let_def
  by (intro offline.within_intros offline_Run_cmd; rule quiet_offline, rule effect_intros)

section \<open>Buildpacks\<close>

text \<open>The clone of one of the buildpacks into its directory.\<close>

definition clones_buildpack :: "host \<Rightarrow> string \<Rightarrow> Buildpack list \<Rightarrow> command \<Rightarrow> bool" where
  "clones_buildpack H dir bps c \<longleftrightarrow> (\<exists>bp\<in>set bps. \<exists>repo git. h_urlParse H (bp_URL bp) = Inr repo \<and>
     (c = shallow_clone git repo (BuildpackPath dir (bp_Name bp)) \<or>
      c = full_clone git repo (BuildpackPath dir (bp_Name bp))))"

lemma fetching_OpenBuildpackURL: "u \<in> U \<Longrightarrow> fetching U (OpenBuildpackURL H u c)"
  unfolding OpenBuildpackURL_def by (intro fetching.within_intros fetching_Get)

lemma fetching_install_buildpack:
  assumes "bp_URL bp \<in> U"
  shows "fetching U (install_buildpack H b bp)"
  unfolding install_buildpack_def installFromArchive_def fetch_buildpack_def unpack_buildpack_def Let_def
  by (intro fetching.within_intros fetching_OpenBuildpackURL [OF assms] offline_fetching [OF offline_GitClone];
      rule quiet_fetching, rule effect_intros)

lemma running_install_buildpack:
  assumes "bp \<in> set bps"
  shows "running (clones_buildpack H (mgr_buildpackDir b) bps) (install_buildpack H b bp)"
proof -
  have clone: "running (clones_buildpack H (mgr_buildpackDir b) bps)
      (GitClone H repo (BuildpackPath (mgr_buildpackDir b) (bp_Name bp)))"
    if repo: "h_urlParse H (bp_URL bp) = Inr repo" for repo
    unfolding GitClone_def performGitClone_def Let_def
    by (intro running.within_intros running_cmd quiet_running effect_intros)
      (use assms repo in \<open>auto simp: clones_buildpack_def shallow_clone_def full_clone_def\<close>)
  show ?thesis
    unfolding install_buildpack_def Let_def
    by (intro running.within_on_err no_runs_running [OF no_runs_installFromArchive] running.within_ok)
      (auto split: sum.split intro: clone running.within_fail)
qed

text \<open>The buildpacks that a JSON text lists.\<close>

definition wanted :: "string \<Rightarrow> Buildpack list" where
  "wanted json = (case Unmarshal decode_Buildpacks None json of Some (Some bs) \<Rightarrow> bs | _ \<Rightarrow> [])"

lemma quiet_writeBuildpackJSON: "quiet (writeBuildpackJSON H b bps)"
  unfolding writeBuildpackJSON_def by (intro quiet.within_intros effect_intros)

lemma returns_GitClone: "returns (GitClone H repo dest)"
  unfolding GitClone_def performGitClone_def Let_def
  by (intro returns_intros returns_basic_os returns_external)

lemma returns_install_buildpack: "returns (install_buildpack H b bp)"
  unfolding install_buildpack_def Let_def
  by (intro returns_intros returns_installFromArchive returns_GitClone)

lemma silent_emit_Printed: "offline (effect (emit (Printed t)))" "no_runs (effect (emit (Printed t)))"
  by (intro offline.within_effect no_runs.within_effect state_io_relI; simp add: emit_def sent_def runs_def)+

lemma BuildpackManager_effects:
  "returns (BuildpackManager_Install H b)"
  "fetching (bp_URL ` set (wanted (mgr_buildpacksJSON b))) (BuildpackManager_Install H b)"
  "running (clones_buildpack H (mgr_buildpackDir b) (wanted (mgr_buildpacksJSON b))) (BuildpackManager_Install H b)"
proof -
  show "returns (BuildpackManager_Install H b)"
    unfolding BuildpackManager_Install_def Let_def writeBuildpackJSON_def
    by (intro returns_intros returns_install_buildpack returns_compound)
  have w: "wanted (mgr_buildpacksJSON b) = (case bps of None \<Rightarrow> [] | Some bs \<Rightarrow> bs)"
    if "Unmarshal decode_Buildpacks None (mgr_buildpacksJSON b) = Some bps" for bps
    using that by (simp add: wanted_def split: option.split)
  show "fetching (bp_URL ` set (wanted (mgr_buildpacksJSON b))) (BuildpackManager_Install H b)"
    unfolding BuildpackManager_Install_def Let_def
    by (split option.split, intro conjI impI allI)
      (intro fetching.within_intros quiet_fetching [OF quiet_writeBuildpackJSON] fetching_install_buildpack
        offline_fetching silent_emit_Printed; simp add: w)+
  show "running (clones_buildpack H (mgr_buildpackDir b) (wanted (mgr_buildpacksJSON b))) (BuildpackManager_Install H b)"
    unfolding BuildpackManager_Install_def Let_def
    by (split option.split, intro conjI impI allI)
      (intro running.within_intros quiet_running [OF quiet_writeBuildpackJSON] running_install_buildpack
        no_runs_running silent_emit_Printed; simp add: w)+
qed

text \<open>What a successful installation has asked for: each buildpack in the order of the list, and none
  is left out.\<close>

definition buildpack_requests :: "BuildpackManager \<Rightarrow> Buildpack list \<Rightarrow> (http_client \<times> http_request) list \<Rightarrow> bool" where
  "buildpack_requests b bps qs \<longleftrightarrow>
     (\<exists>qss. list_all2 (\<lambda>bp. fetch_requests b (bp_URL bp)) bps qss \<and> qs = concat qss)"

lemma install_buildpack_sent:
  assumes run: "run_state (install_buildpack H b bp) w = (Ok (), w')"
  shows "\<exists>qs. sent w' = sent w @ qs \<and> fetch_requests b (bp_URL bp) qs"
proof -
  let ?dest = "BuildpackPath (mgr_buildpackDir b) (bp_Name bp)"
  obtain p v where prep: "run_state (prepare_archive H b bp ?dest) w = (p, v)" by fastforce
  have rm: "sent v2 = sent v1" if "run_state (ignoring (Remove H src)) v1 = ((), v2)" for src and v1 v2 :: "'a world_scheme"
    by (rule offline_eq [OF quiet_offline that]) (intro quiet.within_ignoring effect_intros)
  have ex: "sent v2 = sent v1" if "run_state (Extract H limit src dest) v1 = (x, v2)" for limit src dest x and v1 v2 :: "'a world_scheme"
    by (rule offline_eq [OF quiet_offline that]) (rule effect_intros)
  from run refl prep show ?thesis
  proof (cases rule: install_buildpack_cases)
    case (Archive src bytes v')
    with ex [OF Archive(3)] rm [OF Archive(6)] show ?thesis by (auto simp: fetched_zip_def)
  next
    case (Clone src bytes e v' wa)
    from Clone(6) obtain repo where "run_state (GitClone H repo ?dest) wa = (Ok (), w')" by (auto split: sum.splits)
    from offline_eq [OF offline_GitClone this] ex [OF Clone(3)] rm [OF Clone(5)] Clone(2) show ?thesis
      by (auto simp: fetched_zip_def)
  qed simp
qed

lemma for_each_install_sent:
  "run_state (for_each (\<lambda>bp. attempt (install_buildpack H b bp) (f bp) ok) bps) w = (Ok (), w') \<Longrightarrow>
   \<exists>qs. sent w' = sent w @ qs \<and> buildpack_requests b bps qs"
proof (induction bps arbitrary: w)
  case Nil
  then show ?case by (simp add: buildpack_requests_def)
next
  case (Cons bp bps)
  from Cons.prems obtain w1 where 1: "run_state (install_buildpack H b bp) w = (Ok (), w1)"
    and 2: "run_state (for_each (\<lambda>bp. attempt (install_buildpack H b bp) (f bp) ok) bps) w1 = (Ok (), w')"
    unfolding for_each_Cons_Ok attempt_ok_Ok by blast
  from install_buildpack_sent [OF 1] obtain qs where q: "sent w1 = sent w @ qs" "fetch_requests b (bp_URL bp) qs" by blast
  from Cons.IH [OF 2] obtain qss where "list_all2 (\<lambda>bp. fetch_requests b (bp_URL bp)) bps qss"
    "sent w' = sent w1 @ concat qss" unfolding buildpack_requests_def by blast
  with q show ?case unfolding buildpack_requests_def
    by (intro exI [of _ "qs @ concat qss"] conjI exI [of _ "qs # qss"]) simp_all
qed

lemma BuildpackManager_sent:
  assumes "run_state (BuildpackManager_Install H b) w = (Ok (), w')"
  shows "\<exists>listed qs. Unmarshal decode_Buildpacks None (mgr_buildpacksJSON b) = Some listed \<and>
    sent w' = sent w @ qs \<and> buildpack_requests b (wanted (mgr_buildpacksJSON b)) qs"
proof (cases "Unmarshal decode_Buildpacks None (mgr_buildpacksJSON b)")
  case None
  with assms show ?thesis by (simp add: BuildpackManager_Install_def Let_def emit_def)
next
  case (Some listed)
  have wanted: "(case listed of None \<Rightarrow> [] | Some bs \<Rightarrow> bs) = wanted (mgr_buildpacksJSON b)"
    using Some by (simp add: wanted_def split: option.split)
  from assms [unfolded BuildpackManager_Install_def Some option.case wanted attempt_Ok] obtain w1 u where
    1: "run_state (for_each (\<lambda>bp. attempt (install_buildpack H b bp)
      (ErrorfW (''installing buildpack '' @ bp_Name bp @ '': '' @ bp_URL bp @ '' failed'')) ok)
      (wanted (mgr_buildpacksJSON b))) w = (Ok u, w1)"
    and 2: "run_state (writeBuildpackJSON H b listed) w1 = (Ok (), w')" by blast
  have "sent w' = sent w1" by (rule offline_eq [OF quiet_offline [OF quiet_writeBuildpackJSON] 2])
  with for_each_install_sent [of H b _ "wanted (mgr_buildpacksJSON b)" w w1] 1 Some show ?thesis by fastforce
qed

section \<open>The interface of the installers\<close>

text \<open>
  What the downloader relies on for an \<^verbatim>\<open>Installer\<close>: it returns, asks only known addresses and
  runs only known programs.
\<close>

locale installer =
  fixes install :: "(world, unit) go" and addresses :: "string set" and programs :: "command \<Rightarrow> bool"
  assumes install_returns: "returns install"
    and install_fetches: "fetching addresses install"
    and install_runs: "running programs install"
begin

text \<open>One round of the loop over the installers.\<close>

lemma round:
  assumes run: "run_state (attempt (on_err install (respond_and_die H r text) ok) id k) w = (res, w')"
  obtains (Ok) w1 where "run_state install w = (Ok (), w1)" "run_state (k ()) w1 = (res, w')"
      "fetched addresses w w1" "ran_only programs w w1"
    | (Fail) w1 e where "res = Exit 1" "fetched addresses w w1" "ran_only programs w w1"
      "sent w' = sent w1 @ report H r e" "runs w' = runs w1"
proof -
  obtain r1 w1 where 1: "run_state install w = (r1, w1)" by fastforce
  note e = state_io_relD [OF install_fetches 1] state_io_relD [OF install_runs 1]
  from install_returns 1 show thesis
  proof (rule returnsE)
    fix x assume "r1 = Ok x"
    with run 1 e show thesis by (intro that(1) [of w1]) simp_all
  next
    fix err assume r1: "r1 = Err err"
    obtain r2 w2 where 2: "run_state (respond_and_die H r text err :: (world, unit) go) w1 = (r2, w2)" by fastforce
    note d = respond_and_die_cases [OF 2]
    with run 1 2 r1 have "res = Exit 1" "w' = w2" by simp_all
    with d e show thesis by (intro that(2) [of w1 err]) simp_all
  qed
qed

end

lemma PackageInstaller_effects:
  "returns (PackageInstaller_Install H d)"
  "fetching {pi_downloadURL d} (PackageInstaller_Install H d)"
  "no_runs (PackageInstaller_Install H d)"
proof -
  show "returns (PackageInstaller_Install H d)"
    unfolding PackageInstaller_Install_def download_def
    by (intro returns_intros returns_basic_os returns_compound returns_io_Copy)
  show "fetching {pi_downloadURL d} (PackageInstaller_Install H d)"
    unfolding PackageInstaller_Install_def download_def Create_def
    by (intro fetching.within_intros fetching_Get quiet_fetching quiet_io_Copy effect_intros) simp
  show "no_runs (PackageInstaller_Install H d)"
    unfolding PackageInstaller_Install_def download_def Create_def Get_def
    by (intro no_runs.within_intros no_runs_Do quiet_no_runs quiet_io_Copy effect_intros)
qed

lemma PackageInstaller_sent:
  assumes "run_state (PackageInstaller_Install H d) w = (Ok (), w')"
  shows "sent w' = sent w @ [(pi_client d, get_request (pi_downloadURL d))]"
proof -
  from assms have "run_state (download H d (pi_downloadURL d) (Join [pi_downloadDir d, AppBits])) w = (Ok (), w')"
    by (auto simp: PackageInstaller_Install_def attempt_ok_Ok simp del: run_attempt split: if_splits)
  from download_Ok [OF this] show ?thesis by blast
qed

interpretation buildpacks: installer "Install H (BuildpackInstaller b)" "bp_URL ` set (wanted (mgr_buildpacksJSON b))"
    "clones_buildpack H (mgr_buildpackDir b) (wanted (mgr_buildpacksJSON b))" for H b
  by unfold_locales (simp_all add: BuildpackManager_effects)

interpretation package: installer "Install H (AppInstaller d)" "{pi_downloadURL d}" "\<lambda>_. False" for H d
  by unfold_locales (simp_all add: PackageInstaller_effects no_runs_running [OF PackageInstaller_effects(3)])

section \<open>The process\<close>

definition untar_command :: "string \<Rightarrow> string \<Rightarrow> command" where
  "untar_command tar dir = (Command tar [''-xzf'', dir @ ''/app.zip''])\<lparr>cmd_dir := dir\<rparr>"

text \<open>All requests of a complete download: each buildpack of the list in its order, by the client of
  the platform and where that failed once more by the default one, then the application, then
  the build cache if there is an address for it. The list was valid JSON.\<close>

definition all_downloads :: "string \<Rightarrow> string \<Rightarrow> string \<Rightarrow> (http_client \<times> http_request) list \<Rightarrow> bool" where
  "all_downloads json app cache qs \<longleftrightarrow> (\<exists>client listed qss. Unmarshal decode_Buildpacks None json = Some listed \<and>
     list_all2 (\<lambda>bp gets. gets = [(client, get_request (bp_URL bp))] \<or>
        gets = [(client, get_request (bp_URL bp)), (DefaultClient, get_request (bp_URL bp))]) (wanted json) qss \<and>
     qs = concat qss @ [(client, get_request app)] @ (if cache = '''' then [] else [(client, get_request cache)]))"

text \<open>\<open>fell_short\<close>: the process failed before everything was there; it may have reported that.\<close>

definition fell_short :: "host \<Rightarrow> string \<Rightarrow> Buildpack list \<Rightarrow> string set \<Rightarrow> world \<Rightarrow> world \<Rightarrow> bool" where
  "fell_short H dir bps U w w' \<longleftrightarrow> (\<exists>qs tail. sent w' = sent w @ qs @ tail \<and>
     gets_of U qs \<and> (tail = [] \<or> (\<exists>resp e. own_responder H resp \<and> tail = report H resp e))) \<and>
   ran_only (clones_buildpack H dir bps) w w'"

lemma fell_short_idle: "sent w' = sent w \<Longrightarrow> runs w' = runs w \<Longrightarrow> fell_short H dir bps U w w'"
  unfolding fell_short_def ran_only_def
  by (intro conjI exI [of _ "[]"]) simp_all

lemma fell_short_report:
  assumes "fetched U w w1" "ran_only (clones_buildpack H dir bps) w w1" "own_responder H resp"
    "sent w' = sent w1 @ report H resp e" "runs w' = runs w1"
  shows "fell_short H dir bps U w w'"
  using assms unfolding fell_short_def fetched_def ran_only_def by (metis append.assoc)

lemma fell_short_after:
  assumes "fetched U w w1" "ran_only (clones_buildpack H dir bps) w w1" "fell_short H dir bps U w1 w'"
  shows "fell_short H dir bps U w w'"
proof -
  from assms(1,3) have "\<exists>qs tail. sent w' = sent w @ qs @ tail \<and>
     gets_of U qs \<and> (tail = [] \<or> (\<exists>resp e. own_responder H resp \<and> tail = report H resp e))"
    unfolding fell_short_def fetched_def by (metis append.assoc gets_append)
  with running.R_trans [OF assms(2)] assms(3) show ?thesis unfolding fell_short_def by blast
qed

lemma fell_short_mono: "fell_short H dir bps U w w' \<Longrightarrow> U \<subseteq> V \<Longrightarrow> fell_short H dir bps V w w'"
  unfolding fell_short_def by (elim conjE exE) (intro conjI exI; (assumption | erule (1) gets_mono))

lemma fetched_mono: "fetched U w w' \<Longrightarrow> U \<subseteq> V \<Longrightarrow> fetched V w w'"
  unfolding fetched_def by (meson gets_mono)

lemma ran_nothing:
  assumes "ran_only (\<lambda>_. False) w w'"
  shows "runs w' = runs w"
proof -
  from assms obtain rs where "runs w' = runs w @ rs" "list_all ((\<lambda>_. False) \<circ> fst) rs" unfolding ran_only_def by blast
  then show ?thesis by (cases rs) simp_all
qed

lemma install_all_Cons:
  "run_state (attempt (install_all H r (i # is)) id k) w =
   run_state (attempt (on_err (Install H i) (respond_and_die H r ''error installing: '') ok) id
     (\<lambda>_. attempt (install_all H r is) id k)) w"
  by (simp add: install_all_def split: prod.split result.split)

lemma install_all_Nil: "run_state (attempt (install_all H r []) id k) w = run_state (k ()) w"
  by (simp add: install_all_def)

text \<open>After the application: the build cache and its unpacking.\<close>

definition cache_request :: "http_client \<Rightarrow> string \<Rightarrow> (http_client \<times> http_request) list" where
  "cache_request client uri = (if uri = '''' then [] else [(client, get_request uri)])"

definition unpack_cache :: "host \<Rightarrow> string \<Rightarrow> string \<Rightarrow> (world, unit) go" where
  "unpack_cache H uri dir =
     (if uri \<noteq> '''' then
        on_err (untarCache H dir) (\<lambda>err. log_Fatal (''error untarring cache: '' @ Error err)) ok
      else ok ())"

text \<open>The programs of a download that has everything: clones, then the unpacking of the cache,
  which decides on the result.\<close>

definition unpacked :: "string \<Rightarrow> string \<Rightarrow> bool \<Rightarrow> (command \<times> bool) list \<Rightarrow> bool" where
  "unpacked uri dir b ts \<longleftrightarrow> (if uri = '''' then b \<and> ts = []
     else (\<exists>tar. ts = [(untar_command tar dir, b)]) \<or> \<not> b \<and> ts = [])"

lemma untarCache_cases:
  assumes "run_state (untarCache H dir) w = (r, w')"
  shows "sent w' = sent w \<and> (r = Ok () \<and> (\<exists>tar. runs w' = runs w @ [(untar_command tar dir, True)]) \<or>
    (\<exists>e. r = Err e) \<and> (runs w' = runs w \<or> (\<exists>tar. runs w' = runs w @ [(untar_command tar dir, False)])))"
proof -
  have "offline (untarCache H dir :: ('a world_scheme, unit) go)"
    unfolding untarCache_def by (intro offline.within_intros offline_Run_cmd quiet_offline effect_intros)
  from offline_eq [OF this assms] have "sent w' = sent w" .
  moreover have "r = Ok () \<and> (\<exists>tar. runs w' = runs w @ [(untar_command tar dir, True)]) \<or>
    (\<exists>e. r = Err e) \<and> (runs w' = runs w \<or> (\<exists>tar. runs w' = runs w @ [(untar_command tar dir, False)]))"
  proof (cases "h_lookPath H ''tar'' (fs w)")
    case (Inl s)
    with assms show ?thesis by (auto simp: untarCache_def LookPath_def)
  next
    case (Inr tar)
    obtain r1 w1 where 1: "run_state (Run_cmd H (untar_command tar dir)) w = (r1, w1)" by fastforce
    from Run_cmd_runs [OF 1] assms 1 Inr show ?thesis
      by (auto simp: untarCache_def LookPath_def untar_command_def)
  qed
  ultimately show ?thesis ..
qed

lemma unpack_cache_cases:
  assumes run: "run_state (unpack_cache H uri dir) w = (r, w')"
  shows "sent w' = sent w \<and> (\<exists>ts. runs w' = runs w @ ts \<and>
    (r = Ok () \<and> unpacked uri dir True ts \<or> r = Exit 1 \<and> unpacked uri dir False ts))"
proof (cases "uri = ''''")
  case True
  with run show ?thesis by (auto simp: unpack_cache_def unpacked_def)
next
  case False
  obtain r1 w1 where 1: "run_state (untarCache H dir) w = (r1, w1)" by fastforce
  note u = untarCache_cases [OF 1]
  show ?thesis
  proof (cases r1)
    case (Ok x)
    with u run 1 False show ?thesis by (auto simp: unpack_cache_def unpacked_def)
  next
    case (Err e)
    with run 1 False have "run_state (log_Fatal (''error untarring cache: '' @ Error e)) w1 = (r, w')"
      by (simp add: unpack_cache_def)
    from die_cases [OF this] u Err False show ?thesis by (auto simp: unpacked_def)
  qed (use u in auto)
qed

lemma cache_phase:
  assumes run: "run_state (attempt (install_all H resp (if uri = '''' then [] else [AppInstaller
      (NewPackageManager client uri dir f)])) id (\<lambda>_. unpack_cache H uri dir)) w = (r, w')"
    and resp: "own_responder H resp"
  shows "(sent w' = sent w @ cache_request client uri \<and> (\<exists>ts. runs w' = runs w @ ts \<and>
      (r = Ok () \<and> unpacked uri dir True ts \<or> r = Exit 1 \<and> unpacked uri dir False ts))) \<or>
    r = Exit 1 \<and> fell_short H bdir bps {uri} w w'"
proof (cases "uri = ''''")
  case True
  with run have "run_state (unpack_cache H uri dir) w = (r, w')" by (simp add: install_all_def)
  from unpack_cache_cases [OF this] True show ?thesis by (simp add: cache_request_def)
next
  case False
  let ?c = "NewPackageManager client uri dir f"
  have c: "pi_downloadURL ?c = uri" "pi_client ?c = client" by (simp_all add: NewPackageManager_def)
  note run = run [unfolded if_not_P [OF False] install_all_Cons]
  from run show ?thesis
  proof (rule package.round)
    fix w1
    assume a: "run_state (Install H (AppInstaller ?c)) w = (Ok (), w1)"
      "run_state (attempt (install_all H resp []) id (\<lambda>_. unpack_cache H uri dir)) w1 = (r, w')"
      "ran_only (\<lambda>_. False) w w1"
    from PackageInstaller_sent [OF a(1) [unfolded Install.simps]] have "sent w1 = sent w @ cache_request client uri"
      using False by (simp add: cache_request_def c)
    with unpack_cache_cases [OF a(2) [unfolded install_all_Nil]] ran_nothing [OF a(3)] show ?thesis by simp
  next
    fix w1 e
    assume "r = Exit 1" "fetched {pi_downloadURL ?c} w w1" "ran_only (\<lambda>_. False) w w1"
      "sent w' = sent w1 @ report H resp e" "runs w' = runs w1"
    with fell_short_report [of "{uri}" w w1 H bdir bps resp w' e] resp ran_nothing [of w w1]
    show ?thesis by (auto simp: c ran_only_def)
  qed
qed

text \<open>The whole loop over the installers, and what follows it.\<close>

definition download_outcome ::
  "host \<Rightarrow> string \<Rightarrow> string \<Rightarrow> string \<Rightarrow> string \<Rightarrow> string \<Rightarrow> world \<Rightarrow> unit result \<Rightarrow> world \<Rightarrow> bool" where
  "download_outcome H bdir json app uri dir w r w' \<longleftrightarrow>
     (\<exists>qs rs ts. sent w' = sent w @ qs \<and> all_downloads json app uri qs \<and> runs w' = runs w @ rs @ ts \<and>
        list_all (clones_buildpack H bdir (wanted json) \<circ> fst) rs \<and>
        (r = Ok () \<and> unpacked uri dir True ts \<or> r = Exit 1 \<and> unpacked uri dir False ts)) \<or>
     r = Exit 1 \<and> fell_short H bdir (wanted json) (bp_URL ` set (wanted json) \<union> {app, uri}) w w'"

lemma install_phase:
  assumes run: "run_state (attempt (install_all H resp (BuildpackInstaller b # AppInstaller d #
      (if uri = '''' then [] else [AppInstaller (NewPackageManager client uri dir f)])))
      id (\<lambda>_. unpack_cache H uri dir)) w = (r, w')"
    and resp: "own_responder H resp" and d: "pi_client d = client"
    and b: "mgr_internalClient b = client" "mgr_defaultClient b = DefaultClient"
  shows "download_outcome H (mgr_buildpackDir b) (mgr_buildpacksJSON b) (pi_downloadURL d) uri dir w r w'"
proof -
  let ?bps = "wanted (mgr_buildpacksJSON b)" and ?bd = "mgr_buildpackDir b" and ?app = "pi_downloadURL d"
  let ?U = "bp_URL ` set ?bps \<union> {?app, uri}"
  from run [unfolded install_all_Cons] show ?thesis
  proof (rule buildpacks.round)
    fix w1 e
    assume "r = Exit 1" "fetched (bp_URL ` set ?bps) w w1" "ran_only (clones_buildpack H ?bd ?bps) w w1"
      "sent w' = sent w1 @ report H resp e" "runs w' = runs w1"
    with fell_short_report [of ?U w w1 H ?bd ?bps resp w' e] resp fetched_mono [of "bp_URL ` set ?bps" w w1 ?U]
    show ?thesis by (auto simp: download_outcome_def)
  next
    fix w1
    assume b1: "run_state (Install H (BuildpackInstaller b)) w = (Ok (), w1)"
      and 1: "run_state (attempt (install_all H resp (AppInstaller d #
        (if uri = '''' then [] else [AppInstaller (NewPackageManager client uri dir f)])))
        id (\<lambda>_. unpack_cache H uri dir)) w1 = (r, w')"
      "fetched (bp_URL ` set ?bps) w w1" "ran_only (clones_buildpack H ?bd ?bps) w w1"
    have f1: "fetched ?U w w1" by (rule fetched_mono [OF 1(2)]) auto
    from 1(1) [unfolded install_all_Cons] show ?thesis
    proof (rule package.round)
      fix w2 e
      assume a: "r = Exit 1" "fetched {?app} w1 w2" "ran_only (\<lambda>_. False) w1 w2"
        "sent w' = sent w2 @ report H resp e" "runs w' = runs w2"
      have "fetched ?U w w2" by (rule fetching.R_trans [OF f1 fetched_mono [OF a(2)]]) auto
      moreover have "ran_only (clones_buildpack H ?bd ?bps) w w2"
        using 1(3) ran_nothing [OF a(3)] by (simp add: ran_only_def)
      ultimately show ?thesis using fell_short_report [OF _ _ resp a(4,5)] a(1) by (simp add: download_outcome_def)
    next
      fix w2
      assume 2: "run_state (Install H (AppInstaller d)) w1 = (Ok (), w2)"
        "run_state (attempt (install_all H resp (if uri = '''' then [] else
          [AppInstaller (NewPackageManager client uri dir f)])) id (\<lambda>_. unpack_cache H uri dir)) w2 = (r, w')"
        "fetched {?app} w1 w2" "ran_only (\<lambda>_. False) w1 w2"
      have f2: "fetched ?U w w2" by (rule fetching.R_trans [OF f1 fetched_mono [OF 2(3)]]) auto
      have r2: "ran_only (clones_buildpack H ?bd ?bps) w w2"
        using 1(3) ran_nothing [OF 2(4)] by (simp add: ran_only_def)
      from cache_phase [OF 2(2) resp, of ?bd ?bps] show ?thesis
      proof (elim disjE conjE exE)
        assume "r = Exit 1" "fell_short H ?bd ?bps {uri} w2 w'"
        with fell_short_after [OF f2 r2] fell_short_mono [of H ?bd ?bps "{uri}" w2 w' ?U]
        show ?thesis by (auto simp: download_outcome_def)
      next
        fix ts
        assume s: "sent w' = sent w2 @ cache_request client uri" "runs w' = runs w2 @ ts"
        from BuildpackManager_sent [OF b1 [unfolded Install.simps]] obtain listed qss where
          listed: "Unmarshal decode_Buildpacks None (mgr_buildpacksJSON b) = Some listed"
          and g: "sent w1 = sent w @ concat qss" "list_all2 (\<lambda>bp. fetch_requests b (bp_URL bp)) ?bps qss"
          unfolding buildpack_requests_def by blast
        from r2 obtain rs where rs: "runs w2 = runs w @ rs" "list_all (clones_buildpack H ?bd ?bps \<circ> fst) rs"
          by (auto simp: ran_only_def)
        have q: "sent w' = sent w @ concat qss @ [(client, get_request ?app)] @ cache_request client uri"
          "all_downloads (mgr_buildpacksJSON b) ?app uri (concat qss @ [(client, get_request ?app)] @ cache_request client uri)"
        proof -
          show "sent w' = sent w @ concat qss @ [(client, get_request ?app)] @ cache_request client uri"
            using s(1) g(1) PackageInstaller_sent [OF 2(1) [unfolded Install.simps]] d by simp
          show "all_downloads (mgr_buildpacksJSON b) ?app uri (concat qss @ [(client, get_request ?app)] @ cache_request client uri)"
            unfolding all_downloads_def cache_request_def
            by (intro exI [of _ client] exI [of _ listed] exI [of _ qss] conjI refl listed g(2) [unfolded fetch_requests_def b])
        qed
        show ?thesis if "r = Ok ()" "unpacked uri dir True ts"
          unfolding download_outcome_def using q rs s(2) that by (metis append.assoc)
        show ?thesis if "r = Exit 1" "unpacked uri dir False ts"
          unfolding download_outcome_def using q rs s(2) that by (metis append.assoc)
      qed
    qed
  qed
qed

lemma idle_outcome:
  "sent w' = sent w \<Longrightarrow> runs w' = runs w \<Longrightarrow> r = Exit 1 \<Longrightarrow> download_outcome H bdir json app uri dir w r w'"
  unfolding download_outcome_def by (intro disjI2 conjI fell_short_idle)

lemma download_outcome_after:
  "sent w1 = sent w \<Longrightarrow> runs w1 = runs w \<Longrightarrow> download_outcome H bdir json app uri dir w1 r w' \<Longrightarrow>
    download_outcome H bdir json app uri dir w r w'"
  by (simp add: download_outcome_def fell_short_def ran_only_def)

definition supported :: "host \<Rightarrow> bool" where
  "supported H \<longleftrightarrow> h_env H EnvBuildpackCacheChecksum \<noteq> None \<and>
     h_env H EnvBuildpackCacheChecksumAlgorithm = Some ''sha256''"

text \<open>The installer for the build cache: nothing is done for it yet, and without a supported
  checksum the process ends here.\<close>

lemma cache_installer_cases:
  assumes run: "run_state (cache_installer H client uri dir) w = (r, w')"
  shows "sent w' = sent w \<and> runs w' = runs w \<and>
    (if uri = '''' \<or> supported H
     then \<exists>f. r = Ok (if uri = '''' then [] else [AppInstaller (NewPackageManager client uri dir f)])
     else r = Exit 1)"
proof (cases "uri = ''''")
  case True
  with run show ?thesis by (simp add: cache_installer_def)
next
  case False
  obtain r1 w1 where 1: "run_state (MustGetEnv H EnvBuildpackCacheChecksum) w = (r1, w1)" by fastforce
  obtain r2 w2 where 2: "run_state (MustGetEnv H EnvBuildpackCacheChecksumAlgorithm) w1 = (r2, w2)" by fastforce
  show ?thesis
    using False MustGetEnv_cases [OF 1] MustGetEnv_cases [OF 2] run 1 2
    by (auto simp: cache_installer_def checksumAlgorithm_def supported_def dest: die_cases
        split: option.splits if_splits prod.splits result.splits)
qed

lemma download_phase:
  assumes run: "run_state (attempt (cache_installer H client uri dir) id (\<lambda>cacheInstallers.
      attempt (effect (log_Println ''Installing dependencies'')) id (\<lambda>_.
      attempt (install_all H resp ([BuildpackInstaller b, AppInstaller d] @ cacheInstallers)) id
        (\<lambda>_. unpack_cache H uri dir)))) w = (r, w')"
    and resp: "own_responder H resp" and d: "pi_client d = client"
    and b: "mgr_internalClient b = client" "mgr_defaultClient b = DefaultClient"
  shows "download_outcome H (mgr_buildpackDir b) (mgr_buildpacksJSON b) (pi_downloadURL d) uri dir w r w' \<and>
    (uri = '''' \<or> supported H \<or> r = Exit 1 \<and> sent w' = sent w \<and> runs w' = runs w)"
proof -
  obtain r1 w1 where 1: "run_state (cache_installer H client uri dir) w = (r1, w1)" by fastforce
  note c = cache_installer_cases [OF 1]
  show ?thesis
  proof (cases "uri = '''' \<or> supported H")
    case True
    with c obtain f where r1: "r1 = Ok (if uri = '''' then [] else [AppInstaller (NewPackageManager client uri dir f)])"
      by auto
    let ?w = "w1\<lparr>trace := trace w1 @ [Logged ''Installing dependencies'']\<rparr>"
    have "sent ?w = sent w" "runs ?w = runs w" using c by (simp_all add: sent_def runs_def)
    moreover have "run_state (attempt (install_all H resp (BuildpackInstaller b # AppInstaller d #
      (if uri = '''' then [] else [AppInstaller (NewPackageManager client uri dir f)])))
      id (\<lambda>_. unpack_cache H uri dir)) ?w = (r, w')"
      using run 1 r1 by (simp add: log_Println_def emit_def)
    ultimately show ?thesis using download_outcome_after install_phase [OF _ resp d b] True by blast
  next
    case False
    with c run 1 show ?thesis by (auto intro: idle_outcome)
  qed
qed

text \<open>The part of the process from the first request on, for a client and a responder.\<close>

definition download_everything :: "host \<Rightarrow> Responder \<Rightarrow> http_client \<Rightarrow> (world, unit) go" where
  "download_everything H resp client =
     (let uri = Getenv H EnvBuildpackCacheDownloadURI; dir = Getenv H EnvBuildArtifactsCacheDir in
      attempt (cache_installer H client uri dir) id (\<lambda>cacheInstallers.
      attempt (effect (log_Println ''Installing dependencies'')) id (\<lambda>_.
      attempt (install_all H resp ([BuildpackInstaller (NewBuildpackManager client DefaultClient
           (GetEnvOrDefault H EnvBuildpacksDir RecipeBuildPacksDir) (Getenv H EnvBuildpacks)),
         AppInstaller (NewPackageManager client (Getenv H EnvDownloadURL)
           (GetEnvOrDefault H EnvWorkspaceDir RecipeWorkspaceDir) None)] @ cacheInstallers)) id
        (\<lambda>_. unpack_cache H uri dir))))"

text \<open>Before the first request, the process gives up without a report, or with one when there is
  no client, or comes to this part.\<close>

lemma downloader_main_cases:
  assumes run: "run_state (downloader_main H) w = (r, w')"
  obtains (Idle) "r = Exit 1" "sent w' = sent w" "runs w' = runs w"
    | (No_client) resp e and w1 :: world where "r = Exit 1" "sent w' = sent w @ report H resp e" "runs w' = runs w"
      "own_responder H resp"
      "run_state (createDownloadHTTPClient H (GetEnvOrDefault H EnvCertsPath CCCertsMountPath)) w1 = (Err e, w1)"
    | (Client) resp client w1 where "own_responder H resp" "sent w1 = sent w" "runs w1 = runs w"
      "run_state (download_everything H resp client) w1 = (r, w')"
proof -
  let ?cert = "GetEnvOrDefault H EnvCertsPath CCCertsMountPath"
  obtain r1 w1 where 1: "run_state (MustGetEnv H EnvBuildArtifactsCacheDir) w = (r1, w1)" by fastforce
  note m1 = MustGetEnv_cases [OF 1]
  note run' = run [unfolded downloader_main_def Let_def run_attempt [of "MustGetEnv H EnvBuildArtifactsCacheDir"] 1 prod.case]
  show thesis
  proof (cases "h_env H EnvBuildArtifactsCacheDir")
    case None
    with m1 run' show thesis by (intro Idle) auto
  next
    case (Some dir)
    with m1 have r1: "r1 = Ok dir" by simp
    obtain r2 w2 where 2: "run_state (MkdirAll H dir perm_0755) w1 = (r2, w2)" by fastforce
    have q2: "sent w2 = sent w" "runs w2 = runs w"
      using offline_eq [OF quiet_offline 2] no_runs_eq [OF quiet_no_runs 2] m1 by (auto intro: effect_intros)
    obtain r3 w3 where 3: "run_state (MustGetEnv H EnvBuildpackCacheDownloadURI) w2 = (r3, w3)" by fastforce
    note m3 = MustGetEnv_cases [OF 3]
    obtain r4 w4 where 4: "run_state (CreateResponder H ?cert) w3 = (r4, w4)" by fastforce
    from CreateResponder_cases [OF 4] obtain resp where r4: "r4 = Ok resp" and resp: "own_responder H resp"
      and q4: "runs w4 = runs w" "sent w4 = sent w" using m3 q2 by auto
    obtain r5 w5 where 5: "run_state (createDownloadHTTPClient H ?cert) w4 = (r5, w5)" by fastforce
    then have q5: "w5 = w4" "returned r5"
      by (auto simp: createDownloadHTTPClient_def CreateTLSHTTPClient_def split: option.splits)
    have "returns (MkdirAll H dir perm_0755 :: (world, unit) go)" by (rule returns_dirs)
    then show thesis using 2
    proof (rule returnsE)
      fix e assume "r2 = Err e"
      with run' r1 2 q2 show thesis by (intro Idle) (auto dest!: die_cases)
    next
      fix x assume r2: "r2 = Ok x"
      show thesis
      proof (cases "h_env H EnvBuildpackCacheDownloadURI")
        case None
        with m3 run' r1 r2 2 3 q2 show thesis by (intro Idle) auto
      next
        case Uri: (Some uri)
        with m3 have r3: "r3 = Ok uri" by simp
        note run4 = run' [unfolded r1 r2 r3 r4 2 3 4 5 q5(1) run_on_err [of "MkdirAll H dir perm_0755"]
            run_on_err [of "CreateResponder H ?cert"] run_attempt [of "MustGetEnv H EnvBuildpackCacheDownloadURI"]
            run_on_err [of "createDownloadHTTPClient H ?cert"] prod.case result.case]
        show thesis
        proof (cases r5)
          case (Err e)
          with run4 have "run_state (respond_and_die H resp ''error creating http client: '' e) w4 = (r, w')" by simp
          from respond_and_die_cases [OF this] q4 resp 5 q5 Err show thesis by (intro No_client [of resp e w4]) auto
        next
          case (Ok client)
          have "Getenv H EnvBuildpackCacheDownloadURI = uri" "Getenv H EnvBuildArtifactsCacheDir = dir"
            by (simp_all add: Getenv_def Uri Some)
          with run4 Ok have "run_state (download_everything H resp client) w4 = (r, w')"
            by (simp only: result.case download_everything_def Let_def unpack_cache_def)
          with resp q4 show thesis by (intro Client)
        qed (use q5 in auto)
      qed
    qed
  qed
qed


text \<open>C32: With a nonempty address for the build cache but no checksum, or with another algorithm than
  \<^verbatim>\<open>sha256\<close>, the process ends with exit code 1, without any download and without any program, and
  the platform is not told why: the only failure that can be reported before is that the client
  could not be configured. The integration test for this case prepares the server for a message
  with the reason \<^verbatim>\<open>algorithm\<close>; it is never sent.\<close>

theorem unsupported_checksum_unreported:
  assumes "Getenv H EnvBuildpackCacheDownloadURI \<noteq> ''''"
    and "h_env H EnvBuildpackCacheChecksum = None \<or> h_env H EnvBuildpackCacheChecksumAlgorithm \<noteq> Some ''sha256''"
  shows "case run_state (downloader_main H) w of (r, w') \<Rightarrow> r = Exit 1 \<and> runs w' = runs w \<and>
    (sent w' = sent w \<or>
     (\<exists>t s resp. h_tls H (client_certs H) t = Some s \<and> own_responder H resp \<and>
        sent w' = sent w @ report H resp (ErrorfW ''failed to build tlsconfig'' (External s))))"
proof -
  obtain r w' where run: "run_state (downloader_main H) w = (r, w')" by fastforce
  have "\<not> supported H" using assms(2) by (auto simp: supported_def)
  from run have "r = Exit 1 \<and> runs w' = runs w \<and> (sent w' = sent w \<or>
     (\<exists>t s resp. h_tls H (client_certs H) t = Some s \<and> own_responder H resp \<and>
        sent w' = sent w @ report H resp (ErrorfW ''failed to build tlsconfig'' (External s))))"
  proof (cases rule: downloader_main_cases)
    case (No_client resp e w1)
    then obtain s where "h_tls H (client_certs H) (fs w1) = Some s" "e = ErrorfW ''failed to build tlsconfig'' (External s)"
      by (auto simp: createDownloadHTTPClient_def CreateTLSHTTPClient_def client_certs_def Let_def split: option.splits)
    with No_client show ?thesis by blast
  next
    case (Client resp client w1)
    have b: "mgr_internalClient (NewBuildpackManager client DefaultClient x y) = client"
      "mgr_defaultClient (NewBuildpackManager client DefaultClient x y) = DefaultClient" for x y
      by (simp_all add: NewBuildpackManager_def)
    from download_phase [OF Client(4) [unfolded download_everything_def Let_def] Client(1) _ b] Client assms(1) \<open>\<not> supported H\<close>
    show ?thesis by (simp add: NewPackageManager_def)
  qed simp
  then show ?thesis unfolding run by simp
qed

definition md5_host :: host where
  "md5_host = sample_host\<lparr>h_env := (\<lambda>n.
     if n = EnvBuildArtifactsCacheDir then Some ''/cache''
     else if n = EnvBuildpackCacheDownloadURI then Some ''http://h/c''
     else if n = EnvBuildpackCacheChecksum then Some ''bee''
     else if n = EnvBuildpackCacheChecksumAlgorithm then Some ''md5'' else None)\<rparr>"

lemma unsupported_checksum_unreported_witness:
  "case run_state (downloader_main md5_host) sample_world of (r, w') \<Rightarrow>
     r = Exit 1 \<and> sent w' = [] \<and> runs w' = []"
proof -
  have "Getenv md5_host EnvBuildpackCacheDownloadURI \<noteq> []" by code_simp
  moreover have "h_env md5_host EnvBuildpackCacheChecksumAlgorithm \<noteq> Some ''sha256''" by code_simp
  moreover have "h_tls md5_host ps t = None" for ps t by (simp add: md5_host_def sample_host_def)
  moreover have "sent sample_world = []" "runs sample_world = []" by code_simp+
  ultimately show ?thesis using unsupported_checksum_unreported [of md5_host sample_world] by (auto split: prod.splits)
qed

end
