(* ===== verification/Placing.thy ===== *)
theory Placing
  imports Downloading
begin

text \<open>
  Where the buildpacks are after a complete download: what the installers do to the kinds of the
  nodes in the tree, and that each buildpack has its folder at the end, also when others were
  installed or cloned after it.
\<close>

section \<open>Folders stay folders\<close>

text \<open>The kind of a node does not change, and no node disappears.\<close>

definition kinds :: "node \<Rightarrow> node \<Rightarrow> bool" where
  "kinds t t' \<longleftrightarrow> (\<forall>q. folder_at t q \<longrightarrow> folder_at t' q) \<and> (\<forall>q. file_at t q \<longrightarrow> file_at t' q)"

abbreviation steady :: "('x world_scheme, 'a) state \<Rightarrow> bool" where
  "steady m \<equiv> state_io_rel (\<lambda>w w'. kinds (fs w) (fs w')) m"

interpretation steady: effect_relation "\<lambda>w w' :: 'x world_scheme. kinds (fs w) (fs w')"
  by unfold_locales (auto simp: kinds_def)

lemma kinds_refl [simp]: "kinds t t"
  by (simp add: kinds_def)

lemma kinds_folder: "kinds t t' \<Longrightarrow> folder_at t q \<Longrightarrow> folder_at t' q"
  by (simp add: kinds_def)

lemma keeps_kinds: "keeps t t' \<Longrightarrow> kinds t t'"
  by (auto simp: keeps_def kinds_def file_at_iff)

lemma keeping_steady: "keeping m \<Longrightarrow> steady m"
  by (auto simp: state_io_rel_def keeps_kinds split: prod.splits)

lemma same_fs_steady: "(\<And>w r w'. run_state m w = (r, w') \<Longrightarrow> fs w' = fs w) \<Longrightarrow> steady m"
  by (rule state_io_relI) simp

lemma enter_kinds:
  assumes f: "file_entry f" and run: "enter absent f p t = (r, t')"
  shows "kinds t t'"
proof (cases r)
  case (Inl e)
  with run enter_Inl show ?thesis by (metis kinds_refl)
next
  case (Inr u)
  note touch = enter_touches [OF f run]
  from enter_effect [OF run [unfolded Inr]] obtain v where v: "lookup t' p = Some v" by blast
  have "file_at t' q" if q: "file_at t q" for q
  proof (cases "q = p")
    case True
    from q have "\<not> folder_at t p" by (auto simp: True file_at_iff folder_at_iff)
    then have "\<not> folder_at t' p" using touches_folder [OF touch] by simp
    with v True show ?thesis by (cases v) (auto simp: file_at_iff folder_at_iff)
  next
    case False
    with q touches_file [OF touch] show ?thesis by (auto simp: file_at_iff)
  qed
  with touches_folder [OF touch] show ?thesis by (simp add: kinds_def)
qed

lemma syscall_enter_steady: "file_entry f \<Longrightarrow> steady (syscall H op p (enter absent f))"
  by (rule state_io_relI, erule syscall_cases) (auto intro: enter_kinds)

lemma steady_files:
  "steady (OpenCreate H p m)" "steady (Create H p)" "steady (Write H p s)" "steady (Chmod H p m)"
  by (auto simp: OpenCreate_def Create_def Write_def Chmod_def intro!: syscall_enter_steady)

lemma steady_WriteFile: "steady (WriteFile H p s m)"
  unfolding WriteFile_def by (intro steady.within_intros steady_files)

lemma steady_looks: "steady (Stat H p)" "steady (ReadFile H p)"
  by (rule same_fs_steady, erule fs_unchanged)+

lemma steady_dirs: "steady (MkdirAll H p m)" "steady (TempDir H pre)"
  by (intro keeping_steady MkdirAll_keeps TempDir_keeps)+

lemma steady_write_chunk: "steady (write_chunk H p c)"
  unfolding write_chunk_def by (auto intro: steady.within_ok steady_files)

lemma steady_io_Copy: "steady (io_Copy H K path r n)"
proof (induction "pending r" arbitrary: r n rule: less_induct)
  case less
  obtain chunk err r' where rd: "Read K r = ((chunk, err), r')" by (metis prod.exhaust)
  show ?case
  proof (cases err)
    case None
    with Read_pending rd have "pending r' < pending r" by blast
    from less.hyps [OF this] show ?thesis
      unfolding io_Copy.simps [of H K path r n] rd prod.case None option.case
      by (intro steady.within_on_err steady_write_chunk steady.within_ok)
  next
    case (Some e)
    show ?thesis
      unfolding io_Copy.simps [of H K path r n] rd prod.case Some option.case
      by (intro steady.within_on_err steady_write_chunk steady.within_ok)
  qed
qed

lemma steady_Extract: "steady (Extract H limit src dest)"
  unfolding Extract_def OpenReader_def extract_entry_def extractFile_def Open_entry_def io_CopyN_def
  by (intro steady.within_intros steady_files steady_looks steady_dirs steady_io_Copy)

lemma steady_network: "steady (NewRequest H m u s)" "steady (Do H c q)" "steady (Get H c u)"
proof -
  show "steady (NewRequest H m u s)" "steady (Do H c q)" for m u s c q
    by (rule same_fs_steady, auto simp: NewRequest_def Do_def split: sum.splits)+
  then show "steady (Get H c u)" unfolding Get_def by (intro steady.within_intros)
qed

lemma steady_Package: "steady (PackageInstaller_Install H d)"
  unfolding PackageInstaller_Install_def download_def
  by (intro steady.within_intros steady_files steady_io_Copy steady_network)

lemma steady_prepare: "steady (prepare_archive H b bp dest)"
  unfolding prepare_archive_def fetch_buildpack_def OpenBuildpackURL_def Let_def
  by (intro steady.within_intros steady_network steady_dirs steady_WriteFile)

text \<open>Removing a file leaves every folder.\<close>

lemma Remove_file_folders:
  assumes "run_state (ignoring (Remove H p)) w = (u, w')" and f: "file_at (fs w) (resolve H p)"
    and d: "folder_at (fs w) d"
  shows "folder_at (fs w') d"
proof -
  let ?c = "resolve H p"
  have "fs w' = fs w \<or> fs w' = del ?c (fs w)"
    using assms(1) by (auto simp: Remove_def syscall_def Let_def split: option.splits sum.splits node.splits list.splits if_splits)
  moreover have "folder_at (del ?c (fs w)) d"
  proof (cases "strict_prefix d ?c")
    case True
    with d show ?thesis by (simp add: del_def folder_at_upd_above)
  next
    case False
    have "\<not> prefix ?c d"
    proof
      assume "prefix ?c d"
      then obtain q where q: "d = ?c @ q" by (auto simp: prefix_def)
      with d f have "q \<noteq> []" by (auto simp: folder_at_iff file_at_iff)
      with d q have "folder_at (fs w) ?c" by (auto simp: folder_at_iff dest: folder_at_prefix [unfolded folder_at_iff])
      with f show False by (auto simp: folder_at_iff file_at_iff)
    qed
    with False have "?c \<parallel> d" by (auto simp: parallel_def)
    with d show ?thesis by (simp add: del_def lookup_upd_parallel folder_at_iff)
  qed
  ultimately show ?thesis using d by auto
qed

section \<open>Installing the buildpacks\<close>

text \<open>What the programs are relied on for: a clone that succeeds has made the folder it was given, and
  no program removes the folder of a buildpack.\<close>

definition clones_make :: "host \<Rightarrow> bool" where
  "clones_make H \<longleftrightarrow> (\<forall>n git repo dest t. \<forall>c\<in>{shallow_clone git repo dest, full_clone git repo dest}.
     snd (fst (h_exec H n c t)) = None \<longrightarrow> folder_at (snd (h_exec H n c t)) (resolve H dest))"

definition buildpack_folder :: "host \<Rightarrow> string \<Rightarrow> string \<Rightarrow> string list" where
  "buildpack_folder H dir name = resolve H (BuildpackPath dir name)"

definition leaves_buildpacks :: "host \<Rightarrow> string \<Rightarrow> bool" where
  "leaves_buildpacks H dir \<longleftrightarrow> (\<forall>n c t name. folder_at t (buildpack_folder H dir name) \<longrightarrow>
     folder_at (snd (h_exec H n c t)) (buildpack_folder H dir name))"

lemma buildpack_folder_cases: "buildpack_folder H d n = buildpack_folder H d n' \<or> buildpack_folder H d n \<parallel> buildpack_folder H d n'"
proof -
  have "buildpack_folder H d m = resolve H d @ [buildpack_dir_name m]" for m
    by (simp add: buildpack_folder_def BuildpackPath_Join path_simps plain_buildpack_dir_name)
  then show ?thesis by (auto simp: parallel_def)
qed

lemma RemoveAll_other:
  assumes "run_state (RemoveAll H p) w = (r, w')" and "resolve H p \<parallel> q"
  shows "lookup (fs w') q = lookup (fs w) q"
proof -
  have "fs w' = fs w \<or> fs w' = del (resolve H p) (fs w)"
    using assms(1) by (auto simp: RemoveAll_def remove_tree_def syscall_def Let_def split: option.splits sum.splits if_splits)
  with assms(2) show ?thesis by (auto simp: del_def lookup_upd_parallel)
qed

lemma performGitClone_fs:
  assumes "run_state (performGitClone H git args branch) w = (r, w')"
  shows "fs w' = snd (h_exec H (clock w) (clone_command git args branch) (fs w)) \<and>
    (r = Ok () \<longrightarrow> snd (fst (h_exec H (clock w) (clone_command git args branch) (fs w))) = None)"
  using assms by (auto simp: performGitClone_def Run_cmd_def split: prod.splits option.splits)

lemma GitClone_placed:
  assumes run: "run_state (GitClone H repo (BuildpackPath dir n)) w = (Ok (), w')"
    and make: "clones_make H" and leave: "leaves_buildpacks H dir"
  shows "folder_at (fs w') (buildpack_folder H dir n) \<and>
    (\<forall>n'. folder_at (fs w) (buildpack_folder H dir n') \<longrightarrow> folder_at (fs w') (buildpack_folder H dir n'))"
proof -
  let ?dest = "BuildpackPath dir n"
  obtain git w1 where f1: "fs w1 = fs w" and
    run1: "run_state (on_err (performGitClone H git [''--depth'', ''1'', ''--recursive'', url_base repo, ?dest] (Fragment repo))
         (\<lambda>_. do {
            ignoring (RemoveAll H ?dest);
            on_err (performGitClone H git [''--recursive'', url_base repo, ?dest] (Fragment repo))
              (\<lambda>_. fail (Errorf (''failed to clone git repository at '' @ url_base repo)))
              ok })
         ok) w1 = (Ok (), w')"
    using run by (auto simp: GitClone_def Let_def LookPath_def split: sum.splits)
  have made: "folder_at (fs v') (buildpack_folder H dir n)"
    if "run_state (performGitClone H git args (Fragment repo)) v = (Ok (), v')"
      "clone_command git args (Fragment repo) \<in> {shallow_clone git repo ?dest, full_clone git repo ?dest}" for args v v'
    using performGitClone_fs [OF that(1)] that(2) make unfolding clones_make_def buildpack_folder_def by metis
  have left: "folder_at (fs v') (buildpack_folder H dir n')"
    if "run_state (performGitClone H git args (Fragment repo)) v = (r, v')" "folder_at (fs v) (buildpack_folder H dir n')" for args v v' r n'
    using performGitClone_fs [OF that(1)] that(2) leave unfolding leaves_buildpacks_def by metis
  from run1 show ?thesis
  proof (cases rule: on_err_OkE)
    case (fine x w2)
    with made [of _ w1 w'] left [of _ w1 "Ok x" w'] f1 show ?thesis by (simp add: shallow_clone_def)
  next
    case (handled e w2)
    obtain r3 w3 where 3: "run_state (RemoveAll H ?dest) w2 = (r3, w3)" by fastforce
    with handled(2) have 4: "run_state (performGitClone H git [''--recursive'', url_base repo, ?dest] (Fragment repo)) w3 = (Ok (), w')"
      by (auto split: prod.splits result.splits)
    have f4: "folder_at (fs w') (buildpack_folder H dir n)" by (rule made [OF 4]) (simp add: full_clone_def)
    moreover have "folder_at (fs w') (buildpack_folder H dir n')" if "folder_at (fs w) (buildpack_folder H dir n')" for n'
      using buildpack_folder_cases [of H dir n n']
    proof
      assume "buildpack_folder H dir n \<parallel> buildpack_folder H dir n'"
      with RemoveAll_other [OF 3] left [OF handled(1), of n'] that f1
      have "folder_at (fs w3) (buildpack_folder H dir n')" by (simp add: buildpack_folder_def folder_at_iff)
      then show ?thesis by (rule left [OF 4])
    qed (use f4 in simp)
    ultimately show ?thesis by blast
  qed
qed

lemma prepare_archive_folder:
  assumes "run_state (prepare_archive H b bp dest) w = (Ok (src, bytes), v)" and "rooted dest"
  shows "folder_at (fs v) (resolve H dest)"
proof -
  from assms(1) obtain w1 u1 where "run_state (MkdirAll H dest perm_0777) w1 = (Ok u1, v)"
    unfolding prepare_archive_def Let_def ok_iffs by blast
  with MkdirAll_rooted [of H dest perm_0777 w1 "Ok u1" v] assms(2) show ?thesis by simp
qed

lemma install_buildpack_placed:
  assumes run: "run_state (install_buildpack H b bp) w = (Ok (), w')" and dir: "rooted dir" "mgr_buildpackDir b = dir"
    and make: "clones_make H" and leave: "leaves_buildpacks H dir"
  shows "folder_at (fs w') (buildpack_folder H dir (bp_Name bp)) \<and>
    (\<forall>n'. folder_at (fs w) (buildpack_folder H dir n') \<longrightarrow> folder_at (fs w') (buildpack_folder H dir n'))"
proof -
  let ?dest = "BuildpackPath (mgr_buildpackDir b) (bp_Name bp)"
  obtain p v where prep: "run_state (prepare_archive H b bp ?dest) w = (p, v)" by fastforce
  have "rooted ?dest" using dir by (simp add: path_simps)
  note made = prepare_archive_folder [OF _ this, of H b bp w]
  have kept: "folder_at (fs w'') q" if "folder_at (fs v) q" "p = Ok (src, bytes)" "fetched_zip H b (bp_URL bp) w v src bytes"
      "run_state (Extract H (mgr_limit b) src ?dest) v = (x, v')" "run_state (ignoring (Remove H src)) v' = ((), w'')" for q src bytes x v' w''
  proof -
    note k = state_io_relD [OF steady_Extract that(4)]
    from that(3) k have "file_at (fs v') (resolve H src)" by (auto simp: fetched_zip_def kinds_def file_at_iff)
    from Remove_file_folders [OF that(5) this] kinds_folder [OF k that(1)] show ?thesis by blast
  qed
  note pre = kinds_folder [OF state_io_relD [OF steady_prepare prep]]
  from run refl prep show ?thesis
  proof (cases rule: install_buildpack_cases)
    case (Archive src bytes v')
    from made [OF prep [unfolded Archive(1)]] pre kept [OF _ Archive(1-3) Archive(6)] show ?thesis
      by (auto simp: buildpack_folder_def dir)
  next
    case (Clone src bytes e v' wa)
    from Clone(6) obtain repo where "run_state (GitClone H repo (BuildpackPath dir (bp_Name bp))) wa = (Ok (), w')"
      by (auto simp: dir split: sum.splits)
    from GitClone_placed [OF this make leave] pre kept [OF _ Clone(1-3) Clone(5)] show ?thesis by blast
  qed simp
qed

text \<open>The loop over the list: what was placed stays in its place.\<close>

lemma for_each_placed:
  assumes "run_state (for_each (\<lambda>bp. attempt (install_buildpack H b bp) (f bp) ok) bps) w = (Ok (), w')"
    and "rooted dir" "mgr_buildpackDir b = dir" "clones_make H" "leaves_buildpacks H dir"
  shows "(\<forall>bp\<in>set bps. folder_at (fs w') (buildpack_folder H dir (bp_Name bp))) \<and>
    (\<forall>n'. folder_at (fs w) (buildpack_folder H dir n') \<longrightarrow> folder_at (fs w') (buildpack_folder H dir n'))"
  using assms(1)
proof (induction bps arbitrary: w)
  case (Cons bp bps)
  from Cons.prems obtain w1 where 1: "run_state (install_buildpack H b bp) w = (Ok (), w1)"
    and 2: "run_state (for_each (\<lambda>bp. attempt (install_buildpack H b bp) (f bp) ok) bps) w1 = (Ok (), w')"
    unfolding for_each_Cons_Ok attempt_ok_Ok by blast
  from install_buildpack_placed [OF 1 assms(2-)] Cons.IH [OF 2] show ?case by simp
qed simp

lemma BuildpackManager_placed:
  assumes "run_state (BuildpackManager_Install H b) w = (Ok (), w')"
    and dir: "rooted dir" "mgr_buildpackDir b = dir" "clones_make H" "leaves_buildpacks H dir"
  shows "\<forall>bp\<in>set (wanted (mgr_buildpacksJSON b)). folder_at (fs w') (buildpack_folder H dir (bp_Name bp))"
proof -
  from BuildpackManager_sent [OF assms(1)] obtain listed where
    l: "Unmarshal decode_Buildpacks None (mgr_buildpacksJSON b) = Some listed" by blast
  have wanted: "(case listed of None \<Rightarrow> [] | Some bs \<Rightarrow> bs) = wanted (mgr_buildpacksJSON b)"
    using l by (simp add: wanted_def split: option.split)
  from assms(1) [unfolded BuildpackManager_Install_def l option.case wanted attempt_Ok] obtain w1 u where
    1: "run_state (for_each (\<lambda>bp. attempt (install_buildpack H b bp)
      (ErrorfW (''installing buildpack '' @ bp_Name bp @ '': '' @ bp_URL bp @ '' failed'')) ok)
      (wanted (mgr_buildpacksJSON b))) w = (Ok u, w1)"
    and 2: "run_state (writeBuildpackJSON H b listed) w1 = (Ok (), w')" by blast
  have "steady (writeBuildpackJSON H b listed)"
    unfolding writeBuildpackJSON_def by (intro steady.within_intros steady_WriteFile)
  from kinds_folder [OF state_io_relD [OF this 2]] for_each_placed [of H b _ "wanted (mgr_buildpacksJSON b)" w w1 dir] 1 dir
  show ?thesis by fastforce
qed

section \<open>The process\<close>

text \<open>What comes after the buildpacks sends more and leaves their folders.\<close>

definition later :: "host \<Rightarrow> string \<Rightarrow> world \<Rightarrow> world \<Rightarrow> bool" where
  "later H dir w w' \<longleftrightarrow> (\<exists>qs. sent w' = sent w @ qs) \<and>
     (\<forall>n. folder_at (fs w) (buildpack_folder H dir n) \<longrightarrow> folder_at (fs w') (buildpack_folder H dir n))"

lemma later_refl: "later H dir w w" and later_trans: "later H dir w1 w2 \<Longrightarrow> later H dir w2 w3 \<Longrightarrow> later H dir w1 w3"
  by (auto simp: later_def)

lemma installer_Ok:
  assumes "run_state (install_all H r (i # is)) w = (Ok (), w')"
  obtains w1 where "run_state (Install H i) w = (Ok (), w1)" "run_state (install_all H r is) w1 = (Ok (), w')"
proof -
  from assms obtain w1 where
    1: "run_state (on_err (Install H i) (respond_and_die H r ''error installing: '') ok) w = (Ok (), w1)"
    and 2: "run_state (install_all H r is) w1 = (Ok (), w')"
    unfolding install_all_def for_each_Cons_Ok by blast
  from 1 have "run_state (Install H i) w = (Ok (), w1)"
    by (cases rule: on_err_OkE) (use respond_and_die_cases in fastforce)+
  from this 2 show thesis by (rule that)
qed

lemma Package_later:
  assumes "run_state (PackageInstaller_Install H d) w = (Ok (), w')"
  shows "later H dir w w'"
  using PackageInstaller_sent [OF assms] kinds_folder [OF state_io_relD [OF steady_Package assms]]
  by (auto simp: later_def)

lemma unpack_cache_later:
  assumes run: "run_state (unpack_cache H uri dir) w = (Ok (), w')" and leave: "leaves_buildpacks H bdir"
  shows "later H bdir w w'"
proof (cases "uri = ''''")
  case True
  with run show ?thesis by (simp add: unpack_cache_def later_refl)
next
  case False
  with run have u: "run_state (untarCache H dir) w = (Ok (), w')"
    by (auto simp: unpack_cache_def split: prod.splits result.splits dest: die_cases)
  then have "\<exists>n c. fs w' = snd (h_exec H n c (fs w))"
    by (auto simp: untarCache_def LookPath_def Run_cmd_def split: sum.splits prod.splits option.splits) (metis snd_conv)
  with leave untarCache_cases [OF u] show ?thesis by (auto simp: later_def leaves_buildpacks_def)
qed

lemma downloader_Ok:
  assumes run: "run_state (downloader_main H) w = (Ok (), w')"
    and dir: "dir = GetEnvOrDefault H EnvBuildpacksDir RecipeBuildPacksDir" and leave: "leaves_buildpacks H dir"
  obtains client v v1 where "sent v = sent w"
    "run_state (BuildpackManager_Install H (NewBuildpackManager client DefaultClient dir (Getenv H EnvBuildpacks))) v = (Ok (), v1)"
    "later H dir v1 w'"
  using run
proof (cases rule: downloader_main_cases)
  case (Client resp client w1)
  let ?uri = "Getenv H EnvBuildpackCacheDownloadURI" and ?cache = "Getenv H EnvBuildArtifactsCacheDir"
  let ?b = "NewBuildpackManager client DefaultClient dir (Getenv H EnvBuildpacks)"
  from Client(4) [unfolded download_everything_def Let_def dir [symmetric] attempt_Ok effect_Ok] obtain cis wa wb wc u u' where
    1: "run_state (cache_installer H client ?uri ?cache) w1 = (Ok cis, wa)"
    and 2: "run_state (log_Println ''Installing dependencies'') wa = (u, wb)"
    and 3: "run_state (install_all H resp ([BuildpackInstaller ?b, AppInstaller (NewPackageManager client (Getenv H EnvDownloadURL)
           (GetEnvOrDefault H EnvWorkspaceDir RecipeWorkspaceDir) None)] @ cis)) wb = (Ok u', wc)"
    and 4: "run_state (unpack_cache H ?uri ?cache) wc = (Ok (), w')" by blast
  note c = cache_installer_cases [OF 1]
  have sb: "sent wb = sent w" using 2 c Client(2) by (auto simp: log_Println_def emit_def sent_def)
  from 3 obtain v1 v2 where b: "run_state (BuildpackManager_Install H ?b) wb = (Ok (), v1)"
    and p: "run_state (PackageInstaller_Install H (NewPackageManager client (Getenv H EnvDownloadURL)
           (GetEnvOrDefault H EnvWorkspaceDir RecipeWorkspaceDir) None)) v1 = (Ok (), v2)"
    and rest: "run_state (install_all H resp cis) v2 = (Ok (), wc)"
    by (auto elim!: installer_Ok)
  have "later H dir v2 wc"
  proof (cases "cis = []")
    case True
    with rest show ?thesis by (simp add: install_all_def later_refl)
  next
    case False
    with c obtain d where "cis = [AppInstaller d]" by (auto split: if_splits)
    from rest [unfolded this] obtain w3 where "run_state (Install H (AppInstaller d)) v2 = (Ok (), w3)"
      "run_state (install_all H resp []) w3 = (Ok (), wc)" by (rule installer_Ok)
    then show ?thesis by (auto simp: install_all_def intro: Package_later)
  qed
  with Package_later [OF p, of dir] unpack_cache_later [OF 4 leave] have "later H dir v1 w'" by (blast intro: later_trans)
  with that sb b show thesis by blast
qed simp_all

lemma buildpack_requested:
  assumes "buildpack_requests b bps qs" "bp \<in> set bps"
  shows "\<exists>client. (client, get_request (bp_URL bp)) \<in> set qs"
proof -
  from assms(1) obtain qss where l: "list_all2 (\<lambda>bp. fetch_requests b (bp_URL bp)) bps qss" and qs: "qs = concat qss"
    unfolding buildpack_requests_def by blast
  from assms(2) obtain i where i: "i < length bps" "bps ! i = bp" by (auto simp: in_set_conv_nth)
  with l have "fetch_requests b (bp_URL bp) (qss ! i)" "i < length qss" by (auto dest: list_all2_nthD list_all2_lengthD)
  then have "(mgr_internalClient b, get_request (bp_URL bp)) \<in> set (qss ! i)" "qss ! i \<in> set qss"
    by (auto simp: fetch_requests_def)
  then show ?thesis unfolding qs by auto
qed

lemma executor_order:
  assumes "InitBuildpacks H (Getenv H EnvBuildpacks) (executor_config H out cache build) = Inr C"
    and "name \<in> set (BuildpackOrder C)"
  shows "\<exists>bp\<in>set (wanted (Getenv H EnvBuildpacks)). bp_Name bp = name"
    and "BuildpacksDir C = GetEnvOrDefault H EnvBuildpacksDir RecipeBuildPacksDir"
  using assms
  by (auto simp: InitBuildpacks_def executor_config_def wanted_def Let_def fold_add_buildpack split: if_splits option.splits)

end
