(* ===== verification/Fakes.thy ===== *)
theory Fakes
  imports Models GoMonad
begin

text \<open>
  The test doubles that counterfeiter generated: \<^verbatim>\<open>eirinistagingfakes/\<close>,
  \<^verbatim>\<open>eirini-stagingfakes/\<close> and \<^verbatim>\<open>integration/integrationfakes/\<close>. A double records the arguments of
  every call and answers with a stub, with the result set for this call, or with the result
  set for all calls. All of them are instances of one template, whose operations come first.
\<close>

section \<open>The template\<close>

text \<open>The arguments of a call as \<^verbatim>\<open>interface{}\<close> values; the writers and requests that a handler is
  given are known by their identity only.\<close>

datatype argument =
    StringArg string
  | StringsArg "string list"
  | BytesArg "string option"
  | ResultArg StagingResult
  | WriterArg nat
  | RequestArg nat

type_synonym invocations = "string \<Rightarrow> argument list list option"

text \<open>A stub may change the state \<open>'s\<close> of the test that set it. The \<^verbatim>\<open>nil\<close> map is \<open>None\<close>.\<close>

record ('s, 'a, 'r) spy =
  fk_stub :: "('a \<Rightarrow> ('s, 'r) state) option"
  fk_args :: "'a list"
  fk_invocations :: "invocations option"

record ('s, 'a, 'r) fake = "('s, 'a, 'r) spy" +
  fk_returns :: 'r
  fk_returnsOnCall :: "(int \<Rightarrow> 'r option) option"

definition new_spy :: "('s, 'a, 'r) spy" where
  "new_spy = \<lparr>fk_stub = None, fk_args = [], fk_invocations = None\<rparr>"

definition new_fake :: "'r \<Rightarrow> ('s, 'a, 'r) fake" where
  "new_fake zero = \<lparr>fk_stub = None, fk_args = [], fk_invocations = None,
     fk_returns = zero, fk_returnsOnCall = None\<rparr>"

definition record_invocation ::
  "string \<Rightarrow> argument list \<Rightarrow> ('s, 'a, 'r, 'x) spy_scheme \<Rightarrow> ('s, 'a, 'r, 'x) spy_scheme" where
  "record_invocation key args f =
     (let m = (case fk_invocations f of None \<Rightarrow> Map.empty | Some m \<Rightarrow> m);
          calls = (case m key of None \<Rightarrow> [] | Some calls \<Rightarrow> calls) in
      f\<lparr>fk_invocations := Some (m(key \<mapsto> calls @ [args]))\<rparr>)"

text \<open>What a call does while it holds the mutex of the method.\<close>

definition note_call ::
  "string \<Rightarrow> ('a \<Rightarrow> argument list) \<Rightarrow> 'a \<Rightarrow> ('s, 'a, 'r, 'x) spy_scheme \<Rightarrow> ('s, 'a, 'r, 'x) spy_scheme" where
  "note_call key enc a f = record_invocation key (enc a) (f\<lparr>fk_args := fk_args f @ [a]\<rparr>)"

text \<open>The index of the call is looked up before the call is recorded.\<close>

definition answer :: "('s, 'a, 'r) fake \<Rightarrow> int \<Rightarrow> 'r" where
  "answer f i =
     (case fk_returnsOnCall f of
        None \<Rightarrow> fk_returns f
      | Some m \<Rightarrow> (case m i of None \<Rightarrow> fk_returns f | Some ret \<Rightarrow> ret))"

definition call_fake ::
  "string \<Rightarrow> ('a \<Rightarrow> argument list) \<Rightarrow> 'a \<Rightarrow> (('s, 'a, 'r) fake \<times> 's, 'r) state" where
  "call_fake key enc a = State (\<lambda>(f, s).
     let f' = note_call key enc a f in
     case fk_stub f' of
       Some stub \<Rightarrow> (case run_state (stub a) s of (r, s') \<Rightarrow> (r, (f', s')))
     | None \<Rightarrow> (answer f (int (length (fk_args f))), (f', s)))"

definition call_spy ::
  "string \<Rightarrow> ('a \<Rightarrow> argument list) \<Rightarrow> 'a \<Rightarrow> (('s, 'a, unit) spy \<times> 's, unit) state" where
  "call_spy key enc a = State (\<lambda>(f, s).
     let f' = note_call key enc a f in
     case fk_stub f' of
       Some stub \<Rightarrow> (case run_state (stub a) s of (r, s') \<Rightarrow> (r, (f', s')))
     | None \<Rightarrow> ((), (f', s)))"

definition call_count :: "('s, 'a, 'r, 'x) spy_scheme \<Rightarrow> int" where
  "call_count f = int (length (fk_args f))"

definition args_for_call :: "('s, 'a, 'r, 'x) spy_scheme \<Rightarrow> int \<Rightarrow> 'a result" where
  "args_for_call f i =
     (if 0 \<le> i \<and> i < int (length (fk_args f)) then Ok (fk_args f ! nat i)
      else Panic ''index out of range'')"

definition set_stub ::
  "('a \<Rightarrow> ('s, 'r) state) option \<Rightarrow> ('s, 'a, 'r, 'x) spy_scheme \<Rightarrow> ('s, 'a, 'r, 'x) spy_scheme" where
  "set_stub stub f = f\<lparr>fk_stub := stub\<rparr>"

definition set_returns :: "'r \<Rightarrow> ('s, 'a, 'r) fake \<Rightarrow> ('s, 'a, 'r) fake" where
  "set_returns r f = f\<lparr>fk_stub := None, fk_returns := r\<rparr>"

definition set_returnsOnCall :: "int \<Rightarrow> 'r \<Rightarrow> ('s, 'a, 'r) fake \<Rightarrow> ('s, 'a, 'r) fake" where
  "set_returnsOnCall i r f =
     (let m = (case fk_returnsOnCall f of None \<Rightarrow> Map.empty | Some m \<Rightarrow> m) in
      f\<lparr>fk_stub := None, fk_returnsOnCall := Some (m(i \<mapsto> r))\<rparr>)"

definition copied_invocations :: "('s, 'a, 'r, 'x) spy_scheme \<Rightarrow> invocations" where
  "copied_invocations f = (case fk_invocations f of None \<Rightarrow> Map.empty | Some m \<Rightarrow> m)"

end
