(* ===== verification/Doubles.thy ===== *)
theory Doubles
  imports Fakes
begin

text \<open>
  The seven test doubles, each with its argument and result types and the name under which it
  records its calls. Errors are \<^verbatim>\<open>error\<close> values, so that \<^verbatim>\<open>nil\<close> is \<open>None\<close>.
  Recorded slices are values here, where Go shares them with the caller, and a stub that fills a
  buffer does so in the state of the test.
\<close>

section \<open>Installer\<close>

type_synonym 's FakeInstaller = "('s, unit, go_error option) fake"

definition FakeInstaller_Install :: "('s FakeInstaller \<times> 's, go_error option) state" where
  "FakeInstaller_Install = call_fake ''Install'' (\<lambda>_. []) ()"

definition FakeInstaller_InstallCallCount :: "'s FakeInstaller \<Rightarrow> int" where
  "FakeInstaller_InstallCallCount fake = call_count fake"

definition FakeInstaller_InstallReturns :: "go_error option \<Rightarrow> 's FakeInstaller \<Rightarrow> 's FakeInstaller" where
  "FakeInstaller_InstallReturns result1 fake = set_returns result1 fake"

definition FakeInstaller_InstallReturnsOnCall :: "int \<Rightarrow> go_error option \<Rightarrow> 's FakeInstaller \<Rightarrow> 's FakeInstaller" where
  "FakeInstaller_InstallReturnsOnCall i result1 fake = set_returnsOnCall i result1 fake"

definition FakeInstaller_Invocations :: "'s FakeInstaller \<Rightarrow> invocations" where
  "FakeInstaller_Invocations fake = copied_invocations fake"

definition FakeInstaller_recordInvocation :: "string \<Rightarrow> argument list \<Rightarrow> 's FakeInstaller \<Rightarrow> 's FakeInstaller" where
  "FakeInstaller_recordInvocation key args fake = record_invocation key args fake"

section \<open>Commander\<close>

type_synonym 's FakeCommander = "('s, string \<times> string list, int \<times> go_error option) fake"

definition FakeCommander_Exec :: "string \<Rightarrow> string list \<Rightarrow> ('s FakeCommander \<times> 's, int \<times> go_error option) state" where
  "FakeCommander_Exec cmd args = call_fake ''Exec'' (\<lambda>(cmd, args). [StringArg cmd, StringsArg args]) (cmd, args)"

definition FakeCommander_ExecCallCount :: "'s FakeCommander \<Rightarrow> int" where
  "FakeCommander_ExecCallCount fake = call_count fake"

definition FakeCommander_ExecArgsForCall :: "'s FakeCommander \<Rightarrow> int \<Rightarrow> (string \<times> string list) result" where
  "FakeCommander_ExecArgsForCall fake i = args_for_call fake i"

definition FakeCommander_ExecReturns :: "int \<Rightarrow> go_error option \<Rightarrow> 's FakeCommander \<Rightarrow> 's FakeCommander" where
  "FakeCommander_ExecReturns result1 result2 fake = set_returns (result1, result2) fake"

definition FakeCommander_ExecReturnsOnCall :: "int \<Rightarrow> int \<Rightarrow> go_error option \<Rightarrow> 's FakeCommander \<Rightarrow> 's FakeCommander" where
  "FakeCommander_ExecReturnsOnCall i result1 result2 fake = set_returnsOnCall i (result1, result2) fake"

definition FakeCommander_Invocations :: "'s FakeCommander \<Rightarrow> invocations" where
  "FakeCommander_Invocations fake = copied_invocations fake"

definition FakeCommander_recordInvocation :: "string \<Rightarrow> argument list \<Rightarrow> 's FakeCommander \<Rightarrow> 's FakeCommander" where
  "FakeCommander_recordInvocation key args fake = record_invocation key args fake"

section \<open>Uploader\<close>

type_synonym 's FakeUploader = "('s, string \<times> string, go_error option) fake"

definition FakeUploader_Upload :: "string \<Rightarrow> string \<Rightarrow> ('s FakeUploader \<times> 's, go_error option) state" where
  "FakeUploader_Upload path url = call_fake ''Upload'' (\<lambda>(path, url). [StringArg path, StringArg url]) (path, url)"

definition FakeUploader_UploadCallCount :: "'s FakeUploader \<Rightarrow> int" where
  "FakeUploader_UploadCallCount fake = call_count fake"

definition FakeUploader_UploadArgsForCall :: "'s FakeUploader \<Rightarrow> int \<Rightarrow> (string \<times> string) result" where
  "FakeUploader_UploadArgsForCall fake i = args_for_call fake i"

definition FakeUploader_UploadReturns :: "go_error option \<Rightarrow> 's FakeUploader \<Rightarrow> 's FakeUploader" where
  "FakeUploader_UploadReturns result1 fake = set_returns result1 fake"

definition FakeUploader_UploadReturnsOnCall :: "int \<Rightarrow> go_error option \<Rightarrow> 's FakeUploader \<Rightarrow> 's FakeUploader" where
  "FakeUploader_UploadReturnsOnCall i result1 fake = set_returnsOnCall i result1 fake"

definition FakeUploader_Invocations :: "'s FakeUploader \<Rightarrow> invocations" where
  "FakeUploader_Invocations fake = copied_invocations fake"

definition FakeUploader_recordInvocation :: "string \<Rightarrow> argument list \<Rightarrow> 's FakeUploader \<Rightarrow> 's FakeUploader" where
  "FakeUploader_recordInvocation key args fake = record_invocation key args fake"

section \<open>Extractor\<close>

type_synonym 's FakeExtractor = "('s, string \<times> string, go_error option) fake"

definition FakeExtractor_Extract :: "string \<Rightarrow> string \<Rightarrow> ('s FakeExtractor \<times> 's, go_error option) state" where
  "FakeExtractor_Extract src targetDir = call_fake ''Extract'' (\<lambda>(src, targetDir). [StringArg src, StringArg targetDir]) (src, targetDir)"

definition FakeExtractor_ExtractCallCount :: "'s FakeExtractor \<Rightarrow> int" where
  "FakeExtractor_ExtractCallCount fake = call_count fake"

definition FakeExtractor_ExtractArgsForCall :: "'s FakeExtractor \<Rightarrow> int \<Rightarrow> (string \<times> string) result" where
  "FakeExtractor_ExtractArgsForCall fake i = args_for_call fake i"

definition FakeExtractor_ExtractReturns :: "go_error option \<Rightarrow> 's FakeExtractor \<Rightarrow> 's FakeExtractor" where
  "FakeExtractor_ExtractReturns result1 fake = set_returns result1 fake"

definition FakeExtractor_ExtractReturnsOnCall :: "int \<Rightarrow> go_error option \<Rightarrow> 's FakeExtractor \<Rightarrow> 's FakeExtractor" where
  "FakeExtractor_ExtractReturnsOnCall i result1 fake = set_returnsOnCall i result1 fake"

definition FakeExtractor_Invocations :: "'s FakeExtractor \<Rightarrow> invocations" where
  "FakeExtractor_Invocations fake = copied_invocations fake"

definition FakeExtractor_recordInvocation :: "string \<Rightarrow> argument list \<Rightarrow> 's FakeExtractor \<Rightarrow> 's FakeExtractor" where
  "FakeExtractor_recordInvocation key args fake = record_invocation key args fake"

section \<open>Staging result modifier\<close>

type_synonym 's FakeStagingResultModifier = "('s, StagingResult, StagingResult \<times> go_error option) fake"

definition FakeStagingResultModifier_Modify :: "StagingResult \<Rightarrow> ('s FakeStagingResultModifier \<times> 's, StagingResult \<times> go_error option) state" where
  "FakeStagingResultModifier_Modify result = call_fake ''Modify'' (\<lambda>result. [ResultArg result]) result"

definition FakeStagingResultModifier_ModifyCallCount :: "'s FakeStagingResultModifier \<Rightarrow> int" where
  "FakeStagingResultModifier_ModifyCallCount fake = call_count fake"

definition FakeStagingResultModifier_ModifyArgsForCall :: "'s FakeStagingResultModifier \<Rightarrow> int \<Rightarrow> (StagingResult) result" where
  "FakeStagingResultModifier_ModifyArgsForCall fake i = args_for_call fake i"

definition FakeStagingResultModifier_ModifyReturns :: "StagingResult \<Rightarrow> go_error option \<Rightarrow> 's FakeStagingResultModifier \<Rightarrow> 's FakeStagingResultModifier" where
  "FakeStagingResultModifier_ModifyReturns result1 result2 fake = set_returns (result1, result2) fake"

definition FakeStagingResultModifier_ModifyReturnsOnCall :: "int \<Rightarrow> StagingResult \<Rightarrow> go_error option \<Rightarrow> 's FakeStagingResultModifier \<Rightarrow> 's FakeStagingResultModifier" where
  "FakeStagingResultModifier_ModifyReturnsOnCall i result1 result2 fake = set_returnsOnCall i (result1, result2) fake"

definition FakeStagingResultModifier_Invocations :: "'s FakeStagingResultModifier \<Rightarrow> invocations" where
  "FakeStagingResultModifier_Invocations fake = copied_invocations fake"

definition FakeStagingResultModifier_recordInvocation :: "string \<Rightarrow> argument list \<Rightarrow> 's FakeStagingResultModifier \<Rightarrow> 's FakeStagingResultModifier" where
  "FakeStagingResultModifier_recordInvocation key args fake = record_invocation key args fake"

section \<open>Reader\<close>

type_synonym 's FakeReader = "('s, string option, int \<times> go_error option) fake"

text \<open>The recorded argument is a copy, so that it keeps its content whatever the stub does to the
  buffer; a copy of a value is the value.\<close>

definition FakeReader_Read :: "string option \<Rightarrow> ('s FakeReader \<times> 's, int \<times> go_error option) state" where
  "FakeReader_Read arg1 = call_fake ''Read'' (\<lambda>arg1. [BytesArg arg1]) arg1"

definition FakeReader_ReadCallCount :: "'s FakeReader \<Rightarrow> int" where
  "FakeReader_ReadCallCount fake = call_count fake"

definition FakeReader_ReadCalls :: "((string option) \<Rightarrow> ('s, int \<times> go_error option) state) option \<Rightarrow> 's FakeReader \<Rightarrow> 's FakeReader" where
  "FakeReader_ReadCalls stub fake = set_stub stub fake"

definition FakeReader_ReadArgsForCall :: "'s FakeReader \<Rightarrow> int \<Rightarrow> (string option) result" where
  "FakeReader_ReadArgsForCall fake i = args_for_call fake i"

definition FakeReader_ReadReturns :: "int \<Rightarrow> go_error option \<Rightarrow> 's FakeReader \<Rightarrow> 's FakeReader" where
  "FakeReader_ReadReturns result1 result2 fake = set_returns (result1, result2) fake"

definition FakeReader_ReadReturnsOnCall :: "int \<Rightarrow> int \<Rightarrow> go_error option \<Rightarrow> 's FakeReader \<Rightarrow> 's FakeReader" where
  "FakeReader_ReadReturnsOnCall i result1 result2 fake = set_returnsOnCall i (result1, result2) fake"

definition FakeReader_Invocations :: "'s FakeReader \<Rightarrow> invocations" where
  "FakeReader_Invocations fake = copied_invocations fake"

definition FakeReader_recordInvocation :: "string \<Rightarrow> argument list \<Rightarrow> 's FakeReader \<Rightarrow> 's FakeReader" where
  "FakeReader_recordInvocation key args fake = record_invocation key args fake"

section \<open>Handler function\<close>

type_synonym 's FakeHandlerFunc = "('s, nat \<times> nat, unit) spy"

definition FakeHandlerFunc_Spy :: "nat \<Rightarrow> nat \<Rightarrow> ('s FakeHandlerFunc \<times> 's, unit) state" where
  "FakeHandlerFunc_Spy arg1 arg2 = call_spy ''HandlerFunc'' (\<lambda>(arg1, arg2). [WriterArg arg1, RequestArg arg2]) (arg1, arg2)"

definition FakeHandlerFunc_CallCount :: "'s FakeHandlerFunc \<Rightarrow> int" where
  "FakeHandlerFunc_CallCount fake = call_count fake"

definition FakeHandlerFunc_Calls :: "((nat \<times> nat) \<Rightarrow> ('s, unit) state) option \<Rightarrow> 's FakeHandlerFunc \<Rightarrow> 's FakeHandlerFunc" where
  "FakeHandlerFunc_Calls stub fake = set_stub stub fake"

definition FakeHandlerFunc_ArgsForCall :: "'s FakeHandlerFunc \<Rightarrow> int \<Rightarrow> (nat \<times> nat) result" where
  "FakeHandlerFunc_ArgsForCall fake i = args_for_call fake i"

definition FakeHandlerFunc_Invocations :: "'s FakeHandlerFunc \<Rightarrow> invocations" where
  "FakeHandlerFunc_Invocations fake = copied_invocations fake"

definition FakeHandlerFunc_recordInvocation :: "string \<Rightarrow> argument list \<Rightarrow> 's FakeHandlerFunc \<Rightarrow> 's FakeHandlerFunc" where
  "FakeHandlerFunc_recordInvocation key args fake = record_invocation key args fake"

end
