(* ===== verification/FakeRecords.thy ===== *)
theory FakeRecords
  imports Doubles
begin

text \<open>
  What a test double has recorded, whatever was done with it.
\<close>

section \<open>What is recorded\<close>

definition recorded :: "string \<Rightarrow> ('a \<Rightarrow> argument list) \<Rightarrow> ('s, 'a, 'r, 'x) spy_scheme \<Rightarrow> bool" where
  "recorded key enc f \<longleftrightarrow>
     copied_invocations f = (if fk_args f = [] then Map.empty else [key \<mapsto> map enc (fk_args f)])"

lemma call_fake_state:
  "run_state (call_fake key enc a) (f, s) = (r, (f', s')) \<Longrightarrow> f' = note_call key enc a f"
  by (auto simp: call_fake_def Let_def split: option.splits prod.splits)

lemma note_call_args [simp]: "fk_args (note_call key enc a f) = fk_args f @ [a]"
  by (simp add: note_call_def record_invocation_def Let_def)

lemma note_call_stub [simp]: "fk_stub (note_call key enc a f) = fk_stub f"
  by (simp add: note_call_def record_invocation_def Let_def)

lemma recorded_call: "recorded key enc f \<Longrightarrow> recorded key enc (note_call key enc a f)"
  by (auto simp: recorded_def note_call_def record_invocation_def copied_invocations_def Let_def
      split: option.splits if_splits)

lemma recorded_set [simp]:
  "recorded key enc (set_stub g f) = recorded key enc f"
  "recorded key enc (set_returns r h) = recorded key enc h"
  "recorded key enc (set_returnsOnCall i r h) = recorded key enc h"
  by (simp_all add: recorded_def copied_invocations_def set_stub_def set_returns_def set_returnsOnCall_def Let_def)

lemma recorded_new: "recorded key enc (new_fake zero)"
  by (simp add: recorded_def new_fake_def copied_invocations_def)

lemma set_args [simp]:
  "fk_args (set_stub g f) = fk_args f" "fk_args (set_returns r h) = fk_args h"
  "fk_args (set_returnsOnCall i r h) = fk_args h" "fk_args (new_fake zero) = []"
  by (simp_all add: set_stub_def set_returns_def set_returnsOnCall_def new_fake_def Let_def)

section \<open>The history of a fake uploader\<close>

text \<open>\<open>uploader_used calls f\<close>: the double \<open>f\<close> has been used in some way, with \<open>calls\<close> the arguments of the
  calls of \<^verbatim>\<open>Upload\<close> so far, whether a stub was set or not. The stub is an exported field that the
  test assigns.\<close>

inductive uploader_used :: "(string \<times> string) list \<Rightarrow> 's FakeUploader \<Rightarrow> bool" where
  used_new: "uploader_used [] (new_fake None)"
| used_call: "uploader_used calls f \<Longrightarrow> run_state (FakeUploader_Upload path url) (f, s) = (r, (f', s')) \<Longrightarrow>
    uploader_used (calls @ [(path, url)]) f'"
| used_stub: "uploader_used calls f \<Longrightarrow> uploader_used calls (set_stub stub f)"
| used_returns: "uploader_used calls f \<Longrightarrow> uploader_used calls (FakeUploader_UploadReturns r f)"
| used_onCall: "uploader_used calls f \<Longrightarrow> uploader_used calls (FakeUploader_UploadReturnsOnCall i r f)"

definition upload_args :: "string \<times> string \<Rightarrow> argument list" where
  "upload_args = (\<lambda>(path, url). [StringArg path, StringArg url])"

lemma uploader_used_args: "uploader_used calls f \<Longrightarrow> fk_args f = calls \<and> recorded ''Upload'' upload_args f"
proof (induction rule: uploader_used.induct)
  case (used_call calls f path url s r f' s')
  from used_call(2) have "f' = note_call ''Upload'' upload_args (path, url) f"
    by (intro call_fake_state) (simp add: FakeUploader_Upload_def upload_args_def)
  with used_call.IH recorded_call show ?case by auto
qed (simp_all add: recorded_new FakeUploader_UploadReturns_def FakeUploader_UploadReturnsOnCall_def)

text \<open>C37: However a fake uploader has been used, it has recorded exactly the sequence of its calls, those
  that a stub answered as well as the others: the count is the number of calls, every index below
  it gives the arguments of that call and every other index panics, and \<^verbatim>\<open>Invocations\<close> lists the
  same arguments in the same order. A further call runs the stub with its arguments, or gives the
  result set for the number of this call, or else the one set for all.\<close>

theorem fake_uploader_records:
  assumes "uploader_used calls f"
  shows "FakeUploader_Invocations f = (if calls = [] then Map.empty
      else [''Upload'' \<mapsto> map (\<lambda>(path, url). [StringArg path, StringArg url]) calls]) \<and>
    FakeUploader_UploadCallCount f = int (length calls) \<and>
    FakeUploader_UploadArgsForCall f i = (if 0 \<le> i \<and> i < int (length calls)
      then Ok (calls ! nat i) else Panic ''index out of range'') \<and>
    (case run_state (FakeUploader_Upload path url) (f, s) of (r, (f', s')) \<Rightarrow>
       (case fk_stub f of
          Some stub \<Rightarrow> run_state (stub (path, url)) s = (r, s')
        | None \<Rightarrow> r = answer f (int (length calls)) \<and> s' = s))"
proof -
  from uploader_used_args [OF assms] have a: "fk_args f = calls" "recorded ''Upload'' upload_args f" by auto
  have "case run_state (FakeUploader_Upload path url) (f, s) of (r, (f', s')) \<Rightarrow>
       (case fk_stub f of
          Some stub \<Rightarrow> run_state (stub (path, url)) s = (r, s')
        | None \<Rightarrow> r = answer f (int (length calls)) \<and> s' = s)"
    using a(1) by (simp add: FakeUploader_Upload_def call_fake_def Let_def split: option.split prod.split)
  with a show ?thesis
    by (intro conjI, simp_all only: recorded_def FakeUploader_Invocations_def FakeUploader_UploadCallCount_def
        call_count_def FakeUploader_UploadArgsForCall_def args_for_call_def upload_args_def)
qed

text \<open>Two calls, the second answered by a stub.\<close>

lemma fake_uploader_records_witness:
  "\<exists>f :: nat FakeUploader. uploader_used [(''a'', ''b''), (''c'', ''d'')] f \<and>
     FakeUploader_Invocations f = [''Upload'' \<mapsto> [[StringArg ''a'', StringArg ''b''], [StringArg ''c'', StringArg ''d'']]] \<and>
     FakeUploader_UploadCallCount f = 2 \<and> FakeUploader_UploadArgsForCall f 1 = Ok (''c'', ''d'')"
proof -
  let ?f0 = "new_fake None :: nat FakeUploader" and ?stub = "\<lambda>(a, b). State (\<lambda>n. (Some EOF, Suc n))"
  obtain r1 f1 s1 where 1: "run_state (FakeUploader_Upload ''a'' ''b'') (?f0, 0) = (r1, (f1, s1))" by (metis prod_cases3)
  obtain r2 f2 s2 where 2: "run_state (FakeUploader_Upload ''c'' ''d'') (set_stub (Some ?stub) f1, s1) = (r2, (f2, s2))"
    by (metis prod_cases3)
  from used_call [OF used_stub [OF used_call [OF used_new 1]] 2]
  have u: "uploader_used [(''a'', ''b''), (''c'', ''d'')] f2" by simp
  from fake_uploader_records [OF u, of 1] u show ?thesis by (intro exI [of _ f2]) simp
qed

end
