(* ===== verification/FakeLocks.thy ===== *)
theory FakeLocks
  imports Prelude
begin

text \<open>
  A test double that several goroutines use at once: its two mutexes and its variables. The record
  of the calls is never written while another goroutine uses it, and calls never block each
  other, but a call and \<^verbatim>\<open>Invocations\<close> can.
\<close>

section \<open>Mutexes\<close>

text \<open>
  A \<^verbatim>\<open>sync.RWMutex\<close>: \<^verbatim>\<open>Lock\<close> first keeps new readers out and then waits for those that are there;
  \<^verbatim>\<open>RLock\<close> waits while a writer is in or announced. A double has one for its method and one for
  its invocations. The actions of a goroutine inside a method of a double are those on these two,
  and the accesses to the arguments of the calls, to the map of invocations, and to the stub
  and the results; all in the order of the code, deferred calls last in first out.
\<close>

datatype mutex = CallMutex | InvocationsMutex

datatype variable = Args | InvocationsMap | Results

datatype lock_action =
    Announce mutex | Acquire mutex | Unlock mutex | RLock mutex | RUnlock mutex
  | Load variable | Store variable

record rwmutex =
  announced :: bool
  readers :: nat

definition Lock :: "mutex \<Rightarrow> lock_action list" where
  "Lock m = [Announce m, Acquire m]"

definition recordInvocation_locks :: "lock_action list" where
  "recordInvocation_locks = Lock InvocationsMutex @
     [Load InvocationsMap, Store InvocationsMap, Unlock InvocationsMutex]"

text \<open>A call looks at the stub and at the results for all calls after it has released the mutex.\<close>

definition call_locks :: "lock_action list" where
  "call_locks = Lock CallMutex @ [Load Results, Load Args, Store Args] @ recordInvocation_locks @
     [Unlock CallMutex, Load Results]"

text \<open>Setting the stub or results: the two younger doubles, for readers and handlers, take the mutex
  of the method, the five older ones take none.\<close>

definition setter_locks :: "lock_action list" where
  "setter_locks = Lock CallMutex @ [Store Results, Unlock CallMutex]"

definition plain_setter_locks :: "lock_action list" where
  "plain_setter_locks = [Store Results]"

definition getter_locks :: "lock_action list" where
  "getter_locks = [RLock CallMutex, Load Args, RUnlock CallMutex]"

definition Invocations_locks :: "lock_action list" where
  "Invocations_locks =
     [RLock InvocationsMutex, RLock CallMutex, Load InvocationsMap, RUnlock CallMutex, RUnlock InvocationsMutex]"

text \<open>The mutex that an action is about; for an access the one that is to guard the variable.\<close>

fun guard :: "variable \<Rightarrow> mutex" where
  "guard InvocationsMap = InvocationsMutex"
| "guard _ = CallMutex"

fun mutex_of :: "lock_action \<Rightarrow> mutex" where
  "mutex_of (Announce m) = m"
| "mutex_of (Acquire m) = m"
| "mutex_of (Unlock m) = m"
| "mutex_of (RLock m) = m"
| "mutex_of (RUnlock m) = m"
| "mutex_of (Load v) = guard v"
| "mutex_of (Store v) = guard v"

fun enabled :: "lock_action \<Rightarrow> rwmutex \<Rightarrow> bool" where
  "enabled (Announce m) x = (\<not> announced x)"
| "enabled (Acquire m) x = (readers x = 0)"
| "enabled (RLock m) x = (\<not> announced x)"
| "enabled _ x = True"

fun lock_effect :: "lock_action \<Rightarrow> rwmutex \<Rightarrow> rwmutex" where
  "lock_effect (Announce m) x = x\<lparr>announced := True\<rparr>"
| "lock_effect (Acquire m) x = x"
| "lock_effect (Unlock m) x = x\<lparr>announced := False\<rparr>"
| "lock_effect (RLock m) x = x\<lparr>readers := readers x + 1\<rparr>"
| "lock_effect (RUnlock m) x = x\<lparr>readers := readers x - 1\<rparr>"
| "lock_effect _ x = x"

text \<open>Goroutines with their remaining actions, and the mutexes. One goroutine makes one step.\<close>

type_synonym lock_state = "lock_action list list \<times> (mutex \<Rightarrow> rwmutex)"

inductive lock_step :: "lock_state \<Rightarrow> lock_state \<Rightarrow> bool" where
  lock_step: "i < length gs \<Longrightarrow> gs ! i = a # rest \<Longrightarrow> enabled a (l (mutex_of a)) \<Longrightarrow>
    lock_step (gs, l) (gs[i := rest], l(mutex_of a := lock_effect a (l (mutex_of a))))"

inductive lock_steps :: "lock_state \<Rightarrow> lock_state \<Rightarrow> bool" where
  steps_refl: "lock_steps c c"
| steps_more: "lock_steps c c' \<Longrightarrow> lock_step c' c'' \<Longrightarrow> lock_steps c c''"

inductive_cases lock_stepE: "lock_step (gs, l) c"

definition unlocked :: "mutex \<Rightarrow> rwmutex" where
  "unlocked m = \<lparr>announced = False, readers = 0\<rparr>"

definition finished :: "lock_state \<Rightarrow> bool" where
  "finished c \<longleftrightarrow> list_all (\<lambda>g. g = []) (fst c)"

definition stuck :: "lock_state \<Rightarrow> bool" where
  "stuck c \<longleftrightarrow> \<not> finished c \<and> (\<forall>c'. \<not> lock_step c c')"

definition can_step :: "lock_action list \<Rightarrow> (mutex \<Rightarrow> rwmutex) \<Rightarrow> bool" where
  "can_step g l \<longleftrightarrow> (case g of [] \<Rightarrow> False | a # rest \<Rightarrow> enabled a (l (mutex_of a)))"

lemma stuck_iff: "stuck (gs, l) \<longleftrightarrow> (\<exists>g\<in>set gs. g \<noteq> []) \<and> (\<forall>g\<in>set gs. \<not> can_step g l)"
proof -
  have "(\<exists>c'. lock_step (gs, l) c') \<longleftrightarrow> (\<exists>g\<in>set gs. can_step g l)"
  proof
    assume "\<exists>c'. lock_step (gs, l) c'"
    then obtain i a rest where "i < length gs" "gs ! i = a # rest" "enabled a (l (mutex_of a))"
      by (auto elim: lock_stepE)
    then have "can_step (gs ! i) l" by (simp add: can_step_def)
    with \<open>i < length gs\<close> show "\<exists>g\<in>set gs. can_step g l" using nth_mem by blast
  next
    assume "\<exists>g\<in>set gs. can_step g l"
    then obtain i where "i < length gs" "can_step (gs ! i) l" by (auto simp: in_set_conv_nth)
    then show "\<exists>c'. lock_step (gs, l) c'" by (auto simp: can_step_def split: list.splits intro: lock_step)
  qed
  then show ?thesis by (auto simp: stuck_def finished_def list_all_iff)
qed

text \<open>A step of a chosen goroutine, computed.\<close>

definition advance :: "nat \<Rightarrow> lock_state \<Rightarrow> lock_state option" where
  "advance i c = (case c of (gs, l) \<Rightarrow>
     (if i < length gs \<and> can_step (gs ! i) l
      then Some (gs[i := tl (gs ! i)], l(mutex_of (hd (gs ! i)) := lock_effect (hd (gs ! i)) (l (mutex_of (hd (gs ! i))))))
      else None))"

lemma advance_step: "advance i c = Some c' \<Longrightarrow> lock_step c c'"
  by (cases c) (auto simp: advance_def can_step_def intro: lock_step split: if_splits list.splits)

fun advances :: "nat list \<Rightarrow> lock_state \<Rightarrow> lock_state option" where
  "advances [] c = Some c"
| "advances (i # is) c = (case advance i c of None \<Rightarrow> None | Some c' \<Rightarrow> advances is c')"

lemma advances_steps: "advances is c = Some c' \<Longrightarrow> lock_steps c0 c \<Longrightarrow> lock_steps c0 c'"
proof (induction "is" arbitrary: c)
  case (Cons i "is")
  then obtain c1 where "advance i c = Some c1" "advances is c1 = Some c'" by (auto split: option.splits)
  with Cons show ?case using steps_more advance_step by blast
qed simp

lemmas lock_programs = call_locks_def recordInvocation_locks_def Lock_def Invocations_locks_def
  setter_locks_def plain_setter_locks_def getter_locks_def

text \<open>C40: A call of a double and \<^verbatim>\<open>Invocations\<close> of the same double can block each other for ever:
  the call holds the mutex of the method and waits for that of the invocations, while
  \<^verbatim>\<open>Invocations\<close> holds the latter and waits for the former.\<close>

theorem fakes_deadlock:
  "\<exists>c. lock_steps ([call_locks, Invocations_locks], unlocked) c \<and> stuck c"
proof -
  let ?start = "([call_locks, Invocations_locks], unlocked)"
  obtain c where c: "advances [0, 0, 0, 0, 0, 1, 0] ?start = Some c" and "stuck c"
    by (simp add: advance_def can_step_def stuck_iff lock_programs unlocked_def)
  from advances_steps [OF c steps_refl] \<open>stuck c\<close> show ?thesis by blast
qed

section \<open>What is held\<close>

text \<open>What a goroutine holds, read off the actions that it still has to do.\<close>

definition announcing :: "mutex \<Rightarrow> lock_action list \<Rightarrow> bool" where
  "announcing m g \<longleftrightarrow> List.find (\<lambda>a. a = Announce m \<or> a = Unlock m) g = Some (Unlock m)"

definition reading :: "mutex \<Rightarrow> lock_action list \<Rightarrow> bool" where
  "reading m g \<longleftrightarrow> List.find (\<lambda>a. a = RLock m \<or> a = RUnlock m) g = Some (RUnlock m)"

definition holding :: "mutex \<Rightarrow> lock_action list \<Rightarrow> bool" where
  "holding m g \<longleftrightarrow> List.find (\<lambda>a. a = Announce m \<or> a = Acquire m \<or> a = Unlock m) g = Some (Unlock m)"

text \<open>Every lock is followed by its unlock before it is taken again, and the record of the calls is
  read and written under its mutex only. Nothing is asked of the results.\<close>

fun well_locked :: "lock_action list \<Rightarrow> bool" where
  "well_locked [] = True"
| "well_locked (Announce m # g) = (announcing m g \<and> \<not> holding m g \<and> well_locked g)"
| "well_locked (RLock m # g) = (reading m g \<and> well_locked g)"
| "well_locked (Unlock m # g) = (\<not> announcing m g \<and> well_locked g)"
| "well_locked (RUnlock m # g) = (\<not> reading m g \<and> well_locked g)"
| "well_locked (Acquire m # g) = well_locked g"
| "well_locked (Load v # g) = ((v = Results \<or> holding (guard v) g \<or> reading (guard v) g) \<and> well_locked g)"
| "well_locked (Store v # g) = ((v = Results \<or> holding (guard v) g) \<and> well_locked g)"

definition accounted :: "lock_state \<Rightarrow> bool" where
  "accounted c = (case c of (gs, l) \<Rightarrow>
     \<forall>m. readers (l m) = length (filter (reading m) gs) \<and> of_bool (announced (l m)) = length (filter (announcing m) gs))"

lemma well_locked_tail: "well_locked (a # g) \<Longrightarrow> well_locked g"
  by (cases a) simp_all

lemma other_mutex:
  "m \<noteq> mutex_of a \<Longrightarrow> reading m (a # g) = reading m g \<and> announcing m (a # g) = announcing m g"
  by (cases a) (auto simp: reading_def announcing_def)

lemma filter_update:
  "i < length xs \<Longrightarrow> length (filter Q (xs[i := y])) + of_bool (Q (xs ! i)) = length (filter Q xs) + of_bool (Q y)"
proof (induction xs arbitrary: i)
  case (Cons x xs)
  then show ?case by (cases i) auto
qed simp

lemma same_mutex_readers:
  "well_locked (a # g) \<Longrightarrow> (reading (mutex_of a) (a # g) \<longrightarrow> 0 < readers x) \<Longrightarrow>
     readers (lock_effect a x) + of_bool (reading (mutex_of a) (a # g)) = readers x + of_bool (reading (mutex_of a) g)"
  by (cases a) (auto simp: reading_def)

lemma same_mutex_announced:
  "well_locked (a # g) \<Longrightarrow> enabled a x \<Longrightarrow> (announcing (mutex_of a) (a # g) \<longrightarrow> announced x) \<Longrightarrow>
     of_bool (announced (lock_effect a x)) + of_bool (announcing (mutex_of a) (a # g)) =
     of_bool (announced x) + (of_bool (announcing (mutex_of a) g) :: nat)"
  by (cases a) (auto simp: announcing_def)

lemma filter_positive: "x \<in> set xs \<Longrightarrow> Q x \<Longrightarrow> 0 < length (filter Q xs)"
  by (auto simp: filter_empty_conv)

lemma accounted_announced:
  assumes "accounted (gs, l)"
  shows "announced (l m) \<longleftrightarrow> (\<exists>g\<in>set gs. announcing m g)"
proof -
  have "of_bool (announced (l m)) = length (filter (announcing m) gs)" using assms by (simp add: accounted_def)
  then have "announced (l m) \<longleftrightarrow> filter (announcing m) gs \<noteq> []" by (cases "announced (l m)") auto
  then show ?thesis by (simp add: filter_empty_conv)
qed

lemma accounted_step:
  assumes "accounted (gs, l)" "lock_step (gs, l) (gs', l')" "list_all well_locked gs"
  shows "accounted (gs', l')"
proof -
  from assms(2) obtain i a rest where i: "i < length gs" "gs ! i = a # rest" "enabled a (l (mutex_of a))"
    and gs': "gs' = gs[i := rest]" and l': "l' = l(mutex_of a := lock_effect a (l (mutex_of a)))"
    by (auto elim: lock_stepE)
  then have mem: "a # rest \<in> set gs" by (metis nth_mem)
  with assms(3) have wl: "well_locked (a # rest)" by (auto simp: list_all_iff)
  have old: "readers (l m) = length (filter (reading m) gs)" "of_bool (announced (l m)) = length (filter (announcing m) gs)" for m
    using assms(1) by (simp_all add: accounted_def)
  have pos: "reading m (a # rest) \<longrightarrow> 0 < readers (l m)" "announcing m (a # rest) \<longrightarrow> announced (l m)" for m
    using old(1) [of m] filter_positive [OF mem, of "reading m"] accounted_announced [OF assms(1)] mem by auto
  have "readers (l' m) = length (filter (reading m) gs')" for m
    using old(1) [of m] filter_update [OF i(1), of "reading m" rest] other_mutex [of m a rest]
      same_mutex_readers [OF wl pos(1)]
    by (cases "m = mutex_of a") (auto simp: gs' l' i(2))
  moreover have "of_bool (announced (l' m)) = length (filter (announcing m) gs')" for m
  proof (cases "m = mutex_of a")
    case True
    with old(2) [of m] filter_update [OF i(1), of "announcing m" rest] same_mutex_announced [OF wl i(3) pos(2)]
    show ?thesis by (simp add: gs' l' i(2))
  next
    case False
    with old(2) [of m] filter_update [OF i(1), of "announcing m" rest] other_mutex [OF False, of rest]
    show ?thesis by (simp add: gs' l' i(2))
  qed
  ultimately show ?thesis by (simp add: accounted_def)
qed

lemma find_append:
  "List.find P (xs @ ys) = (case List.find P xs of None \<Rightarrow> List.find P ys | Some x \<Rightarrow> Some x)"
  by (induction xs) auto

text \<open>A goroutine that holds nothing and will release what it takes.\<close>

definition balanced :: "lock_action list \<Rightarrow> bool" where
  "balanced g \<longleftrightarrow> well_locked g \<and> (\<forall>m. \<not> announcing m g \<and> \<not> reading m g \<and> \<not> holding m g)"

lemma held_append:
  assumes "balanced h"
  shows "announcing m (g @ h) = announcing m g" "reading m (g @ h) = reading m g" "holding m (g @ h) = holding m g"
  using assms by (auto simp: balanced_def announcing_def reading_def holding_def find_append split: option.splits)

lemma well_locked_append: "balanced h \<Longrightarrow> well_locked g \<Longrightarrow> well_locked (g @ h)"
  by (induction g rule: well_locked.induct) (auto simp: held_append balanced_def)

lemma balanced_append: "balanced g \<Longrightarrow> balanced h \<Longrightarrow> balanced (g @ h)"
  using well_locked_append held_append by (auto simp: balanced_def)

lemma balanced_Nil: "balanced []"
  by (simp add: balanced_def announcing_def reading_def holding_def)

lemma balanced_concat: "\<forall>p\<in>set ps. balanced p \<Longrightarrow> balanced (concat ps)"
  by (induction ps) (auto simp: balanced_Nil intro: balanced_append)

definition all_methods :: "lock_action list set" where
  "all_methods = {call_locks, setter_locks, plain_setter_locks, getter_locks, Invocations_locks}"

lemma balanced_methods: "p \<in> all_methods \<Longrightarrow> balanced p"
  unfolding balanced_def
proof
  fix p assume p: "p \<in> all_methods"
  then show "well_locked p" by (auto simp: all_methods_def lock_programs announcing_def reading_def holding_def)
  have "\<not> announcing m p \<and> \<not> reading m p \<and> \<not> holding m p" for m
    using p by (cases m) (auto simp: all_methods_def lock_programs announcing_def reading_def holding_def)
  then show "\<forall>m. \<not> announcing m p \<and> \<not> reading m p \<and> \<not> holding m p" by blast
qed

lemma balanced_calls:
  assumes "\<forall>g\<in>set gs. \<exists>calls. set calls \<subseteq> P \<and> g = concat calls"
    and "P \<subseteq> all_methods"
  shows "\<forall>g\<in>set gs. balanced g"
proof
  fix g assume "g \<in> set gs"
  with assms(1) obtain calls where c: "set calls \<subseteq> P" "g = concat calls" by blast
  have "\<forall>p\<in>set calls. balanced p" by (meson assms(2) balanced_methods c(1) subsetD)
  then show "balanced g" unfolding c(2) by (rule balanced_concat)
qed

lemma accounted_start: "\<forall>g\<in>set gs. balanced g \<Longrightarrow> accounted (gs, unlocked)"
  by (simp add: accounted_def unlocked_def balanced_def filter_empty_conv)

section \<open>Calls exclude each other\<close>

text \<open>While a goroutine holds a mutex for writing, there are no readers.\<close>

definition guarded :: "lock_state \<Rightarrow> bool" where
  "guarded c = (case c of (gs, l) \<Rightarrow>
     accounted c \<and> list_all well_locked gs \<and> (\<forall>m. (\<exists>g\<in>set gs. holding m g) \<longrightarrow> readers (l m) = 0))"

lemma holding_announcing: "holding m g \<Longrightarrow> announcing m g"
  by (induction g) (auto simp: holding_def announcing_def split: if_splits)

lemma other_holding: "m \<noteq> mutex_of a \<Longrightarrow> holding m (a # g) = holding m g"
  by (cases a) (auto simp: holding_def)

lemma same_holding:
  "well_locked (a # g) \<Longrightarrow> holding (mutex_of a) g \<Longrightarrow> enabled a x \<Longrightarrow>
     holding (mutex_of a) (a # g) \<or> (\<exists>m. a = Acquire m) \<and> readers x = 0"
  by (cases a) (auto simp: holding_def)

lemma guarded_step:
  assumes "guarded (gs, l)" "lock_step (gs, l) (gs', l')"
  shows "guarded (gs', l')"
proof -
  from assms(2) obtain i a rest where i: "i < length gs" "gs ! i = a # rest" "enabled a (l (mutex_of a))"
    and gs': "gs' = gs[i := rest]" and l': "l' = l(mutex_of a := lock_effect a (l (mutex_of a)))"
    by (auto elim: lock_stepE)
  then have mem: "a # rest \<in> set gs" by (metis nth_mem)
  have inv: "accounted (gs, l)" "list_all well_locked gs" "\<And>m g. g \<in> set gs \<Longrightarrow> holding m g \<Longrightarrow> readers (l m) = 0"
    using assms(1) by (auto simp: guarded_def)
  from inv(2) mem have wl: "well_locked (a # rest)" by (auto simp: list_all_iff)
  have sub: "set gs' \<subseteq> insert rest (set gs)" unfolding gs' by (rule set_update_subset_insert)
  have held: "(\<exists>h\<in>set gs. holding m h) \<or> m = mutex_of a \<and> (\<exists>m. a = Acquire m) \<and> readers (l m) = 0"
    if g: "g \<in> set gs'" "holding m g" for m g
  proof (cases "g \<in> set gs")
    case False
    with g sub have h: "holding m rest" by auto
    show ?thesis
    proof (cases "m = mutex_of a")
      case True
      with same_holding [OF wl _ i(3)] h mem show ?thesis by blast
    next
      case False
      with other_holding h mem show ?thesis by blast
    qed
  qed (use g in blast)
  have no_RLock: "\<not> (\<exists>h\<in>set gs. holding m h)" if "a = RLock m" for m
    using that holding_announcing accounted_announced [OF inv(1), of m] i(3) by auto
  have "readers (l' m) = 0" if g: "g \<in> set gs'" "holding m g" for m g
  proof -
    from held [OF g] inv(3) have "readers (l m) = 0" by blast
    moreover have "a \<noteq> RLock m" using held [OF g] no_RLock by blast
    ultimately show ?thesis by (cases a) (auto simp: l')
  qed
  moreover have "list_all well_locked gs'" using sub inv(2) well_locked_tail [OF wl] by (auto simp: list_all_iff)
  ultimately show ?thesis using accounted_step [OF inv(1) assms(2) inv(2)] by (auto simp: guarded_def)
qed

lemma guarded_steps: "lock_steps c c' \<Longrightarrow> guarded c \<Longrightarrow> guarded c'"
proof (induction rule: lock_steps.induct)
  case (steps_more c c' c'')
  then show ?case by (cases c'; cases c'') (auto intro: guarded_step)
qed

lemma at_most_one:
  assumes "length (filter Q xs) \<le> 1" "i < length xs" "j < length xs" "i \<noteq> j" "Q (xs ! i)" "\<not> Q y"
  shows "\<not> Q (xs ! j)"
proof
  assume "Q (xs ! j)"
  with assms(3,4) have "Q (xs[i := y] ! j)" by simp
  moreover have "xs[i := y] ! j \<in> set (xs[i := y])" by (rule nth_mem) (simp add: assms(3))
  ultimately have "0 < length (filter Q (xs[i := y]))" by (metis filter_positive)
  with filter_update [OF assms(2), of Q y] assms(1,5,6) show False by simp
qed

text \<open>While one goroutine holds a mutex for writing, no other one holds it.\<close>

lemma fakes_exclusive:
  assumes "\<forall>g\<in>set gs. \<exists>calls. set calls \<subseteq> all_methods \<and> g = concat calls"
    and "lock_steps (gs, unlocked) (gs', l')"
  shows "list_all well_locked gs'"
    and "i < length gs' \<Longrightarrow> j < length gs' \<Longrightarrow> i \<noteq> j \<Longrightarrow> holding m (gs' ! i) \<Longrightarrow>
      \<not> holding m (gs' ! j) \<and> \<not> reading m (gs' ! j)"
proof -
  have b: "\<forall>g\<in>set gs. balanced g" by (rule balanced_calls [OF assms(1)]) simp
  then have "guarded (gs, unlocked)" using accounted_start [OF b]
    by (simp add: guarded_def balanced_def list_all_iff unlocked_def)
  note inv = guarded_steps [OF assms(2) this]
  then show "list_all well_locked gs'" by (simp add: guarded_def)
  assume *: "i < length gs'" "j < length gs'" "i \<noteq> j" "holding m (gs' ! i)"
  from inv have "accounted (gs', l')" "(\<exists>g\<in>set gs'. holding m g) \<longrightarrow> readers (l' m) = 0" by (simp_all add: guarded_def)
  with *(1,4) nth_mem have g: "accounted (gs', l')" "readers (l' m) = 0" by blast+
  then have "\<not> reading m (gs' ! j)" using *(2) by (auto simp: accounted_def filter_empty_conv)
  moreover have "of_bool (announced (l' m)) = length (filter (announcing m) gs')" using g(1) by (simp add: accounted_def)
  then have "length (filter (announcing m) gs') \<le> 1" by (cases "announced (l' m)") simp_all
  with * holding_announcing have "\<not> holding m (gs' ! j)"
    by (metis at_most_one [where y = "[]"] balanced_Nil balanced_def)
  ultimately show "\<not> holding m (gs' ! j) \<and> \<not> reading m (gs' ! j)" by simp
qed

text \<open>The action that a goroutine comes to next.\<close>

definition next_action :: "lock_action list \<Rightarrow> lock_action option" where
  "next_action g = (case g of [] \<Rightarrow> None | a # rest \<Rightarrow> Some a)"

lemma access_held:
  assumes "well_locked g" and "v \<noteq> Results"
  shows "next_action g = Some (Store v) \<Longrightarrow> holding (guard v) g"
    and "next_action g = Some (Load v) \<Longrightarrow> holding (guard v) g \<or> reading (guard v) g"
  using assms by (cases g; auto simp: next_action_def holding_def reading_def)+

text \<open>C38: Whatever methods of a double are used by whatever number of goroutines, its record has no data
  race: while one of them is about to write the arguments or the invocations, no other one is
  about to read or write the same, because every access is made while its mutex is held, for
  writing where it writes. The stub and the results are not so protected.\<close>

theorem fakes_race_free:
  assumes "\<forall>g\<in>set gs. \<exists>calls. set calls \<subseteq> {call_locks, setter_locks, plain_setter_locks, getter_locks, Invocations_locks} \<and>
      g = concat calls"
    and "lock_steps (gs, unlocked) (gs', l')"
    and "i < length gs'" and "j < length gs'" and "i \<noteq> j"
    and "next_action (gs' ! i) = Some (Store v)" and "v \<in> {Args, InvocationsMap}"
  shows "next_action (gs' ! j) \<noteq> Some (Store v) \<and> next_action (gs' ! j) \<noteq> Some (Load v)"
proof -
  note ex = fakes_exclusive [OF assms(1) [folded all_methods_def] assms(2)]
  from ex(1) assms(3,4) have wl: "well_locked (gs' ! i)" "well_locked (gs' ! j)" by (simp_all add: list_all_length)
  have v: "v \<noteq> Results" using assms(7) by auto
  from ex(2) [OF assms(3-5) access_held(1) [OF wl(1) v assms(6)]] access_held [OF wl(2) v] show ?thesis by blast
qed

lemma fakes_race_free_witness:
  "\<exists>gs l. advances [0, 0, 1, 0, 0] ([call_locks, Invocations_locks, call_locks], unlocked) = Some (gs, l) \<and>
     next_action (gs ! 0) = Some (Store Args) \<and> next_action (gs ! 2) \<noteq> Some (Store Args)"
proof -
  let ?start = "([call_locks, Invocations_locks, call_locks], unlocked)"
  obtain gs l where run: "advances [0, 0, 1, 0, 0] ?start = Some (gs, l)" and
    gs: "gs = [drop 4 call_locks, tl Invocations_locks, call_locks]"
    by (simp add: advance_def can_step_def lock_programs unlocked_def)
  have s: "next_action (gs ! 0) = Some (Store Args)" by (simp add: gs next_action_def lock_programs)
  have "\<exists>calls. set calls \<subseteq> {call_locks, setter_locks, plain_setter_locks, getter_locks, Invocations_locks} \<and> g = concat calls"
    if "g \<in> {call_locks, Invocations_locks}" for g using that by (intro exI [of _ "[g]"]) auto
  then have "\<forall>g\<in>set (fst ?start). \<exists>calls. set calls \<subseteq> {call_locks, setter_locks, plain_setter_locks, getter_locks, Invocations_locks} \<and>
      g = concat calls" by simp
  from fakes_race_free [OF this [unfolded fst_conv] advances_steps [OF run steps_refl], of 0 2 Args] s
  have "next_action (gs ! 2) \<noteq> Some (Store Args)" by (simp add: gs)
  with run s show ?thesis by blast
qed

text \<open>The results are: a call reads them after it has released the mutex, also in the doubles whose
  setters take it.\<close>

lemma results_race:
  assumes "p \<in> {setter_locks, plain_setter_locks}"
  shows "\<exists>gs l. lock_steps ([call_locks, p], unlocked) (gs, l) \<and>
    next_action (gs ! 0) = Some (Load Results) \<and> next_action (gs ! 1) = Some (Store Results)"
proof -
  let ?sched = "[0, 0, 0, 0, 0, 0, 0, 0, 0, 0, 0] @ (if p = setter_locks then [1, 1] else [])"
  have "\<exists>gs l. advances ?sched ([call_locks, p], unlocked) = Some (gs, l) \<and>
    next_action (gs ! 0) = Some (Load Results) \<and> next_action (gs ! 1) = Some (Store Results)"
    using assms by (auto simp: advance_def can_step_def lock_programs unlocked_def next_action_def)
  then show ?thesis using advances_steps [OF _ steps_refl] by blast
qed

section \<open>Calls alone do not block\<close>

text \<open>What is left of a sequence of calls, setters and getters.\<close>

definition fake_calls :: "lock_action list list" where
  "fake_calls = [call_locks, setter_locks, plain_setter_locks, getter_locks]"

definition underway :: "lock_action list \<Rightarrow> bool" where
  "underway g \<longleftrightarrow> (\<exists>s ps. s \<in> set (concat (map suffixes fake_calls)) \<and> set ps \<subseteq> set fake_calls \<and> g = s @ concat ps)"

lemma between_calls: "set ps \<subseteq> set fake_calls \<Longrightarrow> balanced (concat ps)"
  by (rule balanced_concat, rule ballI, rule balanced_methods) (auto simp: fake_calls_def all_methods_def)

lemma underway_tail: "underway (a # g) \<Longrightarrow> underway g"
proof -
  assume "underway (a # g)"
  then obtain s p ps where p: "p \<in> set fake_calls" "suffix s p" "set ps \<subseteq> set fake_calls" "a # g = s @ concat ps"
    by (auto simp: underway_def)
  have "\<exists>s ps. s \<in> set (concat (map suffixes fake_calls)) \<and> set ps \<subseteq> set fake_calls \<and> g = s @ concat ps"
  proof (cases s)
    case (Cons b s')
    with p show ?thesis by (intro exI [of _ s'] exI [of _ ps]) (auto dest: suffix_ConsD)
  next
    case Nil
    with p(3,4) have "\<exists>s p ps. p \<in> set fake_calls \<and> suffix s p \<and> set ps \<subseteq> set fake_calls \<and> g = s @ concat ps"
    proof (induction ps)
      case (Cons q qs)
      show ?case
      proof (cases q)
        case Nil
        with Cons show ?thesis by auto
      next
        case (Cons b q')
        with Cons.prems have "suffix q' q" "g = q' @ concat qs" by (auto simp: suffix_def)
        with Cons.prems show ?thesis by auto
      qed
    qed simp
    then show ?thesis by auto
  qed
  then show ?thesis by (simp add: underway_def)
qed

lemma underway_elim:
  assumes "underway g"
  obtains s ps where "s \<in> set (concat (map suffixes fake_calls))" "g = s @ concat ps" "balanced (concat ps)"
  using assms between_calls unfolding underway_def by blast

text \<open>The position inside a call decides what the goroutine holds.\<close>

lemma inside_call:
  assumes "s \<in> set (concat (map suffixes fake_calls))"
  shows "well_locked s"
    and "\<not> reading InvocationsMutex s"
    and "reading CallMutex s \<Longrightarrow> s \<noteq> [] \<and> hd s \<in> {RUnlock CallMutex, Load Args}"
    and "announcing InvocationsMutex s \<Longrightarrow> s \<noteq> [] \<and> hd s \<in> {Acquire InvocationsMutex, Unlock InvocationsMutex} \<union> range Load \<union> range Store"
    and "announcing CallMutex s \<Longrightarrow>
      s \<noteq> [] \<and> (hd s = Announce InvocationsMutex \<or> hd s \<in> range Acquire \<union> range Unlock \<union> range Load \<union> range Store)"
  using assms by (auto simp: fake_calls_def lock_programs announcing_def reading_def holding_def)

lemma underway_facts:
  assumes "underway g"
  shows "well_locked g"
    and "\<not> reading InvocationsMutex g"
    and "reading CallMutex g \<Longrightarrow> g \<noteq> [] \<and> hd g \<in> {RUnlock CallMutex, Load Args}"
    and "announcing InvocationsMutex g \<Longrightarrow> g \<noteq> [] \<and> hd g \<in> {Acquire InvocationsMutex, Unlock InvocationsMutex} \<union> range Load \<union> range Store"
    and "announcing CallMutex g \<Longrightarrow>
      g \<noteq> [] \<and> (hd g = Announce InvocationsMutex \<or> hd g \<in> range Acquire \<union> range Unlock \<union> range Load \<union> range Store)"
proof -
  from assms obtain s ps where s: "s \<in> set (concat (map suffixes fake_calls))" and g: "g = s @ concat ps"
    and b: "balanced (concat ps)" by (rule underway_elim)
  note i = inside_call [OF s]
  show "well_locked g" unfolding g by (rule well_locked_append [OF b i(1)])
  show "\<not> reading InvocationsMutex g" using i(2) by (simp add: g held_append [OF b])
  show "g \<noteq> [] \<and> hd g \<in> {RUnlock CallMutex, Load Args}" if "reading CallMutex g"
    using that i(3) by (auto simp: g held_append [OF b])
  show "g \<noteq> [] \<and> hd g \<in> {Acquire InvocationsMutex, Unlock InvocationsMutex} \<union> range Load \<union> range Store" if "announcing InvocationsMutex g"
    using that i(4) by (auto simp: g held_append [OF b])
  show "g \<noteq> [] \<and> (hd g = Announce InvocationsMutex \<or> hd g \<in> range Acquire \<union> range Unlock \<union> range Load \<union> range Store)" if "announcing CallMutex g"
    using that i(5) by (auto simp: g held_append [OF b])
qed

lemma blocked_cases:
  assumes "g \<noteq> []" "\<not> can_step g l"
  obtains m where "announced (l m)" "hd g = Announce m \<or> hd g = RLock m"
    | m where "0 < readers (l m)" "hd g = Acquire m"
  using assms by (cases g; cases "hd g") (auto simp: can_step_def)

lemma underway_progress:
  assumes all: "\<And>g. g \<in> set gs \<Longrightarrow> underway g" and acc: "accounted (gs, l)"
  shows "\<not> stuck (gs, l)"
proof
  assume "stuck (gs, l)"
  then obtain g where g: "g \<in> set gs" "g \<noteq> []" and none: "\<And>g. g \<in> set gs \<Longrightarrow> \<not> can_step g l"
    by (auto simp: stuck_iff)
  have le: "readers (l m) \<le> length (filter (reading m) gs)" for m using acc by (simp add: accounted_def)
  have no_reader: "readers (l m) = 0" for m
  proof -
    have "\<not> reading m g" if g: "g \<in> set gs" for g
    proof (cases m)
      case CallMutex
      have "can_step g l" if "g \<noteq> []" "hd g \<in> {RUnlock CallMutex, Load Args}" using that by (cases g) (auto simp: can_step_def)
      with none [OF g] underway_facts(3) [OF all [OF g]] CallMutex show ?thesis by blast
    qed (use underway_facts(2) [OF all [OF g]] in simp)
    then have "filter (reading m) gs = []" by (simp add: filter_empty_conv)
    with le [of m] show ?thesis by simp
  qed
  have holder: "\<exists>g\<in>set gs. announcing m g" if "announced (l m)" for m using that accounted_announced [OF acc] by simp
  have 1: "\<not> announced (l InvocationsMutex)"
  proof
    assume "announced (l InvocationsMutex)"
    then obtain h where h: "h \<in> set gs" "announcing InvocationsMutex h" using holder by blast
    from underway_facts(4) [OF all [OF h(1)] h(2)] have "can_step h l"
      using no_reader by (cases h) (auto simp: can_step_def)
    with none [OF h(1)] show False by blast
  qed
  have 2: "\<not> announced (l CallMutex)"
  proof
    assume "announced (l CallMutex)"
    then obtain h where h: "h \<in> set gs" "announcing CallMutex h" using holder by blast
    from underway_facts(5) [OF all [OF h(1)] h(2)] have "can_step h l"
      using no_reader 1 by (cases h) (auto simp: can_step_def)
    with none [OF h(1)] show False by blast
  qed
  from 1 2 have "\<not> announced (l m)" for m by (cases m) auto
  with blocked_cases [OF g(2) none [OF g(1)]] no_reader show False by (metis less_irrefl)
qed

lemma underway_step:
  assumes "lock_step c c'" "\<forall>g\<in>set (fst c). underway g" "accounted c"
  shows "(\<forall>g\<in>set (fst c'). underway g) \<and> accounted c'"
proof -
  obtain gs l gs' l' where c: "c = (gs, l)" "c' = (gs', l')" by (metis surj_pair)
  from assms(1) obtain i a rest where i: "i < length gs" "gs ! i = a # rest" "gs' = gs[i := rest]"
    by (auto simp: c elim: lock_stepE)
  have "underway (a # rest)" using assms(2) i nth_mem by (fastforce simp: c)
  then have "\<forall>g\<in>set gs'. underway g"
    using assms(2) underway_tail set_update_subset_insert [of gs i rest] by (auto simp: c i(3))
  moreover have "accounted c'"
    using accounted_step assms underway_facts(1) by (simp add: c list_all_iff)
  ultimately show ?thesis by (simp add: c)
qed

lemma underway_steps:
  "lock_steps c c' \<Longrightarrow> \<forall>g\<in>set (fst c). underway g \<Longrightarrow> accounted c \<Longrightarrow>
     (\<forall>g\<in>set (fst c'). underway g) \<and> accounted c'"
  by (induction rule: lock_steps.induct) (simp, blast dest: underway_step)

text \<open>Every step uses up an action.\<close>

definition actions_left :: "lock_state \<Rightarrow> nat" where
  "actions_left c = sum_list (map length (fst c))"

lemma step_actions: "lock_step c c' \<Longrightarrow> actions_left c = Suc (actions_left c')"
proof (induction rule: lock_step.induct)
  case (lock_step i gs a rest l)
  then show ?case
  proof (induction gs arbitrary: i)
    case (Cons g gs)
    then show ?case by (cases i) (auto simp: actions_left_def)
  qed simp
qed

lemma underway_finish:
  "\<forall>g\<in>set (fst c). underway g \<Longrightarrow> accounted c \<Longrightarrow> lock_steps c0 c \<Longrightarrow> \<exists>c'. lock_steps c0 c' \<and> finished c'"
proof (induction "actions_left c" arbitrary: c rule: less_induct)
  case less
  have "\<not> stuck c" using underway_progress less.prems by (cases c) auto
  then show ?case
  proof (cases "finished c")
    case False
    with \<open>\<not> stuck c\<close> obtain c' where step: "lock_step c c'" by (auto simp: stuck_def)
    with less.hyps [of c'] underway_step [OF step] less.prems steps_more [OF less.prems(3) step] step_actions [OF step]
    show ?thesis by simp
  qed (use less.prems in blast)
qed

text \<open>C39: However many goroutines call a double, set its results and read its record, one after the
  other, and however their steps interleave, they never block each other: as long as one of
  them has not returned, one can go on, every step uses up an action, and all of them can
  return.\<close>

theorem fakes_progress:
  assumes "\<forall>g\<in>set gs. \<exists>calls. set calls \<subseteq> {call_locks, setter_locks, plain_setter_locks, getter_locks} \<and> g = concat calls"
    and "lock_steps (gs, unlocked) c"
  shows "\<not> stuck c \<and> (\<forall>c'. lock_step c c' \<longrightarrow> actions_left c' < actions_left c) \<and>
    (\<exists>c'. lock_steps c c' \<and> finished c')"
proof -
  have "underway (concat calls)" if "set calls \<subseteq> {call_locks, setter_locks, plain_setter_locks, getter_locks}" for calls
    using that unfolding underway_def by (intro exI [of _ "[]"] exI [of _ calls]) (auto simp: fake_calls_def)
  with assms(1) have "\<forall>g\<in>set gs. underway g" by auto
  moreover have "accounted (gs, unlocked)" by (rule accounted_start [OF balanced_calls [OF assms(1)]]) (auto simp: all_methods_def)
  ultimately have inv: "\<forall>g\<in>set (fst c). underway g" "accounted c" using underway_steps [OF assms(2)] by auto
  then have "\<not> stuck c" using underway_progress by (cases c) auto
  with underway_finish [OF inv steps_refl] step_actions show ?thesis by fastforce
qed

lemma fakes_progress_witness:
  "\<exists>c c'. advances [0, 0, 1, 2, 0] ([call_locks @ getter_locks, setter_locks, call_locks, getter_locks], unlocked) = None \<and>
     advances [0, 0, 0] ([call_locks @ getter_locks, setter_locks, call_locks, getter_locks], unlocked) = Some c \<and>
     lock_steps c c' \<and> finished c'"
proof -
  let ?start = "([call_locks @ getter_locks, setter_locks, call_locks, getter_locks], unlocked)"
  have 1: "advances [0, 0, 1, 2, 0] ?start = None" by (simp add: advance_def can_step_def lock_programs unlocked_def)
  obtain c where c: "advances [0, 0, 0] ?start = Some c" by (simp add: advance_def can_step_def lock_programs unlocked_def)
  have "call_locks @ getter_locks = concat [call_locks, getter_locks]" "setter_locks = concat [setter_locks]"
    "call_locks = concat [call_locks]" "getter_locks = concat [getter_locks]" by simp_all
  then have calls: "\<forall>g\<in>set (fst ?start). g \<in> concat ` {cs. set cs \<subseteq> {call_locks, setter_locks, plain_setter_locks, getter_locks}}"
    by (auto simp del: concat.simps intro: image_eqI)
  have "lock_steps ?start c" by (rule advances_steps [OF c steps_refl])
  from fakes_progress [OF _ this] calls obtain c' where "lock_steps c c'" "finished c'" by (auto simp: image_iff)
  with 1 c show ?thesis by blast
qed

end
