(* ===== verification/Spec2Isabelle.thy ===== *)
theory Spec2Isabelle
  imports Placing FakeRecords FakeLocks
begin

text \<open>
  Eirini staging (\<^verbatim>\<open>cloudfoundry-incubator/eirini-staging\<close>): the three programs that build a droplet
  on Kubernetes, each in a container of its own, one after the other.

  \<^item> \<^verbatim>\<open>cmd/downloader\<close> downloads the application bits, the buildpacks of the environment variable
    \<^verbatim>\<open>BUILDPACKS\<close> and, when there is one, the build cache of the last staging. Its installers are
    \<^verbatim>\<open>package_installer.go\<close>, \<^verbatim>\<open>buildpack_manager.go\<close> with \<^verbatim>\<open>git_buildpack.go\<close>, and
    \<^verbatim>\<open>checksum/verifying_reader.go\<close>.
  \<^item> \<^verbatim>\<open>cmd/executor\<close> extracts the bits (\<^verbatim>\<open>unzip.go\<close>) and runs the buildpacks on them
    (\<^verbatim>\<open>builder/runner.go\<close>), which leaves the droplet, the staging result and the new build cache.
  \<^item> \<^verbatim>\<open>cmd/uploader\<close> uploads droplet and cache (\<^verbatim>\<open>uploader.go\<close>) and reports success
    (\<^verbatim>\<open>responder.go\<close>, \<^verbatim>\<open>staging_result_modifier.go\<close>).

  The programs share nothing but files and the environment; each reports its own failure to the
  cloud controller and ends with an exit code.

  \<^bold>\<open>State.\<close> A Go function is a state transformer (\<^verbatim>\<open>GoMonad\<close>) over the \<open>world\<close> of \<^verbatim>\<open>GoOS\<close>: the file
  tree \<open>fs\<close>, the \<open>trace\<close> of visible actions (log lines, output, programs run, requests sent) and
  a \<open>clock\<close> that counts calls. It ends with \<open>Ok\<close>, \<open>Err\<close>, \<open>Panic\<close> or \<open>Exit\<close>. The \<^verbatim>\<open>Runner\<close> of
  \<^verbatim>\<open>builder/runner.go\<close> is the record \<open>runner\<close>, which extends the world by the directories that
  the runner chooses. Go values are: structs as records, errors as the datatype \<open>go_error\<close> with
  \<open>None\<close> for \<^verbatim>\<open>nil\<close>, strings and byte slices as lists of bytes or characters, maps as association
  lists, file modes and digests as words, readers as their state with a step function.

  \<^bold>\<open>Parameters.\<close> The record \<open>host\<close> holds what is not code of this repository: the environment
  (\<open>h_env\<close>, \<open>h_cwd\<close>, \<open>h_umask\<close>), a fault oracle that may let any system call fail at any time
  (\<open>h_fault\<close>), random names and times (\<open>h_rand\<close>, \<open>h_nanos\<close>), external programs, which may change the
  whole file tree (\<open>h_exec\<close>, \<open>h_lookPath\<close>), HTTP exchanges whose bodies arrive in pieces and may
  end in an error (\<open>h_http\<close>, \<open>h_urlParse\<close>, \<open>h_tls\<close>), the ZIP container format (\<open>h_zip\<close>), YAML
  (\<open>h_yamlConfig\<close>, \<open>h_yamlProcfile\<close>, \<open>h_yamlRelease\<close>), the texts of JSON errors and of quoted
  strings (\<open>h_jsonError\<close>, \<open>h_quote\<close>) and \<^verbatim>\<open>math.Log10\<close> (\<open>h_log10\<close>). The oracles are indexed by the
  clock, so that no two calls need to have the same outcome. A theorem holds for every host
  unless it names what it needs, such as no faults, or the addresses that are served.

  Two things are the same for the model that differ outside it. A program that could not be
  started, for want of an executable or because a bare name like \<^verbatim>\<open>cp\<close> is not found in the path, is
  recorded as a program that failed. The size of a folder, which depends on the system, is
  zero; no result rests on it, because only files are sent: reading a folder fails, and with it
  the request. A request that is recorded as sent is a complete one.

  \<^bold>\<open>Theories.\<close> The language and its library:
  \<^item> \<^verbatim>\<open>Prelude\<close>, \<^verbatim>\<open>GoErrors\<close>, \<^verbatim>\<open>GoMonad\<close>: texts and maps; error values with the descriptive errors
    of \<^verbatim>\<open>builder/descriptive_error.go\<close>; sequencing, \<^verbatim>\<open>defer\<close> and loops, with the locale
    \<open>effect_relation\<close> for whatever every part of a program keeps.
  \<^item> \<^verbatim>\<open>FilePath\<close>, \<^verbatim>\<open>FileTree\<close>, \<^verbatim>\<open>GoOS\<close>, \<^verbatim>\<open>OSFacts\<close>, \<^verbatim>\<open>Keeps\<close>, \<^verbatim>\<open>Files\<close>, \<^verbatim>\<open>Traces\<close>: paths, the file
    tree, system calls and what they change: what is kept, which one file is touched, which
    programs ran and which requests were sent.
  \<^item> \<^verbatim>\<open>Hashes\<close>, \<^verbatim>\<open>Json\<close>, \<^verbatim>\<open>JsonCodec\<close>: MD5 and SHA-256 computed on words; the printer and the
    byte-driven scanner of \<^verbatim>\<open>encoding/json\<close> with their round trip; the locale \<open>json_codec\<close>.
  \<^item> \<^verbatim>\<open>Readers\<close>, \<^verbatim>\<open>Streams\<close>: \<^verbatim>\<open>io.Reader\<close>, the verifying reader and the copy loops, against the
    whole content of a body; the locale \<open>streaming_hash\<close>.
  \<^item> \<^verbatim>\<open>Samples\<close>: concrete machines for the witnesses.

  The program:
  \<^item> \<^verbatim>\<open>Models\<close> (\<^verbatim>\<open>builder/models.go\<close> and the messages to the cloud controller), \<^verbatim>\<open>Config\<close>
    (\<^verbatim>\<open>builder/config.go\<close>, \<^verbatim>\<open>builder/helpers.go\<close>), \<^verbatim>\<open>Names\<close> (\<^verbatim>\<open>eirini_models.go\<close>).
  \<^item> \<^verbatim>\<open>Workspace\<close>, \<^verbatim>\<open>Buildpacks\<close>, \<^verbatim>\<open>Droplet\<close>, \<^verbatim>\<open>Runner\<close> (\<^verbatim>\<open>builder/runner.go\<close>): directories and
    caches; locating, supplying, detecting and finalizing; release, metadata and archives; the
    whole run. \<^verbatim>\<open>Supply\<close>, \<^verbatim>\<open>Finalize\<close>, \<^verbatim>\<open>Detect\<close> and \<^verbatim>\<open>Artifacts\<close> hold what each phase promises.
  \<^item> \<^verbatim>\<open>Unzip\<close>, \<^verbatim>\<open>Extracting\<close> (\<^verbatim>\<open>unzip.go\<close>); \<^verbatim>\<open>Installers\<close>, \<^verbatim>\<open>Clones\<close>, \<^verbatim>\<open>Downloads\<close> (the three installer
    files and the verifying reader).
  \<^item> \<^verbatim>\<open>Modifier\<close> (\<^verbatim>\<open>staging_result_modifier.go\<close>), \<^verbatim>\<open>Responder\<close>, \<^verbatim>\<open>Reports\<close> (\<^verbatim>\<open>responder.go\<close>,
    \<^verbatim>\<open>uploader.go\<close>, \<^verbatim>\<open>util/\<close>).
  \<^item> \<^verbatim>\<open>Programs\<close> (\<^verbatim>\<open>cmd/\<close>): the three \<^verbatim>\<open>main\<close> functions. \<^verbatim>\<open>Pipeline\<close>, \<^verbatim>\<open>Processes\<close>, \<^verbatim>\<open>Uploading\<close> and
    \<^verbatim>\<open>Downloading\<close> hold what they promise as processes, and \<^verbatim>\<open>Placing\<close> where the buildpacks are after a
    download.
  \<^item> \<^verbatim>\<open>Fakes\<close>, \<^verbatim>\<open>Doubles\<close>, \<^verbatim>\<open>FakeRecords\<close>, \<^verbatim>\<open>FakeLocks\<close>: the generated test doubles, their record of calls, and their
    mutexes.
\<close>

text \<open>
  \<^bold>\<open>What is shown.\<close> A staging run refines an abstract machine of phases whose steps are labelled
  with the programs they execute (\<^verbatim>\<open>Pipeline\<close>), down to the exit code; the theorems about
  supplying, detection, finalizing and release say which scripts ran and in which order, which
  exit code the failing one gives, why a buildpack was passed over, and that the process types
  are those that the release script printed. For each of the three programs one theorem describes every ending: exit code,
  programs, requests and reports. On the way in, an archive with a checksum is only installed
  when it matches, and extraction stays inside its directory unless a name climbs out of it; on
  the way out, the uploaded bytes, the JSON texts and the keys of the buildpacks are those that
  were stored. In this theory the programs are composed: what the executor can choose has been asked for by the
  downloader and is where it is looked for, what was downloaded is what is extracted, and what the executor stores is what the uploader
  sends. Where the code falls short of what it means to do, a theorem states what happens.

  \<^bold>\<open>Interfaces.\<close> \<open>effect_relation\<close> is interpreted on every relation between worlds that the program
  theories use, \<open>json_codec\<close> on the encoders and decoders of the models, \<open>streaming_hash\<close> on SHA-256,
  and \<open>installer\<close> (in \<^verbatim>\<open>Downloading\<close>) on the two implementations of \<^verbatim>\<open>Installer\<close>.

  \<^bold>\<open>Bounds.\<close> All recursion is total: the copy loop has the pieces still pending as its measure, the
  JSON scanner consumes a byte at each step, and the search for the name of a temporary
  directory ends after 10000 attempts as in the library. The only fuel-like bound of the program
  itself is the size limit of an extracted file, which is kept as it is.

  \<^bold>\<open>Test doubles.\<close> They are modelled one call after the other, where a stub acts on the state of the
  test that set it. Goroutines that use a double at once are modelled by the mutex operations and
  the accesses to shared variables of each method, interleaved in every order: the recorded
  arguments and invocations are free of data races, the stub and the results are not, and calls
  alone never block, but \<^verbatim>\<open>Invocations\<close> beside a call can.

  \<^bold>\<open>Not modelled.\<close> Test files and \<^verbatim>\<open>testdata/site.go\<close>, which no program runs. The vendored packages,
  except for the struct of the callback message. Symbolic links, ownership and permission checks
  of the file system. The standard output and error streams of buildpack scripts, unless the
  code captures them. The constants of \<^verbatim>\<open>eirini_models.go\<close> and \<^verbatim>\<open>builder/descriptive_error.go\<close> that no
  code uses, and the interfaces without operations of their own. The programs start no
  goroutines, so that there is no concurrency to model in them.
\<close>

section \<open>From the downloader to the executor\<close>




lemma BuildpackManager_config:
  assumes "run_state (BuildpackManager_Install H b) w = (Ok (), w')"
  shows "\<exists>bps m. Unmarshal decode_Buildpacks None (mgr_buildpacksJSON b) = Some bps \<and>
    lookup (fs w') (resolve H (Join [mgr_buildpackDir b, configFileName])) =
      Some (File m (Marshal (encode_slice encode_Buildpack) bps))"
proof (cases "Unmarshal decode_Buildpacks None (mgr_buildpacksJSON b)")
  case None
  with assms show ?thesis by (auto simp: BuildpackManager_Install_def Let_def attempt_Ok simp del: run_attempt)
next
  case (Some bps)
  with assms obtain w1 where "run_state (writeBuildpackJSON H b bps) w1 = (Ok (), w')"
    by (auto simp: BuildpackManager_Install_def attempt_Ok simp del: run_attempt)
  then have "run_state (WriteFile H (Join [mgr_buildpackDir b, configFileName])
      (Marshal (encode_slice encode_Buildpack) bps) perm_0644) w1 = (Ok (), w')"
    unfolding writeBuildpackJSON_def attempt_ok_Ok .
  with Some show ?thesis by (auto elim: WriteFile_OkE)
qed

definition staging_host :: host where
  "staging_host = sample_host\<lparr>h_env := (\<lambda>n.
     if n = EnvBuildpacks then Some ''[{\"name\":\"a\",\"key\":\"k\",\"url\":\"http://h/a\",\"skip_detect\":true}]''
     else if n = EnvOutputMetadataLocation then Some ''/out/result.json'' else None)\<rparr>"

text \<open>After a successful installation of the buildpacks, the file \<^verbatim>\<open>config.json\<close> beside them is
  read back as the list of buildpacks of the environment, when its texts are valid UTF-8.\<close>

theorem config_file_roundtrip:
  assumes "run_state (BuildpackManager_Install H b) w = (Ok (), w')"
    and "list_all wf_Buildpack (wanted (mgr_buildpacksJSON b))"
  shows "\<exists>m s. lookup (fs w') (resolve H (Join [mgr_buildpackDir b, configFileName])) = Some (File m s) \<and>
    wanted s = wanted (mgr_buildpacksJSON b)"
proof -
  from BuildpackManager_config [OF assms(1)] obtain bps m where
    u: "Unmarshal decode_Buildpacks None (mgr_buildpacksJSON b) = Some bps" and
    f: "lookup (fs w') (resolve H (Join [mgr_buildpackDir b, configFileName])) =
      Some (File m (Marshal (encode_slice encode_Buildpack) bps))" by blast
  have "pred_option (list_all wf_Buildpack) bps" using assms(2) u by (simp add: wanted_def split: option.splits)
  from Buildpacks_codec.Unmarshal_Marshal [OF this]
  have "wanted (Marshal (encode_slice encode_Buildpack) bps) = wanted (mgr_buildpacksJSON b)"
    using u by (simp add: wanted_def)
  with f show ?thesis by blast
qed

definition one_buildpack :: BuildpackManager where
  "one_buildpack = small_manager\<lparr>mgr_buildpacksJSON := ''[]''\<rparr>"

lemma config_file_roundtrip_witness:
  "\<exists>w' m s. run_state (BuildpackManager_Install sample_host one_buildpack) sample_world = (Ok (), w') \<and>
     lookup (fs w') [''bp'', ''config.json''] = Some (File m s) \<and> wanted s = []"
proof -
  have "fst (run_state (BuildpackManager_Install sample_host one_buildpack) sample_world) = Ok ()" by code_simp
  then obtain w' where run: "run_state (BuildpackManager_Install sample_host one_buildpack) sample_world = (Ok (), w')"
    by (rule run_fst)
  have w: "wanted (mgr_buildpacksJSON one_buildpack) = []" by code_simp
  have "resolve sample_host (Join [mgr_buildpackDir one_buildpack, configFileName]) = [''bp'', ''config.json'']" by code_simp
  with config_file_roundtrip [OF run] run w show ?thesis by auto
qed

text \<open>The executor extracts the archive that is in its workspace.\<close>

lemma extract_app_Ok:
  assumes "run_state (extract_app H dir) w = (Ok d, w')"
    and bits: "lookup (fs w) (resolve H (Join [dir, AppBits])) = Some (File m content)"
  shows "\<exists>w1 es. h_zip H content = Inr es \<and> run_state (for_each (extract_entry H tenGB d) es) w1 = (Ok (), w')"
proof -
  from assms(1) obtain w1 where 1: "run_state (TempDir H ''app-bits'') w = (Ok d, w1)"
    and 2: "run_state (Extract H tenGB (Join [dir, AppBits]) d) w1 = (Ok (), w')"
    unfolding extract_app_def attempt_Ok by auto
  from state_io_relD [OF TempDir_keeps 1] bits
  have f: "lookup (fs w1) (resolve H (Join [dir, AppBits])) = Some (File m content)" by (auto simp: keeps_def)
  from 2 obtain es w2 where 3: "run_state (OpenReader H (Join [dir, AppBits])) w1 = (Ok es, w2)"
    "run_state (for_each (extract_entry H tenGB d) es) w2 = (Ok (), w')"
    by (auto simp: Extract_def attempt_Ok simp del: run_attempt split: if_splits)
  from OpenReader_entries [OF 3(1)] f 3(2) show ?thesis by auto
qed

text \<open>C11: The application bits that the executor extracts are those that the server has sent: when
  the downloader has stored the response in the workspace and the executor has made its build
  directory from this workspace, then the response was complete, it is a zip archive, and all
  of its entries have been extracted into the build directory.\<close>

theorem app_bits_handover:
  assumes "run_state (Install H (AppInstaller (NewPackageManager client url workspace None))) w = (Ok (), w')"
    and "run_state (extract_app H workspace) v = (Ok d, v')" and "fs v = fs w'"
  shows "\<exists>n body es v1. h_http H n client (get_request url) = Inr (StatusOK, body) \<and> is_EOF (snd (drain body)) \<and>
    h_zip H (fst (drain body)) = Inr es \<and> run_state (for_each (extract_entry H tenGB d) es) v1 = (Ok (), v')"
proof -
  let ?d = "NewPackageManager client url workspace None"
  from assms(1) have "run_state (download H ?d url (Join [workspace, AppBits])) w = (Ok (), w')"
    by (auto simp: PackageInstaller_Install_def NewPackageManager_def attempt_ok_Ok simp del: run_attempt split: if_splits)
  from download_Ok [OF this] obtain n body m where
    "h_http H n client (get_request url) = Inr (StatusOK, body)" "is_EOF (snd (drain body))"
    "lookup (fs w') (resolve H (Join [workspace, AppBits])) = Some (File m (fst (drain body)))"
    by (auto simp: NewPackageManager_def responseReader_def)
  with extract_app_Ok [OF assms(2), of m "fst (drain body)"] assms(3) show ?thesis by auto
qed

lemma sample_Extract:
  "run_state (Extract sample_host limit src dir) w = run_state (Extract sample_host 3 src dir) w"
  by (auto simp: Extract_def OpenReader_def sample_host_def split: prod.split result.split)

lemma app_bits_handover_witness:
  "\<exists>n body es. h_http sample_host n DefaultClient (get_request ''http://h/app'') = Inr (StatusOK, body) \<and>
     is_EOF (snd (drain body)) \<and> h_zip sample_host (fst (drain body)) = Inr es"
proof -
  let ?i = "Install sample_host (AppInstaller (NewPackageManager DefaultClient ''http://h/app'' ''/out'' None))"
  have "fst (run_state ?i sample_world) = Ok ()" by code_simp
  then obtain w' where run: "run_state ?i sample_world = (Ok (), w')" by (rule run_fst)
  have "(case run_state ?i sample_world of (r, w) \<Rightarrow>
      (case run_state (TempDir sample_host ''app-bits'') w of (r1, w1) \<Rightarrow> r1 = Ok ''/tmp/app-bits1'' \<and>
        fst (run_state (Extract sample_host 3 (Join [''/out'', AppBits]) ''/tmp/app-bits1'') w1) = Ok ()))"
    by code_simp
  then obtain w1 where 1: "run_state (TempDir sample_host ''app-bits'') w' = (Ok ''/tmp/app-bits1'', w1)"
    "fst (run_state (Extract sample_host tenGB (Join [''/out'', AppBits]) ''/tmp/app-bits1'') w1) = Ok ()"
    unfolding run sample_Extract [of tenGB] by (auto split: prod.splits)
  then have "\<exists>w2. run_state (extract_app sample_host ''/out'') w' = (Ok ''/tmp/app-bits1'', w2)"
    by (auto simp: extract_app_def prod_eq_iff split: prod.split)
  then obtain w2 where 2: "run_state (extract_app sample_host ''/out'') w' = (Ok ''/tmp/app-bits1'', w2)" by blast
  from app_bits_handover [OF run 2 refl] show ?thesis by blast
qed

section \<open>From the executor to the uploader\<close>

text \<open>C10: The staging result that the executor has written is the one that the uploader sends: if
  the executor has saved the metadata of the buildpacks and the process types, and the uploader
  then prepares its success message, this message holds the same staging result with the keys
  of the buildpacks in the place of their names, and all these names were provided.\<close>

theorem staging_result_handover:
  assumes "run_state (saveInfo H (executor_config H out cache dir) md rel) w = (Ok (), w')"
    and "wf_StagingResult (staging_result md rel)"
    and "run_state (PrepareSuccessResponse H r (GetEnvOrDefault H EnvOutputMetadataLocation RecipeOutputMetadataLocation)
      (Getenv H EnvBuildpacks)) v = (Ok msg, v')" and "fs v = fs w'"
  shows "\<exists>provided. getProvidedBuildpacks (h_jsonError H) (Getenv H EnvBuildpacks) = Inr provided \<and>
    list_all (is_provided provided) (result_names (staging_result md rel)) \<and>
    msg = success_message r (rekey_result provided (norm_StagingResult (staging_result md rel)))"
proof -
  let ?loc = "GetEnvOrDefault H EnvOutputMetadataLocation RecipeOutputMetadataLocation"
  let ?sr = "norm_StagingResult (staging_result md rel)"
  from assms(1) obtain m where "lookup (fs w') (resolve H ?loc) = Some (File m (Encode encode_StagingResult (staging_result md rel)))"
    by (rule saveInfo_Ok) (simp add: executor_config_def)
  with StagingResult_codec.Unmarshal_Encode [OF assms(2)] assms(4)
  have stored: "stored_result (fs v) (resolve H ?loc) = Some ?sr" by (simp add: stored_result_def)
  from PrepareSuccessResponse_cases [OF assms(3)] stored obtain sr' where
    mod: "fst (Modify (h_jsonError H) (Getenv H EnvBuildpacks) ?sr) = Inr sr'" and msg: "msg = success_message r sr'" by auto
  from mod obtain provided where p: "getProvidedBuildpacks (h_jsonError H) (Getenv H EnvBuildpacks) = Inr provided"
    by (cases "getProvidedBuildpacks (h_jsonError H) (Getenv H EnvBuildpacks)") (auto simp: Modify_def Let_def)
  have names: "result_names ?sr = result_names (staging_result md rel)"
    by (simp add: result_names_def norm_StagingResult_def)
  from mod Modify_result [OF p, of ?sr] have "List.find (\<lambda>n. \<not> is_provided provided n) (result_names ?sr) = None"
    "sr' = rekey_result provided ?sr" by (auto split: option.splits)
  with p msg show ?thesis by (auto simp: names find_None_iff list_all_iff)
qed

lemma staging_result_handover_witness:
  "\<exists>provided. getProvidedBuildpacks (h_jsonError staging_host) (Getenv staging_host EnvBuildpacks) = Inr provided \<and>
    is_provided provided ''a''"
proof -
  let ?md = "[\<lparr>bm_Key = ''a'', bm_Name = ''A'', bm_Version = ''1''\<rparr>]"
  let ?rel = "\<lparr>DefaultProcessTypes = Some [(''web'', ''run'')]\<rparr>"
  let ?r = "\<lparr>stagingGUID = ''g'', completionCallback = ''c'', eiriniAddr = ''a'', resp_client = DefaultClient\<rparr>"
  let ?save = "saveInfo staging_host (executor_config staging_host ''o'' ''c'' ''d'') ?md ?rel"
  let ?prep = "PrepareSuccessResponse staging_host ?r (GetEnvOrDefault staging_host EnvOutputMetadataLocation
      RecipeOutputMetadataLocation) (Getenv staging_host EnvBuildpacks)"
  have "case run_state ?save (NewRunner sample_world) of (r, w) \<Rightarrow> r = Ok () \<and>
      (case run_state ?prep (world.truncate w) of (r', w') \<Rightarrow> is_Ok r')" by code_simp
  then obtain w' msg v' where 1: "run_state ?save (NewRunner sample_world) = (Ok (), w')"
    and 2: "run_state ?prep (world.truncate w') = (Ok msg, v')"
    by (auto split: prod.splits elim: is_Ok.elims)
  have "wf_StagingResult (staging_result ?md ?rel)"
    by (simp add: wf_StagingResult_def wf_LifecycleMetadata_def wf_BuildpackMetadata_def staging_result_def
        NewStagingResult_def wf_string_map_def wf_map_def map_entries_def)
  from staging_result_handover [OF 1 this 2] show ?thesis
    by (auto simp: result_names_def staging_result_def NewStagingResult_def world.defs)
qed

end
